(* ===== verification/Prelude.thy ===== *)
theory Prelude
  imports Main "HOL-Library.Word" "HOL-Library.Multiset"
begin

unbundle bit_operations_syntax

text \<open>
  Shared vocabulary of the development: the machine integer types, the ways in
  which a piece of kernel or user C code can stop abnormally, the result type of
  fallible operations with its sequencing combinator, the error codes of
  libs/libcommon/include/types.h, and generic facts on lists and words that the
  component theories use.
\<close>

section \<open>Machine integers\<close>

type_synonym u8 = "8 word"
type_synonym u16 = "16 word"
type_synonym u32 = "32 word"
type_synonym u64 = "64 word"

text \<open>Addresses (\<open>vaddr_t\<close>, \<open>paddr_t\<close>, \<open>uintptr_t\<close> and pointers) are 64-bit words on x64.\<close>

type_synonym addr = u64

text \<open>The value of a C int after an arithmetic operation: two's complement wrap-around.\<close>

definition int32 :: "int \<Rightarrow> int" where
  "int32 i = sint (word_of_int i :: u32)"

lemma int32_small [simp]: "- (2 ^ 31) \<le> i \<Longrightarrow> i < 2 ^ 31 \<Longrightarrow> int32 i = i"
  by (simp add: int32_def signed_of_int signed_take_bit_int_eq_self)

section \<open>Abnormal termination and results\<close>

text \<open>
  \<open>Panic\<close> is PANIC(), \<open>Assertion\<close> a failed ASSERT() or assert(), \<open>Bug\<close> the
  BUG() macro, \<open>Fault\<close> an access to memory that holds no object of the accessed
  type (a wild, null or dangling pointer, or an index outside an array), and
  \<open>NoFuel\<close> marks an execution cut off by the fuel of a bounded loop.
\<close>

datatype kfail = Panic | Assertion | Bug | Fault | Unimplemented | NoFuel

type_synonym 'a res = "kfail + 'a"

fun rbind :: "'e + 'a \<Rightarrow> ('a \<Rightarrow> 'e + 'b) \<Rightarrow> 'e + 'b" where
  "rbind (Inl e) f = Inl e"
| "rbind (Inr x) f = f x"

definition require :: "kfail \<Rightarrow> bool \<Rightarrow> unit res" where
  "require e b = (if b then Inr () else Inl e)"

definition deref :: "('a \<Rightarrow> 'b option) \<Rightarrow> 'a \<Rightarrow> 'b res" where
  "deref h a = (case h a of None \<Rightarrow> Inl Fault | Some v \<Rightarrow> Inr v)"

definition rmap :: "('a \<Rightarrow> 'b) \<Rightarrow> 'e + 'a \<Rightarrow> 'e + 'b" where
  "rmap f r = rbind r (\<lambda>x. Inr (f x))"

named_theorems res_simps \<open>unfolding of results\<close>

lemma rbind_eq_Inr [simp]: "rbind m f = Inr y \<longleftrightarrow> (\<exists>x. m = Inr x \<and> f x = Inr y)"
  by (cases m) auto

lemma rbind_eq_Inl: "rbind m f = Inl e \<longleftrightarrow> m = Inl e \<or> (\<exists>x. m = Inr x \<and> f x = Inl e)"
  by (cases m) auto

lemma rbind_assoc: "rbind (rbind m f) g = rbind m (\<lambda>x. rbind (f x) g)"
  by (cases m) auto

lemma rbind_cong [fundef_cong]:
  "m = m' \<Longrightarrow> (\<And>x. m' = Inr x \<Longrightarrow> f x = f' x) \<Longrightarrow> rbind m f = rbind m' f'"
  by (cases m') auto

lemma require_simps [simp]:
  "require e True = Inr ()" "require e False = Inl e"
  by (simp_all add: require_def)

lemma require_eq_Inr [simp]: "require e b = Inr u \<longleftrightarrow> b"
  by (simp add: require_def)

lemma require_eq_Inl [simp]: "require e b = Inl e' \<longleftrightarrow> \<not> b \<and> e' = e"
  by (auto simp: require_def)

lemma deref_eq_Inr [simp]: "deref h a = Inr v \<longleftrightarrow> h a = Some v"
  by (auto simp: deref_def split: option.splits)

lemma deref_eq_Inl [simp]: "deref h a = Inl e \<longleftrightarrow> h a = None \<and> e = Fault"
  by (auto simp: deref_def split: option.splits)

lemma deref_Some: "h a = Some v \<Longrightarrow> deref h a = Inr v"
  by (simp add: deref_def)

lemma deref_None: "h a = None \<Longrightarrow> deref h a = Inl Fault"
  by (simp add: deref_def)

lemma rmap_simps [simp]: "rmap f (Inl e) = Inl e" "rmap f (Inr x) = Inr (f x)"
  by (simp_all add: rmap_def)

declare require_def [res_simps] deref_def [res_simps]

text \<open>A property of every value that a computation may return.\<close>

definition returns :: "('a \<Rightarrow> bool) \<Rightarrow> 'e + 'a \<Rightarrow> bool" where
  "returns P m \<longleftrightarrow> (\<forall>x. m = Inr x \<longrightarrow> P x)"

lemma returnsD: "returns P m \<Longrightarrow> m = Inr x \<Longrightarrow> P x"
  by (simp add: returns_def)

lemma returns_simps [simp]: "returns P (Inr x) \<longleftrightarrow> P x" "returns P (Inl e)"
  by (simp_all add: returns_def)

lemma returns_rbind:
  "returns Q m \<Longrightarrow> (\<And>x. Q x \<Longrightarrow> returns P (f x)) \<Longrightarrow> returns P (rbind m f)"
  by (cases m) auto

lemma returns_rbind_eq: "(\<And>x. m = Inr x \<Longrightarrow> returns P (f x)) \<Longrightarrow> returns P (rbind m f)"
  by (cases m) auto

lemma returns_require: "(b \<Longrightarrow> returns P (f ())) \<Longrightarrow> returns P (rbind (require e b) f)"
  by (cases b) auto

lemma returns_mono: "returns Q m \<Longrightarrow> (\<And>x. Q x \<Longrightarrow> P x) \<Longrightarrow> returns P m"
  by (auto simp: returns_def)

section \<open>Error codes\<close>

text \<open>The enumeration \<open>error_codes\<close> with its constructors in the order of the source.\<close>

datatype error_t =
    OK | DONT_REPLY
  | ERR_OUT_OF_MEMORY | ERR_OUT_OF_RESOURCE | ERR_UNIMPLEMENTED
  | ERR_INVALID_CID | ERR_INVALID_MSG | ERR_INVALID_PAYLOAD | ERR_INVALID_MESSAGE
  | ERR_INVALID_SYSCALL | ERR_INVALID_PAGE_PAYLOAD | ERR_NO_LONGER_LINKED | ERR_CHANNEL_CLOSED
  | ERR_UNEXPECTED_MESSAGE | ERR_BAD_REQUEST | ERR_NOT_FOUND | ERR_NOT_ACCEPTABLE
  | ERR_TOO_SHORT | ERR_TOO_LARGE | ERR_IM_A_TEAPOT
  | ERR_ALREADY_RECEVING | ERR_WOULD_BLOCK | ERR_NEEDS_RETRY

fun error_index :: "error_t \<Rightarrow> nat" where
  "error_index OK = 0"
| "error_index DONT_REPLY = 1"
| "error_index ERR_OUT_OF_MEMORY = 2"
| "error_index ERR_OUT_OF_RESOURCE = 3"
| "error_index ERR_UNIMPLEMENTED = 4"
| "error_index ERR_INVALID_CID = 5"
| "error_index ERR_INVALID_MSG = 6"
| "error_index ERR_INVALID_PAYLOAD = 7"
| "error_index ERR_INVALID_MESSAGE = 8"
| "error_index ERR_INVALID_SYSCALL = 9"
| "error_index ERR_INVALID_PAGE_PAYLOAD = 10"
| "error_index ERR_NO_LONGER_LINKED = 11"
| "error_index ERR_CHANNEL_CLOSED = 12"
| "error_index ERR_UNEXPECTED_MESSAGE = 13"
| "error_index ERR_BAD_REQUEST = 14"
| "error_index ERR_NOT_FOUND = 15"
| "error_index ERR_NOT_ACCEPTABLE = 16"
| "error_index ERR_TOO_SHORT = 17"
| "error_index ERR_TOO_LARGE = 18"
| "error_index ERR_IM_A_TEAPOT = 19"
| "error_index ERR_ALREADY_RECEVING = 20"
| "error_index ERR_WOULD_BLOCK = 21"
| "error_index ERR_NEEDS_RETRY = 22"

text \<open>The value of an error code; a debug build starts the enumeration at 0x1a1a.\<close>

definition error_value :: "bool \<Rightarrow> error_t \<Rightarrow> int" where
  "error_value debug_build e = (if debug_build then 0x1a1a else 0) + int (error_index e)"

instantiation error_t :: linorder
begin

definition less_eq_error_t :: "error_t \<Rightarrow> error_t \<Rightarrow> bool" where
  "less_eq_error_t a b \<longleftrightarrow> error_index a \<le> error_index b"

definition less_error_t :: "error_t \<Rightarrow> error_t \<Rightarrow> bool" where
  "less_error_t a b \<longleftrightarrow> error_index a < error_index b"

instance
proof
  fix a b c :: error_t
  show "(a < b) = (a \<le> b \<and> \<not> b \<le> a)"
    by (auto simp: less_eq_error_t_def less_error_t_def)
  show "a \<le> a" by (simp add: less_eq_error_t_def)
  show "a \<le> b \<Longrightarrow> b \<le> c \<Longrightarrow> a \<le> c" by (simp add: less_eq_error_t_def)
  show "a \<le> b \<Longrightarrow> b \<le> a \<Longrightarrow> a = b"
    by (cases a; cases b; simp add: less_eq_error_t_def)
  show "a \<le> b \<or> b \<le> a" by (auto simp: less_eq_error_t_def)
qed

end

lemma error_index_inject: "error_index a = error_index b \<longleftrightarrow> a = b"
  by (metis dual_order.refl less_eq_error_t_def nle_le)

lemma error_index_bound: "error_index e \<le> 22"
  by (cases e) simp_all

section \<open>Macros of types.h\<close>

definition PAGE_SIZE :: nat where
  "PAGE_SIZE = 4096"

definition INVALID_POINTER :: addr where
  "INVALID_POINTER = 0xdeaddead"

definition ALIGN_DOWN :: "u64 \<Rightarrow> u64 \<Rightarrow> u64" where
  "ALIGN_DOWN value align = value AND NOT (align - 1)"

definition ALIGN_UP :: "u64 \<Rightarrow> u64 \<Rightarrow> u64" where
  "ALIGN_UP value align = ALIGN_DOWN (value + align - 1) align"

end
