(* ===== verification/Arena.thy ===== *)
theory Arena
  imports Prelude
begin

text \<open>
  The kernel memory pools of kernel/memory.c. An arena keeps a queue of free
  chunks; a chunk is the address of its first object and the number of free
  objects that follow contiguously (the \<open>free_list\<close> header lives in the chunk
  itself). The theory holds the pool interface, its interpretation on the arena,
  and the facts that no object is handed out twice and none is lost. DEBUG_BUILD
  is off: the shadow memory of the debug build is not part of this model.
\<close>

section \<open>The arena\<close>

record kmalloc_arena =
  free_list :: "(addr \<times> nat) list"
  object_size :: nat
  num_objects :: nat

definition OBJECT_ARENA_ADDR :: addr where "OBJECT_ARENA_ADDR = 0xffff800001000000"
definition OBJECT_ARENA_LEN :: nat where "OBJECT_ARENA_LEN = 0x400000"
definition PAGE_ARENA_ADDR :: addr where "PAGE_ARENA_ADDR = 0xffff800001400000"
definition PAGE_ARENA_LEN :: nat where "PAGE_ARENA_LEN = 0xc00000"
definition OBJ_MAX_SIZE :: nat where "OBJ_MAX_SIZE = 256"

text \<open>sizeof(struct free_list): two list pointers and a counter.\<close>

definition sizeof_free_list :: nat where "sizeof_free_list = 24"

definition add_free_list :: "kmalloc_arena \<Rightarrow> addr \<Rightarrow> nat \<Rightarrow> kmalloc_arena" where
  "add_free_list arena a n = arena\<lparr>free_list := free_list arena @ [(a, n)]\<rparr>"

definition arena_init :: "addr \<Rightarrow> nat \<Rightarrow> nat \<Rightarrow> kmalloc_arena res" where
  "arena_init a arena_size obj_size =
     rbind (require Assertion (arena_size > obj_size)) (\<lambda>_.
     rbind (require Assertion (arena_size > sizeof_free_list)) (\<lambda>_.
     rbind (require Fault (obj_size \<noteq> 0)) (\<lambda>_.
       let n = arena_size div obj_size in
       Inr (add_free_list \<lparr>free_list = [], object_size = obj_size, num_objects = n\<rparr> a n))))"

text \<open>
  The counter of a popped chunk is a size_t: decrementing zero would wrap around;
  \<open>arena_ok\<close> below rules it out.
\<close>

definition kmalloc_from :: "kmalloc_arena \<Rightarrow> (addr \<times> kmalloc_arena) res" where
  "kmalloc_from arena =
     (case free_list arena of
        [] \<Rightarrow> Inl Panic
      | (a, n) # rest \<Rightarrow>
          let n' = (if n = 0 then 2 ^ 64 - 1 else n - 1);
              fl = (if n' > 0 then rest @ [(a, n')] else rest)
          in Inr (a + of_nat (n' * object_size arena), arena\<lparr>free_list := fl\<rparr>))"

definition kfree :: "kmalloc_arena \<Rightarrow> addr \<Rightarrow> kmalloc_arena" where
  "kfree arena ptr = add_free_list arena ptr 1"

definition KMALLOC :: "kmalloc_arena \<Rightarrow> nat \<Rightarrow> (addr \<times> kmalloc_arena) res" where
  "KMALLOC arena sz =
     rbind (require Assertion (sz \<le> object_size arena)) (\<lambda>_. kmalloc_from arena)"

definition memory_init :: "(kmalloc_arena \<times> kmalloc_arena) res" where
  "memory_init =
     rbind (arena_init OBJECT_ARENA_ADDR OBJECT_ARENA_LEN OBJ_MAX_SIZE) (\<lambda>obj.
     rbind (arena_init PAGE_ARENA_ADDR PAGE_ARENA_LEN PAGE_SIZE) (\<lambda>pages. Inr (obj, pages)))"

section \<open>The pool interface\<close>

datatype 'p request = Alloc | Free 'p

text \<open>
  A client of a pool: it allocates and frees objects it holds; freeing an object
  that it does not hold is a client error.
\<close>

fun serve ::
  "('s \<Rightarrow> ('p \<times> 's) res) \<Rightarrow> ('s \<Rightarrow> 'p \<Rightarrow> 's) \<Rightarrow> 'p request list \<Rightarrow> 's \<times> 'p multiset \<Rightarrow> ('s \<times> 'p multiset) res"
where
  "serve alloc dealloc [] (s, held) = Inr (s, held)"
| "serve alloc dealloc (Alloc # rs) (s, held) =
     rbind (alloc s) (\<lambda>(p, s'). serve alloc dealloc rs (s', add_mset p held))"
| "serve alloc dealloc (Free p # rs) (s, held) =
     (if p \<in># held then serve alloc dealloc rs (dealloc s p, held - {#p#}) else Inl Fault)"

locale object_pool =
  fixes alloc :: "'s \<Rightarrow> ('p \<times> 's) res"
    and dealloc :: "'s \<Rightarrow> 'p \<Rightarrow> 's"
    and pool :: "'s \<Rightarrow> 'p multiset"
    and ok :: "'s \<Rightarrow> bool"
  assumes alloc_law: "ok s \<Longrightarrow> pool s \<noteq> {#} \<Longrightarrow>
      \<exists>p s'. alloc s = Inr (p, s') \<and> ok s' \<and> pool s = add_mset p (pool s')"
    and alloc_empty: "ok s \<Longrightarrow> pool s = {#} \<Longrightarrow> \<exists>e. alloc s = Inl e"
    and dealloc_law: "ok s \<Longrightarrow> ok (dealloc s p) \<and> pool (dealloc s p) = add_mset p (pool s)"
begin

lemma alloc_split:
  assumes "ok s" "alloc s = Inr (p, s')"
  shows "ok s'" "pool s = add_mset p (pool s')"
  using assms alloc_law[of s] alloc_empty[of s] by (cases "pool s = {#}"; auto)+

lemma serve_conserves:
  "serve alloc dealloc rs (s, held) = Inr (s', held') \<Longrightarrow> ok s \<Longrightarrow>
   ok s' \<and> pool s' + held' = pool s + held"
proof (induction rs arbitrary: s held)
  case (Cons r rs)
  show ?case
  proof (cases r)
    case Alloc
    with Cons.prems obtain p s1 where "alloc s = Inr (p, s1)"
      "serve alloc dealloc rs (s1, add_mset p held) = Inr (s', held')" by auto
    with Cons.IH alloc_split[OF Cons.prems(2)] show ?thesis by fastforce
  next
    case (Free p)
    with Cons.prems have "p \<in># held"
      "serve alloc dealloc rs (dealloc s p, held - {#p#}) = Inr (s', held')"
      by (auto split: if_splits)
    with Cons.IH dealloc_law[OF Cons.prems(2)] show ?thesis by fastforce
  qed
qed simp

lemma serve_no_overlap:
  assumes "serve alloc dealloc rs (s, {#}) = Inr (s', held')" "ok s" "\<And>p. count (pool s) p \<le> 1"
  shows "count held' p + count (pool s') p = count (pool s) p" "count held' p \<le> 1"
    "p \<in># held' \<Longrightarrow> p \<notin># pool s'"
proof -
  show eq: "count held' p + count (pool s') p = count (pool s) p"
    using serve_conserves[OF assms(1,2)] by (metis add.commute add.right_neutral count_union)
  then show "count held' p \<le> 1" using assms(3)[of p] by simp
  show "p \<notin># pool s'" if "p \<in># held'"
    using eq assms(3)[of p] that count_greater_zero_iff[of held' p] not_in_iff[of p "pool s'"]
    by linarith
qed

lemma serve_allocs:
  "ok s \<Longrightarrow> k \<le> size (pool s) \<Longrightarrow> \<exists>s' held'. serve alloc dealloc (replicate k Alloc) (s, held) = Inr (s', held')"
proof (induction k arbitrary: s held)
  case (Suc k)
  then obtain p s1 where "alloc s = Inr (p, s1)" "ok s1" "pool s = add_mset p (pool s1)"
    using alloc_law[of s] by fastforce
  with Suc.IH[of s1] Suc.prems show ?case by auto
qed simp

end

section \<open>The arena as a pool\<close>

text \<open>The objects of a chunk and of an arena.\<close>

definition chunk_objs :: "nat \<Rightarrow> addr \<times> nat \<Rightarrow> addr list" where
  "chunk_objs sz c = map (\<lambda>i. fst c + of_nat (i * sz)) [0..<snd c]"

definition free_objs :: "kmalloc_arena \<Rightarrow> addr multiset" where
  "free_objs arena = mset (concat (map (chunk_objs (object_size arena)) (free_list arena)))"

definition arena_ok :: "kmalloc_arena \<Rightarrow> bool" where
  "arena_ok arena \<longleftrightarrow> (\<forall>c \<in> set (free_list arena). 1 \<le> snd c)"

lemma chunk_objs_Suc:
  "chunk_objs sz (a, Suc n) = chunk_objs sz (a, n) @ [a + of_nat (n * sz)]"
  by (simp add: chunk_objs_def)

lemma free_objs_add_free_list:
  "free_objs (add_free_list arena a n) = free_objs arena + mset (chunk_objs (object_size arena) (a, n))"
  by (simp add: free_objs_def add_free_list_def)

lemma free_objs_empty_iff:
  "arena_ok arena \<Longrightarrow> free_objs arena = {#} \<longleftrightarrow> free_list arena = []"
  unfolding free_objs_def mset_zero_iff
  by (cases "free_list arena") (auto simp: arena_ok_def chunk_objs_def)

lemma kmalloc_from_pool:
  assumes "arena_ok arena" "free_list arena = (a, n) # rest"
  shows "\<exists>p arena'. kmalloc_from arena = Inr (p, arena') \<and> arena_ok arena'
     \<and> free_objs arena = add_mset p (free_objs arena')
     \<and> object_size arena' = object_size arena \<and> num_objects arena' = num_objects arena"
proof -
  obtain k where "n = Suc k" using assms by (cases n) (auto simp: arena_ok_def)
  then show ?thesis using assms
    by (cases "k = 0")
       (auto simp: kmalloc_from_def arena_ok_def free_objs_def chunk_objs_Suc,
        auto simp: chunk_objs_def)
qed

lemma kfree_pool:
  "arena_ok arena \<Longrightarrow> arena_ok (kfree arena p) \<and> free_objs (kfree arena p) = add_mset p (free_objs arena)"
  by (simp add: kfree_def free_objs_add_free_list chunk_objs_def)
     (auto simp: arena_ok_def add_free_list_def)

interpretation arena: object_pool kmalloc_from kfree free_objs arena_ok
proof unfold_locales
  fix s assume s: "arena_ok s"
  show "\<exists>p s'. kmalloc_from s = Inr (p, s') \<and> arena_ok s' \<and> free_objs s = add_mset p (free_objs s')"
    if ne: "free_objs s \<noteq> {#}"
  proof -
    obtain a n rest where "free_list s = (a, n) # rest"
      using s ne free_objs_empty_iff[OF s] by (cases "free_list s") auto
    from kmalloc_from_pool[OF s this] show ?thesis by blast
  qed
  show "\<exists>e. kmalloc_from s = Inl e" if "free_objs s = {#}"
    using that free_objs_empty_iff[OF s] by (simp add: kmalloc_from_def)
  show "arena_ok (kfree s p) \<and> free_objs (kfree s p) = add_mset p (free_objs s)" for p
    using s by (rule kfree_pool)
qed

lemma chunk_objs_distinct:
  assumes "0 < sz" "n * sz \<le> 2 ^ 64"
  shows "distinct (chunk_objs sz (a, n))"
proof -
  have "inj_on (\<lambda>i. a + of_nat (i * sz)) {0..<n}"
  proof (rule inj_onI)
    fix i j assume ij: "i \<in> {0..<n}" "j \<in> {0..<n}" "a + of_nat (i * sz) = a + of_nat (j * sz)"
    have "i * sz < 2 ^ 64" "j * sz < 2 ^ 64"
      using ij assms by (auto intro: less_le_trans[OF mult_strict_right_mono])
    then have "i * sz = j * sz"
      using ij(3) by (simp add: word_of_nat_eq_iff take_bit_nat_eq_self del: of_nat_mult)
    then show "i = j" using assms(1) by simp
  qed
  then show ?thesis by (simp add: chunk_objs_def distinct_map)
qed

lemma arena_init_pool:
  assumes "arena_init a len sz = Inr arena"
  shows "arena_ok arena" "free_objs arena = mset (chunk_objs sz (a, len div sz))"
    "0 < sz" "object_size arena = sz" "num_objects arena = len div sz"
  using assms
  by (auto simp: arena_init_def Let_def arena_ok_def add_free_list_def free_objs_def div_greater_zero_iff Suc_le_eq)

section \<open>Properties\<close>

lemma chunk_objs_mem: "p \<in> set (chunk_objs sz (a, n)) \<longleftrightarrow> (\<exists>i < n. p = a + of_nat (i * sz))"
  by (auto simp: chunk_objs_def)

lemma chunk_objs_range:
  assumes "unat a + n * sz \<le> 2 ^ 64" "q \<in> set (chunk_objs sz (a, n))" "0 < sz"
  shows "unat a \<le> unat q \<and> unat q + sz \<le> unat a + n * sz"
proof -
  obtain i where i: "i < n" "q = a + of_nat (i * sz)" using assms(2) by (auto simp: chunk_objs_mem)
  have le: "i * sz + sz \<le> n * sz" using i(1) by (metis add.commute mult_Suc mult_le_mono1 Suc_leI)
  have lt: "unat a + i * sz < 2 ^ 64" using assms(1,3) le by linarith
  then have "unat (of_nat (i * sz) :: addr) = i * sz" by (simp add: unat_of_nat take_bit_nat_eq_self del: of_nat_mult)
  then have "unat q = unat a + i * sz" using lt i(2) by (simp add: unat_plus_simple[THEN iffD1] unat_word_ariths del: of_nat_mult)
  then show ?thesis using le by linarith
qed

lemma count_mset_distinct: "distinct xs \<Longrightarrow> count (mset xs) x \<le> 1"
  by (simp add: distinct_count_atmost_1)



text \<open>
  C18: the boot-time memory of the kernel. memory_init succeeds and gives 16384 objects of
  256 bytes and 3072 pages; all objects of both arenas are different and none of them
  is the null pointer; and each arena serves any number of allocations up to its size
  without failing.
\<close>

theorem memory_init_pools:
  "\<exists>obj pages. memory_init = Inr (obj, pages)
     \<and> size (free_objs obj) = 16384 \<and> size (free_objs pages) = 3072
     \<and> (\<forall>p. count (free_objs obj + free_objs pages) p \<le> 1) \<and> 0 \<notin># free_objs obj + free_objs pages
     \<and> (\<forall>n \<le> 16384. \<exists>s. serve kmalloc_from kfree (replicate n Alloc) (obj, {#}) = Inr s)
     \<and> (\<forall>n \<le> 3072. \<exists>s. serve kmalloc_from kfree (replicate n Alloc) (pages, {#}) = Inr s)"
proof -
  obtain obj where o: "arena_init OBJECT_ARENA_ADDR OBJECT_ARENA_LEN OBJ_MAX_SIZE = Inr obj"
    by (simp add: arena_init_def OBJECT_ARENA_LEN_def OBJ_MAX_SIZE_def sizeof_free_list_def Let_def)
  obtain pages where p: "arena_init PAGE_ARENA_ADDR PAGE_ARENA_LEN PAGE_SIZE = Inr pages"
    by (simp add: arena_init_def PAGE_ARENA_LEN_def PAGE_SIZE_def sizeof_free_list_def Let_def)
  note oi = arena_init_pool[OF o] and pi = arena_init_pool[OF p]
  have fo: "free_objs obj = mset (chunk_objs 256 (0xffff800001000000, 16384))"
    using oi(2) by (simp add: OBJECT_ARENA_LEN_def OBJ_MAX_SIZE_def OBJECT_ARENA_ADDR_def)
  have fp: "free_objs pages = mset (chunk_objs 4096 (0xffff800001400000, 3072))"
    using pi(2) by (simp add: PAGE_ARENA_LEN_def PAGE_SIZE_def PAGE_ARENA_ADDR_def)
  have d: "distinct (chunk_objs 256 (0xffff800001000000, 16384))" "distinct (chunk_objs 4096 (0xffff800001400000, 3072))"
    by (rule chunk_objs_distinct; simp)+
  have u1: "0xffff800001000000 \<le> unat q \<and> unat q < 0xffff800001400000" if "q \<in> set (chunk_objs 256 (0xffff800001000000, 16384))" for q
    using that chunk_objs_range[of "0xffff800001000000" 16384 256 q] by simp
  have u2: "0xffff800001400000 \<le> unat q" if "q \<in> set (chunk_objs 4096 (0xffff800001400000, 3072))" for q
    using that chunk_objs_range[of "0xffff800001400000" 3072 4096 q] by simp
  have dis: "set (chunk_objs 256 (0xffff800001000000, 16384)) \<inter> set (chunk_objs 4096 (0xffff800001400000, 3072)) = {}"
    using u1 u2 by fastforce
  have c: "count (free_objs obj + free_objs pages) q \<le> 1" for q
    using count_mset_distinct[of "chunk_objs 256 (0xffff800001000000, 16384) @ chunk_objs 4096 (0xffff800001400000, 3072)" q]
      d dis by (simp add: fo fp)
  have z: "0 \<notin># free_objs obj + free_objs pages" using u1[of 0] u2[of 0] by (auto simp: fo fp)
  have s: "size (free_objs obj) = 16384" "size (free_objs pages) = 3072" by (simp_all add: fo fp chunk_objs_def)
  have "memory_init = Inr (obj, pages)" by (simp add: memory_init_def o p)
  then show ?thesis using c z s arena.serve_allocs[OF oi(1)] arena.serve_allocs[OF pi(1)] by (metis surj_pair)
qed

theorem memory_init_pools_witness:
  "\<exists>obj pages s. memory_init = Inr (obj, pages) \<and> serve kmalloc_from kfree (replicate 3000 Alloc) (pages, {#}) = Inr s"
proof -
  have "(3000 :: nat) \<le> 3072" by simp
  with memory_init_pools show ?thesis by blast
qed

end
