(* ===== verification/Table.thy ===== *)
theory Table
  imports Arena
begin

text \<open>
  The ID tables of kernel/include/table.h: an array of slots, each null, reserved
  or holding a value. Slot accesses outside the array are faults; the checks the
  source makes (and those it does not make) are the ones of the model.
\<close>

section \<open>Operations\<close>

datatype 'a slot = NullSlot | RESERVED | Entry 'a

record 'a table =
  entries_addr :: addr
  entries :: "'a slot list"
  num_entries :: int

definition ID_START :: int where "ID_START = 1"

definition slot_at :: "'a table \<Rightarrow> int \<Rightarrow> 'a slot res" where
  "slot_at t i = (if 0 \<le> i \<and> i < int (length (entries t)) then Inr (entries t ! nat i) else Inl Fault)"

definition store_slot :: "'a table \<Rightarrow> int \<Rightarrow> 'a slot \<Rightarrow> 'a table res" where
  "store_slot t i v =
     (if 0 \<le> i \<and> i < int (length (entries t)) then Inr (t\<lparr>entries := (entries t)[nat i := v]\<rparr>) else Inl Fault)"

definition table_init :: "kmalloc_arena \<Rightarrow> ('a table \<times> kmalloc_arena) res" where
  "table_init page_arena =
     rbind (KMALLOC page_arena PAGE_SIZE) (\<lambda>(a, page_arena).
       let num = PAGE_SIZE div 8 in
       Inr (\<lparr>entries_addr = a, entries = replicate num NullSlot, num_entries = int num\<rparr>, page_arena))"

definition table_destroy :: "'a table \<Rightarrow> kmalloc_arena \<Rightarrow> kmalloc_arena" where
  "table_destroy t page_arena = kfree page_arena (entries_addr t)"

text \<open>The loop of \<open>table_alloc\<close> from index \<open>i\<close> on; 0 stands for a full table.\<close>

function table_alloc_from :: "'a table \<Rightarrow> int \<Rightarrow> (int \<times> 'a table) res" where
  "table_alloc_from t i =
     (if i < num_entries t then
        rbind (slot_at t i) (\<lambda>v.
          case v of
            NullSlot \<Rightarrow> rbind (store_slot t i RESERVED) (\<lambda>t. Inr (i, t))
          | _ \<Rightarrow> table_alloc_from t (i + 1))
      else Inr (0, t))"
  by pat_completeness auto
termination by (relation "measure (\<lambda>(t, i). nat (num_entries t - i))") auto

definition table_alloc :: "'a table \<Rightarrow> (int \<times> 'a table) res" where
  "table_alloc t = table_alloc_from t ID_START"

definition table_free :: "'a table \<Rightarrow> int \<Rightarrow> 'a table res" where
  "table_free t i = store_slot t i NullSlot"

definition table_set :: "'a table \<Rightarrow> int \<Rightarrow> 'a \<Rightarrow> 'a table res" where
  "table_set t i v =
     rbind (slot_at t i) (\<lambda>old.
     rbind (require Bug (case old of RESERVED \<Rightarrow> True | _ \<Rightarrow> False)) (\<lambda>_.
     rbind (require Bug (\<not> (i = 0 \<or> i \<ge> num_entries t))) (\<lambda>_.
     store_slot t i (Entry v))))"

text \<open>There is no lower bound check: a negative id reads in front of the array.\<close>

definition table_get :: "'a table \<Rightarrow> int \<Rightarrow> 'a slot res" where
  "table_get t i = (if i \<ge> num_entries t then Inr NullSlot else slot_at t i)"

section \<open>Well-formed tables\<close>

definition table_wf :: "'a table \<Rightarrow> bool" where
  "table_wf t \<longleftrightarrow> num_entries t = int (length (entries t)) \<and> entries t \<noteq> [] \<and> entries t ! 0 = NullSlot"

definition lookup :: "'a table \<Rightarrow> int \<Rightarrow> 'a option" where
  "lookup t i = (case table_get t i of Inr (Entry v) \<Rightarrow> Some v | _ \<Rightarrow> None)"

definition used :: "'a table \<Rightarrow> int set" where
  "used t = {i. 0 \<le> i \<and> i < num_entries t \<and> entries t ! nat i \<noteq> NullSlot}"

declare table_alloc_from.simps [simp del]

lemma table_init_wf:
  "table_init ar = Inr (t, ar') \<Longrightarrow> table_wf t \<and> used t = {} \<and> num_entries t = 512"
  by (auto simp: table_init_def table_wf_def used_def PAGE_SIZE_def Let_def nth_append)

lemma table_alloc_from_free:
  assumes "table_wf t" "0 \<le> i" "i \<le> j" "j < num_entries t" "entries t ! nat j = NullSlot"
    "\<And>k. i \<le> k \<Longrightarrow> k < j \<Longrightarrow> entries t ! nat k \<noteq> NullSlot"
  shows "table_alloc_from t i = Inr (j, t\<lparr>entries := (entries t)[nat j := RESERVED]\<rparr>)"
  using assms
proof (induction t i rule: table_alloc_from.induct)
  case (1 t i)
  show ?case
  proof (cases "i = j")
    case True
    then show ?thesis using 1(2-)
      by (subst table_alloc_from.simps) (auto simp: slot_at_def store_slot_def table_wf_def)
  next
    case False
    then have ne: "entries t ! nat i \<noteq> NullSlot" "i < j" using 1 by auto
    have sl: "slot_at t i = Inr (entries t ! nat i)"
      using 1 ne by (auto simp: slot_at_def table_wf_def)
    have "table_alloc_from t (i + 1) = Inr (j, t\<lparr>entries := (entries t)[nat j := RESERVED]\<rparr>)"
      using ne 1(3-) by (cases "entries t ! nat i"; intro 1(1,2)[OF _ sl]) auto
    then show ?thesis using ne sl 1(2-)
      by (subst table_alloc_from.simps) (auto split: slot.splits)
  qed
qed

lemma table_alloc_from_full:
  assumes "table_wf t" "0 \<le> i" "\<And>k. i \<le> k \<Longrightarrow> k < num_entries t \<Longrightarrow> entries t ! nat k \<noteq> NullSlot"
  shows "table_alloc_from t i = Inr (0, t)"
  using assms
proof (induction t i rule: table_alloc_from.induct)
  case (1 t i)
  show ?case
  proof (cases "i < num_entries t")
    case True
    then have sl: "slot_at t i = Inr (entries t ! nat i)" "entries t ! nat i \<noteq> NullSlot"
      using 1(3-) by (auto simp: slot_at_def table_wf_def)
    have "table_alloc_from t (i + 1) = Inr (0, t)"
      using 1(3-) sl True by (cases "entries t ! nat i"; intro 1(1,2)[OF True sl(1)]) auto
    then show ?thesis using sl by (subst table_alloc_from.simps) (auto split: slot.splits)
  qed (subst table_alloc_from.simps, simp)
qed
lemma table_alloc_cases:
  assumes "table_wf t"
  obtains (found) j where "table_alloc t = Inr (j, t\<lparr>entries := (entries t)[nat j := RESERVED]\<rparr>)"
      "1 \<le> j" "j < num_entries t" "entries t ! nat j = NullSlot"
      "\<And>k. 1 \<le> k \<Longrightarrow> k < j \<Longrightarrow> entries t ! nat k \<noteq> NullSlot"
  | (full) "table_alloc t = Inr (0, t)" "{1..<num_entries t} \<subseteq> used t"
proof (cases "\<exists>n. 1 \<le> n \<and> n < length (entries t) \<and> entries t ! n = NullSlot")
  case True
  define n where "n = (LEAST n. 1 \<le> n \<and> n < length (entries t) \<and> entries t ! n = NullSlot)"
  have n: "1 \<le> n" "n < length (entries t)" "entries t ! n = NullSlot"
    using LeastI_ex[OF True] unfolding n_def by auto
  have least: "entries t ! nat k \<noteq> NullSlot" if "1 \<le> k" "k < int n" for k
    using not_less_Least[of "nat k" "\<lambda>n. 1 \<le> n \<and> n < length (entries t) \<and> entries t ! n = NullSlot",
        folded n_def] that n
    by auto
  have run: "table_alloc t = Inr (int n, t\<lparr>entries := (entries t)[nat (int n) := RESERVED]\<rparr>)"
    unfolding table_alloc_def ID_START_def
    by (rule table_alloc_from_free) (use assms n least in \<open>auto simp: table_wf_def\<close>)
  show thesis by (rule found[OF run]) (use n assms least in \<open>auto simp: table_wf_def\<close>)
next
  case False
  then have ne: "entries t ! nat k \<noteq> NullSlot" if "1 \<le> k" "k < num_entries t" for k
    using that assms by (auto simp: table_wf_def)
  have "table_alloc t = Inr (0, t)"
    unfolding table_alloc_def ID_START_def by (rule table_alloc_from_full) (use assms ne in auto)
  moreover have "{1..<num_entries t} \<subseteq> used t" using ne by (auto simp: used_def)
  ultimately show thesis by (rule full)
qed

lemma used_bounds: "table_wf t \<Longrightarrow> used t \<subseteq> {1..<num_entries t}"
  by (auto simp: used_def table_wf_def) (metis linorder_not_le nat_0_iff order_antisym_conv zless_imp_add1_zle add_0)

lemma lookup_wf:
  "table_wf t \<Longrightarrow> lookup t i =
     (if 0 \<le> i \<and> i < num_entries t then case entries t ! nat i of Entry v \<Rightarrow> Some v | _ \<Rightarrow> None else None)"
  by (auto simp: lookup_def table_get_def slot_at_def table_wf_def split: slot.splits)

text \<open>One update of a slot other than slot 0.\<close>

lemma slot_update:
  fixes t :: "'a table" and v :: "'a slot"
  assumes "table_wf t" "1 \<le> j" "j < num_entries t"
  defines "t' \<equiv> t\<lparr>entries := (entries t)[nat j := v]\<rparr>"
  shows "store_slot t j v = Inr t'" "table_wf t'" "num_entries t' = num_entries t"
    "used t' = (if v = NullSlot then used t - {j} else insert j (used t))"
    "lookup t' = (lookup t)(j := (case v of Entry x \<Rightarrow> Some x | _ \<Rightarrow> None))"
proof -
  show wf: "table_wf t'" using assms by (auto simp: table_wf_def nth_list_update)
  show "store_slot t j v = Inr t'" using assms by (auto simp: store_slot_def table_wf_def)
  show num: "num_entries t' = num_entries t" by (simp add: t'_def)
  have nth: "entries t' ! nat i = (if i = j then v else entries t ! nat i)" if "0 \<le> i" "i < num_entries t" for i
    using that assms by (auto simp: t'_def nth_list_update table_wf_def)
  show "used t' = (if v = NullSlot then used t - {j} else insert j (used t))"
    using assms(2,3) num nth by (auto simp: used_def split: if_splits)
  show "lookup t' = (lookup t)(j := (case v of Entry x \<Rightarrow> Some x | _ \<Rightarrow> None))"
    using assms(2,3) by (auto simp: fun_eq_iff lookup_wf[OF wf] lookup_wf[OF assms(1)] num nth)
qed

lemma table_set_reserved:
  assumes "table_wf t" "1 \<le> j" "j < num_entries t" "entries t ! nat j = RESERVED"
  shows "table_set t j v = Inr (t\<lparr>entries := (entries t)[nat j := Entry v]\<rparr>)"
  using assms by (auto simp: table_set_def slot_at_def store_slot_def table_wf_def)

section \<open>The interface of an ID allocator\<close>

fun register_all :: "('t \<Rightarrow> (int \<times> 't) res) \<Rightarrow> ('t \<Rightarrow> int \<Rightarrow> 'v \<Rightarrow> 't res) \<Rightarrow> 't \<Rightarrow> 'v list \<Rightarrow> (int list \<times> 't) res" where
  "register_all alloc put t [] = Inr ([], t)"
| "register_all alloc put t (v # vs) =
     rbind (alloc t) (\<lambda>(i, t).
     rbind (put t i v) (\<lambda>t.
     rbind (register_all alloc put t vs) (\<lambda>(is, t). Inr (i # is, t))))"

locale id_allocator =
  fixes alloc :: "'t \<Rightarrow> (int \<times> 't) res"
    and set_value :: "'t \<Rightarrow> int \<Rightarrow> 'v \<Rightarrow> 't res"
    and release :: "'t \<Rightarrow> int \<Rightarrow> 't res"
    and find :: "'t \<Rightarrow> int \<Rightarrow> 'v option"
    and in_use :: "'t \<Rightarrow> int set"
    and reserved :: "'t \<Rightarrow> int \<Rightarrow> bool"
    and cap :: "'t \<Rightarrow> int"
    and wf :: "'t \<Rightarrow> bool"
  assumes in_use_bounds: "wf t \<Longrightarrow> in_use t \<subseteq> {1..<cap t}"
    and find_in_use: "wf t \<Longrightarrow> dom (find t) \<subseteq> in_use t"
    and alloc_law: "wf t \<Longrightarrow> \<not> {1..<cap t} \<subseteq> in_use t \<Longrightarrow>
      \<exists>i t'. alloc t = Inr (i, t') \<and> i \<notin> in_use t \<and> wf t' \<and> in_use t' = insert i (in_use t)
        \<and> reserved t' i \<and> find t' = find t \<and> cap t' = cap t"
    and alloc_full: "wf t \<Longrightarrow> {1..<cap t} \<subseteq> in_use t \<Longrightarrow> alloc t = Inr (0, t)"
    and set_law: "wf t \<Longrightarrow> reserved t i \<Longrightarrow>
      \<exists>t'. set_value t i v = Inr t' \<and> wf t' \<and> in_use t' = in_use t \<and> find t' = (find t)(i \<mapsto> v) \<and> cap t' = cap t"
    and release_law: "wf t \<Longrightarrow> i \<in> in_use t \<Longrightarrow>
      \<exists>t'. release t i = Inr t' \<and> wf t' \<and> in_use t' = in_use t - {i} \<and> find t' = (find t)(i := None) \<and> cap t' = cap t"
begin

lemma room_iff:
  assumes "wf t"
  shows "{1..<cap t} \<subseteq> in_use t \<longleftrightarrow> nat (cap t - 1) \<le> card (in_use t)"
proof -
  have "finite {1..<cap t}" "card {1..<cap t} = nat (cap t - 1)" by auto
  then show ?thesis
    using in_use_bounds[OF assms] card_seteq[of "{1..<cap t}" "in_use t"]
    by (metis order.refl order_antisym)
qed

lemma register_all_ok:
  "wf t \<Longrightarrow> card (in_use t) + length vs \<le> nat (cap t - 1) \<Longrightarrow>
   \<exists>is t'. register_all alloc set_value t vs = Inr (is, t') \<and> wf t' \<and> cap t' = cap t
     \<and> length is = length vs \<and> distinct is \<and> set is \<inter> in_use t = {} \<and> set is \<subseteq> {1..<cap t}
     \<and> in_use t' = set is \<union> in_use t \<and> (\<forall>k < length vs. find t' (is ! k) = Some (vs ! k))
     \<and> (\<forall>i. i \<notin> set is \<longrightarrow> find t' i = find t i)"
proof (induction vs arbitrary: t)
  case Nil
  then show ?case by auto
next
  case (Cons v vs)
  obtain i t1 where a: "alloc t = Inr (i, t1)" "i \<notin> in_use t" "wf t1" "in_use t1 = insert i (in_use t)"
    "reserved t1 i" "find t1 = find t" "cap t1 = cap t"
    using alloc_law[OF Cons.prems(1)] room_iff[OF Cons.prems(1)] Cons.prems(2) by fastforce
  obtain t2 where s: "set_value t1 i v = Inr t2" "wf t2" "in_use t2 = insert i (in_use t)"
    "find t2 = (find t)(i \<mapsto> v)" "cap t2 = cap t"
    using set_law[OF a(3,5), of v] a by auto
  have fin: "finite (in_use t)" by (rule finite_subset[OF in_use_bounds[OF Cons.prems(1)]]) simp
  have "card (in_use t2) + length vs \<le> nat (cap t2 - 1)"
    using Cons.prems(2) a(2) s(3,5) fin by simp
  from Cons.IH[OF s(2) this] obtain js t3 where j:
    "register_all alloc set_value t2 vs = Inr (js, t3)" "wf t3" "cap t3 = cap t" "length js = length vs"
    "distinct js" "set js \<inter> in_use t2 = {}" "set js \<subseteq> {1..<cap t}" "in_use t3 = set js \<union> in_use t2"
    "\<forall>k < length vs. find t3 (js ! k) = Some (vs ! k)" "\<forall>i. i \<notin> set js \<longrightarrow> find t3 i = find t2 i"
    using s(5) by auto
  have "i \<in> {1..<cap t}" using in_use_bounds[OF s(2)] s(3,5) by auto
  then show ?case using a s j by (auto simp: nth_Cons' less_Suc_eq_0_disj)
qed

end

definition table_reserved :: "'a table \<Rightarrow> int \<Rightarrow> bool" where
  "table_reserved t i \<longleftrightarrow> 1 \<le> i \<and> i < num_entries t \<and> entries t ! nat i = RESERVED"

interpretation table: id_allocator table_alloc table_set table_free lookup used table_reserved num_entries table_wf
proof unfold_locales
  fix t :: "'a table" assume wf: "table_wf t"
  show "used t \<subseteq> {1..<num_entries t}" by (rule used_bounds[OF wf])
  show "dom (lookup t) \<subseteq> used t"
    using wf by (auto simp: lookup_wf used_def split: slot.splits if_splits)
  show "\<exists>i t'. table_alloc t = Inr (i, t') \<and> i \<notin> used t \<and> table_wf t' \<and> used t' = insert i (used t)
      \<and> table_reserved t' i \<and> lookup t' = lookup t \<and> num_entries t' = num_entries t"
    if "\<not> {1..<num_entries t} \<subseteq> used t"
  using wf proof (cases rule: table_alloc_cases)
    case (found j)
    note u = slot_update[OF wf found(2,3), of RESERVED]
    have "lookup t j = None" using found wf by (simp add: lookup_wf)
    then show ?thesis using found(1-4) u wf
      by (auto simp: used_def table_reserved_def table_wf_def fun_upd_idem)
  qed (use that in simp)
  show "table_alloc t = Inr (0, t)" if "{1..<num_entries t} \<subseteq> used t"
  using wf proof (cases rule: table_alloc_cases)
    case (found j)
    then have "j \<in> used t" using that by auto
    then show ?thesis using found by (simp add: used_def)
  qed
  show "\<exists>t'. table_set t i v = Inr t' \<and> table_wf t' \<and> used t' = used t \<and> lookup t' = (lookup t)(i \<mapsto> v)
      \<and> num_entries t' = num_entries t" if r: "table_reserved t i" for i v
  proof -
    have i: "1 \<le> i" "i < num_entries t" "entries t ! nat i = RESERVED" using r by (auto simp: table_reserved_def)
    then have "i \<in> used t" by (simp add: used_def)
    then show ?thesis using slot_update[OF wf i(1,2), of "Entry v"] table_set_reserved[OF wf i, of v]
      by (auto simp: insert_absorb)
  qed
  show "\<exists>t'. table_free t i = Inr t' \<and> table_wf t' \<and> used t' = used t - {i} \<and> lookup t' = (lookup t)(i := None)
      \<and> num_entries t' = num_entries t" if "i \<in> used t" for i
    using slot_update[OF wf, of i NullSlot] used_bounds[OF wf] that by (auto simp: table_free_def)
qed

section \<open>Properties\<close>

lemma table_get_lookup: "lookup t i = Some v \<longleftrightarrow> table_get t i = Inr (Entry v)"
  by (auto simp: lookup_def split: sum.splits slot.splits)

text \<open>
  C12: id tables. A new table takes up to 511 objects: each registration (table_alloc,
  then table_set) succeeds, the ids are pairwise different and in 1..511, and table_get
  finds every object under its id afterwards. When 511 objects are registered,
  table_alloc answers 0 and changes nothing. Freeing an id removes this entry only.
\<close>

theorem table_registration:
  assumes "table_init arena = Inr (t, arena')" "length vs \<le> 511"
  shows "\<exists>ids t'. register_all table_alloc table_set t vs = Inr (ids, t') \<and> length ids = length vs
    \<and> distinct ids \<and> set ids \<subseteq> {1..<512}
    \<and> (\<forall>n < length vs. table_get t' (ids ! n) = Inr (Entry (vs ! n)))
    \<and> (length vs = 511 \<longrightarrow> table_alloc t' = Inr (0, t'))
    \<and> (\<forall>i \<in> set ids. \<exists>t''. table_free t' i = Inr t'' \<and> lookup t'' = (lookup t')(i := None))"
proof -
  have wf: "table_wf t" "used t = {}" "num_entries t = 512" using table_init_wf[OF assms(1)] by auto
  obtain ids t' where r: "register_all table_alloc table_set t vs = Inr (ids, t')" "table_wf t'"
    "num_entries t' = 512" "length ids = length vs" "distinct ids" "set ids \<subseteq> {1..<512}"
    "used t' = set ids" "\<forall>n < length vs. lookup t' (ids ! n) = Some (vs ! n)"
    using table.register_all_ok[OF wf(1), of vs] wf assms(2) by auto
  have "table_alloc t' = Inr (0, t')" if "length vs = 511"
    using table.alloc_full[OF r(2)] table.room_iff[OF r(2)] that r by (simp add: distinct_card)
  moreover have "\<exists>t''. table_free t' i = Inr t'' \<and> lookup t'' = (lookup t')(i := None)" if "i \<in> set ids" for i
    using table.release_law[OF r(2), of i] that r(7) by blast
  ultimately show ?thesis using r by (auto simp: table_get_lookup)
qed

theorem table_registration_witness:
  "\<exists>(t :: nat table) arena' ids t'. table_init \<lparr>free_list = [(0x1000, 1)], object_size = 4096, num_objects = 1\<rparr> = Inr (t, arena')
     \<and> register_all table_alloc table_set t [7, 8, 9] = Inr (ids, t') \<and> distinct ids
     \<and> table_get t' (ids ! 1) = Inr (Entry 8)"
proof -
  let ?ar = "\<lparr>free_list = [(0x1000, 1)], object_size = 4096, num_objects = 1\<rparr>"
  obtain t :: "nat table" and arena' where t: "table_init ?ar = Inr (t, arena')"
    by (simp add: table_init_def KMALLOC_def kmalloc_from_def PAGE_SIZE_def Let_def)
  have "length [7 :: nat, 8, 9] \<le> 511" by simp
  from table_registration[OF t this] obtain ids t' where
    r: "register_all table_alloc table_set t [7, 8, 9] = Inr (ids, t')" "distinct ids"
      "\<forall>n < 3. table_get t' (ids ! n) = Inr (Entry ([7, 8, 9] ! n))" by auto
  then have "table_get t' (ids ! 1) = Inr (Entry 8)" by (metis One_nat_def nth_Cons_0 nth_Cons_Suc one_less_numeral_iff semiring_norm(77))
  then show ?thesis using t r(1,2) by blast
qed

end
