(* ===== verification/Paging.thy ===== *)
theory Paging
  imports Arena
begin

text \<open>
  The x64 page tables of kernel/arch/x64/paging.c on an explicit physical memory
  of 64-bit words. Table pages come from the page arena. The outer loop of
  \<open>link_page\<close> restarts with the full page count, so it is bounded by fuel here;
  running out of fuel stands for not returning.
\<close>

type_synonym pmem = "addr \<Rightarrow> u64"

definition KERNEL_BASE_ADDR :: addr where "KERNEL_BASE_ADDR = 0xffff800000000000"
definition KERNEL_PML4_PADDR :: addr where "KERNEL_PML4_PADDR = 0x00700000"
definition PAGE_ENTRY_NUM :: int where "PAGE_ENTRY_NUM = 512"
definition PAGE_PRESENT :: u64 where "PAGE_PRESENT = 1"
definition PAGE_WRITABLE :: u64 where "PAGE_WRITABLE = 2"
definition PAGE_USER :: u64 where "PAGE_USER = 4"

definition from_paddr :: "addr \<Rightarrow> addr" where "from_paddr a = a + KERNEL_BASE_ADDR"
definition into_paddr :: "addr \<Rightarrow> addr" where "into_paddr a = a - KERNEL_BASE_ADDR"

definition NTH_LEVEL_INDEX :: "nat \<Rightarrow> addr \<Rightarrow> int" where
  "NTH_LEVEL_INDEX level vaddr = uint (drop_bit ((level - 1) * 9 + 12) vaddr AND 0x1ff)"

definition ENTRY_PADDR :: "u64 \<Rightarrow> addr" where
  "ENTRY_PADDR entry = entry AND 0x7ffffffffffff000"

text \<open>The physical address of an entry of the table at physical address \<open>table\<close>.\<close>

definition entry_at :: "addr \<Rightarrow> int \<Rightarrow> addr" where
  "entry_at table index = table + word_of_int (8 * index)"

definition page_words :: "addr \<Rightarrow> addr list" where
  "page_words p = map (entry_at p) [0..511]"

definition zero_page :: "addr \<Rightarrow> pmem \<Rightarrow> pmem" where
  "zero_page p mem = (\<lambda>a. if a \<in> set (page_words p) then 0 else mem a)"

definition copy_page :: "addr \<Rightarrow> addr \<Rightarrow> pmem \<Rightarrow> pmem" where
  "copy_page dst src mem = (\<lambda>a. if a \<in> set (page_words dst) then mem (src + (a - dst)) else mem a)"

definition page_table_init :: "pmem \<times> kmalloc_arena \<Rightarrow> (addr \<times> pmem \<times> kmalloc_arena) res" where
  "page_table_init s =
     rbind (KMALLOC (snd s) PAGE_SIZE) (\<lambda>(page, arena).
       let pml4 = into_paddr page;
           mem = (copy_page pml4 KERNEL_PML4_PADDR (fst s))(entry_at pml4 0 := 0)
       in Inr (pml4, mem, arena))"

text \<open>One level of the walk in \<open>link_page\<close>: allocate the next table if the entry is empty.\<close>

definition link_level :: "u64 \<Rightarrow> addr \<Rightarrow> nat \<Rightarrow> addr \<times> pmem \<times> kmalloc_arena \<Rightarrow> (addr \<times> pmem \<times> kmalloc_arena) res" where
  "link_level attrs vaddr level s =
     (case s of (table, mem, arena) \<Rightarrow>
       let e = entry_at table (NTH_LEVEL_INDEX level vaddr) in
       rbind (if mem e = 0 then
                rbind (KMALLOC arena PAGE_SIZE) (\<lambda>(page, arena).
                  Inr ((zero_page (into_paddr page) mem)(e := into_paddr page), arena))
              else Inr (mem, arena)) (\<lambda>(mem, arena).
         let mem = mem(e := ENTRY_PADDR (mem e) OR attrs) in
         Inr (ENTRY_PADDR (mem e), mem, arena)))"

definition link_walk :: "u64 \<Rightarrow> addr \<Rightarrow> addr \<times> pmem \<times> kmalloc_arena \<Rightarrow> (addr \<times> pmem \<times> kmalloc_arena) res" where
  "link_walk attrs vaddr s =
     rbind (link_level attrs vaddr 4 s) (\<lambda>s.
     rbind (link_level attrs vaddr 3 s) (link_level attrs vaddr 2))"

text \<open>The inner loop over the entries of one PT; it returns what is left to do.\<close>

function link_entries :: "addr \<Rightarrow> u64 \<Rightarrow> int \<Rightarrow> int \<Rightarrow> addr \<Rightarrow> addr \<Rightarrow> pmem \<Rightarrow> int \<times> addr \<times> addr \<times> pmem" where
  "link_entries table attrs index remaining vaddr paddr mem =
     (if remaining > 0 \<and> index < PAGE_ENTRY_NUM then
        link_entries table attrs (index + 1) (remaining - 1) (vaddr + 4096) (paddr + 4096)
          (mem(entry_at table index := paddr OR attrs))
      else (remaining, vaddr, paddr, mem))"
  by pat_completeness auto
termination by (relation "measure (\<lambda>(_, _, index, _). nat (PAGE_ENTRY_NUM - index))") auto

fun link_loop :: "nat \<Rightarrow> addr \<Rightarrow> u64 \<Rightarrow> int \<Rightarrow> addr \<Rightarrow> addr \<Rightarrow> pmem \<times> kmalloc_arena \<Rightarrow> (pmem \<times> kmalloc_arena) res" where
  "link_loop 0 pml4 attrs num_pages vaddr paddr s = Inl NoFuel"
| "link_loop (Suc fuel) pml4 attrs num_pages vaddr paddr s =
     rbind (link_walk attrs vaddr (pml4, s)) (\<lambda>(table, mem, arena).
       case link_entries table attrs (NTH_LEVEL_INDEX 1 vaddr) num_pages vaddr paddr mem of
         (remaining, vaddr, paddr, mem) \<Rightarrow>
           if remaining = 0 then Inr (mem, arena)
           else link_loop fuel pml4 attrs num_pages vaddr paddr (mem, arena))"

definition link_page ::
  "nat \<Rightarrow> addr \<Rightarrow> addr \<Rightarrow> addr \<Rightarrow> int \<Rightarrow> u64 \<Rightarrow> pmem \<times> kmalloc_arena \<Rightarrow> (pmem \<times> kmalloc_arena) res"
where
  "link_page fuel pml4 vaddr paddr num_pages flags s =
     rbind (require Assertion (vaddr < KERNEL_BASE_ADDR)) (\<lambda>_.
     link_loop fuel pml4 (PAGE_PRESENT OR flags) num_pages vaddr paddr s)"

definition unlink_level :: "addr \<Rightarrow> pmem \<Rightarrow> nat \<Rightarrow> addr \<Rightarrow> addr res" where
  "unlink_level vaddr mem level table =
     (let e = entry_at table (NTH_LEVEL_INDEX level vaddr) in
      rbind (require Assertion (mem e \<noteq> 0)) (\<lambda>_. Inr (ENTRY_PADDR (mem e))))"

function unlink_entries :: "addr \<Rightarrow> int \<Rightarrow> int \<Rightarrow> addr \<Rightarrow> pmem \<Rightarrow> int \<times> addr \<times> pmem" where
  "unlink_entries table index remaining vaddr mem =
     (if remaining > 0 \<and> index < PAGE_ENTRY_NUM then
        unlink_entries table (index + 1) (remaining - 1) (vaddr + 4096) (mem(entry_at table index := 0))
      else (remaining, vaddr, mem))"
  by pat_completeness auto
termination by (relation "measure (\<lambda>(_, index, _). nat (PAGE_ENTRY_NUM - index))") auto

declare link_entries.simps [simp del] unlink_entries.simps [simp del]

lemma NTH_LEVEL_INDEX_bounds: "0 \<le> NTH_LEVEL_INDEX level vaddr" "NTH_LEVEL_INDEX level vaddr < 512"
proof -
  have "(w AND 0x1ff :: u64) = take_bit 9 w" for w by (simp add: take_bit_eq_mask mask_eq_exp_minus_1)
  then have "NTH_LEVEL_INDEX level vaddr = take_bit 9 (uint (drop_bit ((level - 1) * 9 + 12) vaddr))"
    by (simp add: NTH_LEVEL_INDEX_def unsigned_take_bit_eq)
  then show "0 \<le> NTH_LEVEL_INDEX level vaddr" "NTH_LEVEL_INDEX level vaddr < 512"
    using take_bit_int_less_exp[of 9] by auto
qed

lemma unlink_entries_remaining:
  "unlink_entries table index remaining vaddr mem = (r, v, m) \<Longrightarrow>
   r = (if remaining > 0 \<and> index < PAGE_ENTRY_NUM then remaining - min remaining (PAGE_ENTRY_NUM - index) else remaining)"
proof (induction table index remaining vaddr mem rule: unlink_entries.induct)
  case (1 table index remaining vaddr mem)
  then show ?case
    by (subst (asm) unlink_entries.simps) (auto simp: fun_upd_def split: if_splits)
qed

function unlink_loop :: "addr \<Rightarrow> int \<Rightarrow> addr \<Rightarrow> pmem \<Rightarrow> pmem res" where
  "unlink_loop pml4 remaining vaddr mem =
     (if remaining > 0 then
        rbind (unlink_level vaddr mem 4 pml4) (\<lambda>t.
        rbind (unlink_level vaddr mem 3 t) (\<lambda>t.
        rbind (unlink_level vaddr mem 2 t) (\<lambda>t.
          case unlink_entries t (NTH_LEVEL_INDEX 1 vaddr) remaining vaddr mem of
            (remaining, vaddr, mem) \<Rightarrow> unlink_loop pml4 remaining vaddr mem)))
      else Inr mem)"
  by pat_completeness auto
termination
  using NTH_LEVEL_INDEX_bounds[of 1]
  by (relation "measure (\<lambda>(_, remaining, _). nat remaining)")
     (auto dest!: unlink_entries_remaining simp: PAGE_ENTRY_NUM_def split: prod.splits)

definition unlink_page :: "addr \<Rightarrow> addr \<Rightarrow> int \<Rightarrow> pmem \<Rightarrow> pmem res" where
  "unlink_page pml4 vaddr num_pages mem =
     rbind (require Assertion (vaddr < KERNEL_BASE_ADDR)) (\<lambda>_. unlink_loop pml4 num_pages vaddr mem)"

text \<open>
  The lookup loop: \<open>i\<close> counts the levels that are left, \<open>level\<close> the level of the
  current table; the large-page bit is read from the next table at the old index.
\<close>

definition resolve_entry :: "nat \<Rightarrow> addr \<Rightarrow> addr \<Rightarrow> pmem \<Rightarrow> addr" where
  "resolve_entry level table vaddr mem =
     (let entry = mem (entry_at table (NTH_LEVEL_INDEX level vaddr)) in
      if entry = 0 then 0
      else ENTRY_PADDR entry +
           (if level = 2 then push_bit 12 (word_of_int (NTH_LEVEL_INDEX (level - 1) vaddr)) else 0))"

fun resolve_loop :: "nat \<Rightarrow> int \<Rightarrow> nat \<Rightarrow> addr \<Rightarrow> addr \<Rightarrow> pmem \<Rightarrow> addr" where
  "resolve_loop 0 i level table vaddr mem = resolve_entry level table vaddr mem"
| "resolve_loop (Suc fuel) i level table vaddr mem =
     (if i > 1 then
        let index = NTH_LEVEL_INDEX level vaddr; e = mem (entry_at table index) in
        if e = 0 then 0
        else
          let table = ENTRY_PADDR e;
              i = i - (if mem (entry_at table index) AND 0x80 \<noteq> 0 then 2 else 1)
          in resolve_loop fuel i (level - 1) table vaddr mem
      else resolve_entry level table vaddr mem)"

text \<open>Each iteration lowers \<open>i\<close> from 4, so that three iterations always suffice.\<close>

definition resolve_paddr_from_vaddr :: "addr \<Rightarrow> addr \<Rightarrow> pmem \<Rightarrow> addr" where
  "resolve_paddr_from_vaddr pml4 vaddr mem = resolve_loop 3 4 4 pml4 vaddr mem"

declare unlink_loop.simps [simp del]

end
