(* ===== verification/Message.thy ===== *)
theory Message
  imports Prelude
begin

text \<open>
  Messages: libs/libcommon/include/message.h. The header packs the inline payload
  length (bits 0 to 10), the page and channel payload flags (bits 11 and 12) and
  the message type (bits 16 to 31). A message buffer lives in a page of its own,
  either behind the three leading words of the thread information block or at
  the start of the kernel IPC page, so the bytes behind the declared inline
  payload up to the end of that page belong to the buffer of the model.
\<close>

section \<open>Constants and accessors\<close>

definition IPC_SEND :: u32 where "IPC_SEND = push_bit 8 1"
definition IPC_RECV :: u32 where "IPC_RECV = push_bit 9 1"
definition IPC_NOBLOCK :: u32 where "IPC_NOBLOCK = push_bit 10 1"

definition SYSCALL_TYPE :: "u64 \<Rightarrow> u64" where "SYSCALL_TYPE n = n AND 0xff"

definition MSG_TYPE_OFFSET :: nat where "MSG_TYPE_OFFSET = 16"
definition MSG_PAGE_PAYLOAD :: u32 where "MSG_PAGE_PAYLOAD = push_bit 11 1"
definition MSG_CHANNEL_PAYLOAD :: u32 where "MSG_CHANNEL_PAYLOAD = push_bit 12 1"
definition INLINE_PAYLOAD_LEN_MAX :: nat where "INLINE_PAYLOAD_LEN_MAX = 480"

definition INLINE_PAYLOAD_LEN :: "u32 \<Rightarrow> nat" where
  "INLINE_PAYLOAD_LEN header = unat (header AND 0x7ff)"

definition INTERFACE_ID :: "u32 \<Rightarrow> u32" where
  "INTERFACE_ID header = drop_bit 8 (drop_bit MSG_TYPE_OFFSET header AND 0xffff)"

definition ERROR_TO_HEADER :: "bool \<Rightarrow> error_t \<Rightarrow> u32" where
  "ERROR_TO_HEADER debug_build err = push_bit MSG_TYPE_OFFSET (word_of_int (- error_value debug_build err))"

definition NOTIFICATION_MSG :: u32 where
  "NOTIFICATION_MSG = push_bit MSG_TYPE_OFFSET (push_bit 8 100 OR 1)"

definition NOTIFY_INTERRUPT :: u32 where "NOTIFY_INTERRUPT = 1"
definition NOTIFY_TIMER :: u32 where "NOTIFY_TIMER = 2"

definition PAGE_PAYLOAD_ADDR :: "u64 \<Rightarrow> addr" where
  "PAGE_PAYLOAD_ADDR page = page AND 0xfffffffffffff000"

definition PAGE_PAYLOAD :: "addr \<Rightarrow> u64 \<Rightarrow> u64" where
  "PAGE_PAYLOAD a order = a OR order"

definition PAGE_ORDER :: "u64 \<Rightarrow> u64" where
  "PAGE_ORDER page = page AND 0x1f"

text \<open>\<open>POW2(order)\<close> shifts an int: order 31 gives the smallest int.\<close>

definition POW2 :: "u64 \<Rightarrow> int" where
  "POW2 order = sint (push_bit (unat order) 1 :: u32)"

text \<open>FASTPATH_HEADER_TEST and FASTPATH_SYSCALL_TEST of kernel/include/ipc.h.\<close>

definition FASTPATH_HEADER_TEST :: "u32 \<Rightarrow> bool" where
  "FASTPATH_HEADER_TEST header \<longleftrightarrow> header AND 0x1800 = 0"

definition FASTPATH_SYSCALL_TEST :: "u64 \<Rightarrow> bool" where
  "FASTPATH_SYSCALL_TEST n \<longleftrightarrow> n AND NOT (ucast IPC_NOBLOCK) = ucast (IPC_SEND OR IPC_RECV)"

section \<open>Messages\<close>

record message =
  header :: u32
  msg_from :: int
  notification :: u32
  payload_channel :: int
  payload_page :: u64
  payload_data :: "u8 list"

text \<open>
  Bytes from the start of the inline payload to the end of the page: the payload
  starts at offset 32 of the message, the message at offset 24 of the TIB.
\<close>

definition USER_DATA_ROOM :: nat where "USER_DATA_ROOM = PAGE_SIZE - 24 - 32"
definition KERNEL_DATA_ROOM :: nat where "KERNEL_DATA_ROOM = PAGE_SIZE - 32"

definition empty_message :: "nat \<Rightarrow> message" where
  "empty_message room =
     \<lparr>header = 0, msg_from = 0, notification = 0, payload_channel = 0, payload_page = 0,
      payload_data = replicate room 0\<rparr>"

definition inlined_memcpy :: "u8 list \<Rightarrow> u8 list \<Rightarrow> nat \<Rightarrow> u8 list res" where
  "inlined_memcpy dst src len =
     (if len \<le> length dst \<and> len \<le> length src then Inr (take len src @ drop len dst) else Inl Fault)"

definition message_ok :: "message \<Rightarrow> bool" where
  "message_ok m \<longleftrightarrow> USER_DATA_ROOM \<le> length (payload_data m) \<and> length (payload_data m) \<le> KERNEL_DATA_ROOM"

section \<open>Field lemmas\<close>

lemma INLINE_PAYLOAD_LEN_less: "INLINE_PAYLOAD_LEN h < 2048"
proof -
  have "h AND 0x7ff = take_bit 11 h" by (simp add: take_bit_eq_mask mask_eq_exp_minus_1)
  then have "INLINE_PAYLOAD_LEN h = take_bit 11 (unat h)"
    by (simp add: INLINE_PAYLOAD_LEN_def unsigned_take_bit_eq)
  then show ?thesis using take_bit_nat_less_exp[of 11 "unat h"] by simp
qed

lemma inlined_memcpy_payload:
  assumes "message_ok dst" "message_ok src"
  shows "inlined_memcpy (payload_data dst) (payload_data src) (INLINE_PAYLOAD_LEN h) =
     Inr (take (INLINE_PAYLOAD_LEN h) (payload_data src) @ drop (INLINE_PAYLOAD_LEN h) (payload_data dst))"
  using assms INLINE_PAYLOAD_LEN_less[of h]
  by (simp add: inlined_memcpy_def message_ok_def USER_DATA_ROOM_def PAGE_SIZE_def)

lemma PAGE_ORDER_mask: "PAGE_ORDER p = take_bit 5 p"
  by (simp add: PAGE_ORDER_def take_bit_eq_mask mask_eq_exp_minus_1)

lemma PAGE_PAYLOAD_ADDR_mask: "PAGE_PAYLOAD_ADDR p = p AND NOT (mask 12)"
proof -
  have "(0xfffffffffffff000 :: u64) = NOT (mask 12)" by (simp add: mask_eq_exp_minus_1)
  then show ?thesis by (simp only: PAGE_PAYLOAD_ADDR_def)
qed

lemma POW2_small:
  assumes "unat order < 31"
  shows "POW2 order = 2 ^ unat order"
proof -
  have "(2 :: int) ^ unat order < 2 ^ 31"
    using assms power_strict_increasing_iff[of "2 :: int" "unat order" 31] by simp
  moreover have "- (2 ^ 31) \<le> (2 :: int) ^ unat order" by (rule order_trans[of _ 0]) simp_all
  ultimately have "signed_take_bit 31 ((2 :: int) ^ unat order) = 2 ^ unat order"
    by (intro signed_take_bit_int_eq_self)
  moreover have "POW2 order = sint (word_of_int (2 ^ unat order) :: u32)"
    by (simp add: POW2_def push_bit_eq_mult)
  ultimately show ?thesis by (simp add: signed_of_int del: of_int_power)
qed

lemma page_payload_fields:
  assumes "PAGE_PAYLOAD_ADDR a = a" "order = PAGE_ORDER p"
  shows "PAGE_PAYLOAD_ADDR (PAGE_PAYLOAD a order) = a" "PAGE_ORDER (PAGE_PAYLOAD a order) = order"
proof -
  have low: "take_bit 5 p AND NOT (mask 12) = (0 :: u64)" by (rule bit_word_eqI) (simp add: bit_simps)
  have high: "take_bit 5 (a AND NOT (mask 12)) = (0 :: u64)" by (rule bit_word_eqI) (simp add: bit_simps)
  have a: "a AND NOT (mask 12) = a" using assms(1) unfolding PAGE_PAYLOAD_ADDR_mask .
  have "(a OR take_bit 5 p) AND NOT (mask 12) = (a AND NOT (mask 12)) OR (take_bit 5 p AND NOT (mask 12))"
    by (rule bit.conj_disj_distrib2)
  also have "\<dots> = a" unfolding low a by (rule or.right_neutral)
  finally show "PAGE_PAYLOAD_ADDR (PAGE_PAYLOAD a order) = a"
    unfolding PAGE_PAYLOAD_ADDR_mask PAGE_PAYLOAD_def assms(2) PAGE_ORDER_mask .
  have "take_bit 5 (a OR take_bit 5 p) = take_bit 5 (a AND NOT (mask 12)) OR take_bit 5 p"
    unfolding a by simp
  also have "\<dots> = take_bit 5 p" unfolding high by (rule or.left_neutral)
  finally show "PAGE_ORDER (PAGE_PAYLOAD a order) = order"
    unfolding PAGE_PAYLOAD_def assms(2) PAGE_ORDER_mask .
qed

text \<open>
  The sign-extended upper half of an error header is the negated error; its lower
  half is zero.
\<close>

lemma ERROR_TO_HEADER_upper:
  "sint (ucast (drop_bit 16 (ERROR_TO_HEADER debug err)) :: u16) = - error_value debug err"
proof -
  let ?e = "- error_value debug err"
  have "- (2 ^ 15) \<le> ?e" "?e < 2 ^ 15"
    using error_index_bound[of err] by (auto simp: error_value_def)
  then have "signed_take_bit 15 ?e = ?e" by (intro signed_take_bit_int_eq_self) simp_all
  moreover have "ucast (drop_bit 16 (push_bit 16 (w :: u32))) = (ucast w :: u16)" for w
    by (rule bit_word_eqI) (simp add: bit_simps)
  ultimately show ?thesis
    by (simp add: ERROR_TO_HEADER_def MSG_TYPE_OFFSET_def unsigned_of_int signed_of_int signed_take_bit_take_bit del: of_int_minus)
qed

lemma ERROR_TO_HEADER_lower: "ucast (ERROR_TO_HEADER debug err) = (0 :: u16)"
proof -
  have "ucast (push_bit 16 (w :: u32)) = (0 :: u16)" for w
    by (rule bit_word_eqI) (simp add: bit_simps)
  then show ?thesis by (simp add: ERROR_TO_HEADER_def MSG_TYPE_OFFSET_def)
qed

end
