(* ===== verification/Kernel.thy ===== *)
theory Kernel
  imports Table Paging Message
begin

text \<open>
  The kernel state: the control blocks of kernel/include/{thread,process,channel,
  memory,timer,server}.h as records, kept in typed heaps indexed by the address
  that the arena gave out, together with the global variables of the kernel. The
  queues threaded through the control blocks are HOL lists of addresses (the
  refinement of theory ListHead). A pointer to a freed block, or to a block of
  another type, is a \<open>Fault\<close> when it is used.

  A thread that waits inside the kernel keeps the list of its suspended C frames,
  innermost first: each frame names the program point after the blocking call and
  the local variables that are used from there on.
\<close>

section \<open>Control blocks\<close>

datatype pager_t = UserPager | InitfsPager | StraightMapPager

record vmarea =
  vma_start :: addr
  vma_end :: addr
  pager :: pager_t
  vma_arg :: addr
  vma_flags :: u64

record channel =
  ch_process :: addr
  cid :: int
  ref_count :: int
  destructed :: bool
  ch_notification :: u32
  linked_with :: addr
  transfer_to :: addr
  receiver :: addr
  queue :: "addr list"

record process =
  pid :: int
  proc_name :: string
  vmareas :: "addr list"
  proc_threads :: "addr list"
  pml4 :: addr
  channels :: "addr table"
  channel_list :: "addr list"

datatype timer_handler = ThreadSwitchByTimeout | UserTimerHandler

record timer =
  timer_id :: int
  timer_current :: int
  interval :: int
  handler :: timer_handler
  timer_arg :: addr

record irq_listener =
  irq :: u8
  listener_ch :: addr

text \<open>
  Suspended frames. \<open>SendWait ch syscall m header\<close>, \<open>RecvWait recv_ch m\<close> and
  \<open>FastRecvWait recv_ch m\<close> wait in \<open>sys_ipc\<close> and \<open>sys_ipc_fastpath\<close> (\<open>m\<close> tells
  whether the local \<open>m\<close> is the kernel buffer); the others wait for a called
  function to return. \<open>PayloadFault ch syscall m receiver dst_m page page_base\<close> is
  the send phase while the page fault handler fills the page of the payload.
  \<open>ServerMain\<close> is the kernel server before its first instruction, \<open>ServerRecv\<close> and
  \<open>ServerReply\<close> are its two calls of \<open>kernel_ipc\<close> (with the id of the server
  channel), and \<open>TimerLoop timer next\<close> is the timer interrupt handler when a timer
  switches threads (\<open>next\<close> is the successor that LIST_FOR_EACH has read, None at the
  end of the list). \<open>InterruptReturn\<close> is the interrupt handler, \<open>IdleLoop\<close> the loop of
  the idle thread.
\<close>

datatype frame =
    SendWait addr u32 bool u32
  | RecvWait addr bool
  | FastRecvWait addr bool
  | KernelIpc
  | UserPagerCall
  | PageFaultCall addr addr
  | PayloadFault addr u32 bool addr bool u64 u64
  | ServerMain
  | ServerRecv int
  | ServerReply int
  | TimerLoop addr "addr option"
  | InterruptReturn
  | IdleLoop

text \<open>
  A word of the initial kernel stack of a thread: a number or the address of one
  of the two assembly entry points.
\<close>

datatype stack_word = StackWord u64 | X64StartKernelThread | X64StartUserThread

datatype retval = RInt int | RErr error_t | RPaddr addr | RUnit

record thread =
  kernel_stack :: addr
  th_process :: addr
  tid :: int
  blocked :: bool
  abort_reason :: error_t
  blocked_on :: addr
  info :: addr
  info_self :: addr
  info_arg :: u64
  page_base :: u64
  user_msg :: message
  kernel_ipc_buffer :: addr
  kernel_msg :: message
  on_kernel_buffer :: bool
  xsave_area :: addr
  arch_info :: addr
  arch_cr3 :: addr
  rflags_ormask :: u64
  init_frame :: "stack_word list"
  frames :: "frame list"
  result :: retval

record kernel =
  object_arena :: kmalloc_arena
  page_arena :: kmalloc_arena
  pmem :: pmem
  procs :: "addr \<Rightarrow> process option"
  threads :: "addr \<Rightarrow> thread option"
  chans :: "addr \<Rightarrow> channel option"
  vmas :: "addr \<Rightarrow> vmarea option"
  timer_objs :: "addr \<Rightarrow> timer option"
  irq_objs :: "addr \<Rightarrow> irq_listener option"
  process_table :: "addr table"
  process_list :: "addr list"
  kernel_process :: addr
  init_process :: addr
  runqueue :: "addr list"
  current :: addr
  idle_thread :: addr
  kernel_server_ch :: addr
  timers :: "addr table"
  active_timers :: "addr list"
  user_timers :: "addr table"
  irq_listeners :: "addr table"
  active_irq_listeners :: "addr list"
  initfs :: addr
  console :: "u8 list"

section \<open>Reading and writing control blocks\<close>

definition get_thread :: "kernel \<Rightarrow> addr \<Rightarrow> thread res" where "get_thread k = deref (threads k)"
definition get_chan :: "kernel \<Rightarrow> addr \<Rightarrow> channel res" where "get_chan k = deref (chans k)"
definition get_proc :: "kernel \<Rightarrow> addr \<Rightarrow> process res" where "get_proc k = deref (procs k)"

definition upd_thread :: "kernel \<Rightarrow> addr \<Rightarrow> (thread \<Rightarrow> thread) \<Rightarrow> kernel res" where
  "upd_thread k t f = rbind (get_thread k t) (\<lambda>x. Inr (k\<lparr>threads := (threads k)(t \<mapsto> f x)\<rparr>))"

definition upd_chan :: "kernel \<Rightarrow> addr \<Rightarrow> (channel \<Rightarrow> channel) \<Rightarrow> kernel res" where
  "upd_chan k c f = rbind (get_chan k c) (\<lambda>x. Inr (k\<lparr>chans := (chans k)(c \<mapsto> f x)\<rparr>))"

definition upd_proc :: "kernel \<Rightarrow> addr \<Rightarrow> (process \<Rightarrow> process) \<Rightarrow> kernel res" where
  "upd_proc k p f = rbind (get_proc k p) (\<lambda>x. Inr (k\<lparr>procs := (procs k)(p \<mapsto> f x)\<rparr>))"

text \<open>
  A pointer to a message buffer of a thread is a flag: the kernel IPC buffer or
  the one in the thread information block. \<open>on_kernel_buffer\<close> is the field
  \<open>ipc_buffer\<close> of struct thread.
\<close>

definition buf_msg :: "bool \<Rightarrow> thread \<Rightarrow> message" where
  "buf_msg kbuf th = (if kbuf then kernel_msg th else user_msg th)"

definition upd_buf :: "bool \<Rightarrow> (message \<Rightarrow> message) \<Rightarrow> thread \<Rightarrow> thread" where
  "upd_buf kbuf f th = (if kbuf then th\<lparr>kernel_msg := f (kernel_msg th)\<rparr> else th\<lparr>user_msg := f (user_msg th)\<rparr>)"

text \<open>
  Unlinking an element of an intrusive list; an element that is on no list has
  invalid links.
\<close>

definition list_del :: "addr \<Rightarrow> addr list \<Rightarrow> addr list res" where
  "list_del x xs = (if x \<in> set xs then Inr (remove1 x xs) else Inl Fault)"

text \<open>A table slot read as a pointer: null is 0, a reserved slot is the magic pointer.\<close>

fun slot_ptr :: "addr slot \<Rightarrow> addr" where
  "slot_ptr NullSlot = 0"
| "slot_ptr RESERVED = 0xcafecafe"
| "slot_ptr (Entry a) = a"

definition table_ptr :: "addr table \<Rightarrow> int \<Rightarrow> addr res" where
  "table_ptr t i = rmap slot_ptr (table_get t i)"

definition kalloc_object :: "kernel \<Rightarrow> nat \<Rightarrow> (addr \<times> kernel) res" where
  "kalloc_object k sz = rmap (\<lambda>(a, ar). (a, k\<lparr>object_arena := ar\<rparr>)) (KMALLOC (object_arena k) sz)"

definition kalloc_page :: "kernel \<Rightarrow> nat \<Rightarrow> (addr \<times> kernel) res" where
  "kalloc_page k sz = rmap (\<lambda>(a, ar). (a, k\<lparr>page_arena := ar\<rparr>)) (KMALLOC (page_arena k) sz)"

definition kfree_object :: "kernel \<Rightarrow> addr \<Rightarrow> kernel" where
  "kfree_object k a = k\<lparr>object_arena := kfree (object_arena k) a\<rparr>"

definition kfree_page :: "kernel \<Rightarrow> addr \<Rightarrow> kernel" where
  "kfree_page k a = k\<lparr>page_arena := kfree (page_arena k) a\<rparr>"

definition sizeof_channel :: nat where "sizeof_channel = 80"
definition sizeof_thread :: nat where "sizeof_thread = 160"
definition sizeof_process :: nat where "sizeof_process = 128"
definition sizeof_vmarea :: nat where "sizeof_vmarea = 56"
definition sizeof_timer :: nat where "sizeof_timer = 48"
definition sizeof_irq_listener :: nat where "sizeof_irq_listener = 32"
definition sizeof_message :: nat where "sizeof_message = 512"

named_theorems kdefs \<open>accessors of the kernel state\<close>

declare get_thread_def [kdefs] get_chan_def [kdefs] get_proc_def [kdefs]
  upd_thread_def [kdefs] upd_chan_def [kdefs] upd_proc_def [kdefs]

lemma upd_thread_eq [simp]:
  "upd_thread k t f = Inr k' \<longleftrightarrow> (\<exists>x. threads k t = Some x \<and> k' = k\<lparr>threads := (threads k)(t \<mapsto> f x)\<rparr>)"
  by (auto simp: kdefs)

lemma upd_chan_eq [simp]:
  "upd_chan k c f = Inr k' \<longleftrightarrow> (\<exists>x. chans k c = Some x \<and> k' = k\<lparr>chans := (chans k)(c \<mapsto> f x)\<rparr>)"
  by (auto simp: kdefs)

lemma upd_proc_eq [simp]:
  "upd_proc k p f = Inr k' \<longleftrightarrow> (\<exists>x. procs k p = Some x \<and> k' = k\<lparr>procs := (procs k)(p \<mapsto> f x)\<rparr>)"
  by (auto simp: kdefs)

lemma get_eq [simp]:
  "get_thread k t = Inr th \<longleftrightarrow> threads k t = Some th"
  "get_chan k c = Inr ch \<longleftrightarrow> chans k c = Some ch"
  "get_proc k p = Inr pr \<longleftrightarrow> procs k p = Some pr"
  by (auto simp: kdefs)

lemma list_del_eq [simp]: "list_del x xs = Inr ys \<longleftrightarrow> x \<in> set xs \<and> ys = remove1 x xs"
  by (auto simp: list_del_def)

lemma upd_buf_simps [simp]:
  "blocked (upd_buf b f th) = blocked th" "tid (upd_buf b f th) = tid th"
  "th_process (upd_buf b f th) = th_process th" "frames (upd_buf b f th) = frames th"
  "on_kernel_buffer (upd_buf b f th) = on_kernel_buffer th" "blocked_on (upd_buf b f th) = blocked_on th"
  "abort_reason (upd_buf b f th) = abort_reason th" "page_base (upd_buf b f th) = page_base th"
  "buf_msg b (upd_buf b f th) = f (buf_msg b th)"
  by (auto simp: upd_buf_def buf_msg_def)

end
