(* ===== verification/Threads.thy ===== *)
theory Threads
  imports Kernel
begin

text \<open>
  Threads and the scheduler: kernel/thread.c and the thread part of
  kernel/arch/x64/thread.c, with the scheduler invariant and its preservation by
  every scheduling operation.
\<close>

section \<open>Creation and destruction\<close>

definition LINK_FUEL :: nat where "LINK_FUEL = 4"

definition KERNEL_STACK_SIZE :: nat where "KERNEL_STACK_SIZE = PAGE_SIZE"

text \<open>
  The initial kernel stack, from the word that the stack pointer addresses
  upwards: the flags and callee-saved registers popped by the context switch,
  then the entry point and, for a user thread, the interrupt return frame.
\<close>

definition initial_stack :: "addr \<Rightarrow> addr \<Rightarrow> bool \<Rightarrow> stack_word list" where
  "initial_stack start stack is_kernel_thread =
     StackWord 0x02 # replicate 6 (StackWord 0) @
     (if is_kernel_thread then [X64StartKernelThread, StackWord start]
      else [X64StartUserThread, StackWord start, StackWord (5 * 8 OR 3), StackWord 0x202,
            StackWord stack, StackWord (4 * 8 OR 3)])"

text \<open>The error return of \<open>arch_thread_init\<close> needs a null page, which the arena never returns.\<close>

definition arch_thread_init ::
  "kernel \<Rightarrow> thread \<Rightarrow> addr \<Rightarrow> addr \<Rightarrow> addr \<Rightarrow> bool \<Rightarrow> ((error_t \<times> thread) \<times> kernel) res"
where
  "arch_thread_init k th start stack user_buffer is_kernel_thread =
     rbind (kalloc_page k PAGE_SIZE) (\<lambda>(xsave, k).
       if xsave = 0 then Inr ((ERR_OUT_OF_MEMORY, th), k)
       else rbind (get_proc k (th_process th)) (\<lambda>p.
         Inr ((OK, th\<lparr>xsave_area := xsave, arch_info := user_buffer, arch_cr3 := pml4 p,
                      rflags_ormask := 0,
                      init_frame := initial_stack start stack is_kernel_thread\<rparr>), k)))"

definition IS_KERNEL_PROCESS :: "kernel \<Rightarrow> addr \<Rightarrow> bool" where
  "IS_KERNEL_PROCESS k p \<longleftrightarrow> p = kernel_process k"

text \<open>The control block as it is before the architecture-dependent part is filled in.\<close>

definition fresh_thread :: "addr \<Rightarrow> int \<Rightarrow> addr \<Rightarrow> addr \<Rightarrow> addr \<Rightarrow> addr \<Rightarrow> u64 \<Rightarrow> thread" where
  "fresh_thread proc t kstack ti kbuf user_buffer arg =
     \<lparr>kernel_stack = kstack, th_process = proc, tid = t, blocked = True, abort_reason = OK,
      blocked_on = 0, info = ti, info_self = user_buffer, info_arg = arg, page_base = 0,
      user_msg = empty_message USER_DATA_ROOM, kernel_ipc_buffer = kbuf,
      kernel_msg = empty_message KERNEL_DATA_ROOM, on_kernel_buffer = False, xsave_area = 0,
      arch_info = 0, arch_cr3 = 0, rflags_ormask = 0, init_frame = [], frames = [], result = RUnit\<rparr>"

text \<open>
  Creates a thread; a null result is 0. The slot of the thread id is not given
  back when an allocation fails. The frames tell what the thread does when it is
  switched to for the first time (none for a thread that starts in user space).
\<close>

definition thread_create ::
  "kernel \<Rightarrow> addr \<Rightarrow> addr \<Rightarrow> addr \<Rightarrow> addr \<Rightarrow> u64 \<Rightarrow> frame list \<Rightarrow> (addr \<times> kernel) res"
where
  "thread_create k proc start stack user_buffer arg start_frames =
     rbind (table_alloc (process_table k)) (\<lambda>(t, tbl).
     let k = k\<lparr>process_table := tbl\<rparr> in
     if t = 0 then Inr (0, k) else
     rbind (kalloc_object k sizeof_thread) (\<lambda>(a, k).
     if a = 0 then Inr (0, k) else
     rbind (kalloc_page k PAGE_SIZE) (\<lambda>(kstack, k).
     if kstack = 0 then Inr (0, kfree_object k a) else
     rbind (kalloc_page k PAGE_SIZE) (\<lambda>(ti, k).
     if ti = 0 then Inr (0, kfree_page (kfree_object k a) kstack) else
     rbind (kalloc_page k sizeof_message) (\<lambda>(kbuf, k).
     if kbuf = 0 then Inr (0, kfree_page (kfree_page (kfree_object k a) kstack) ti) else
     let is_kernel_thread = IS_KERNEL_PROCESS k proc;
         th = (fresh_thread proc t kstack ti kbuf user_buffer arg)\<lparr>frames := start_frames\<rparr> in
     rbind (arch_thread_init k th start stack user_buffer is_kernel_thread) (\<lambda>((err, th), k).
     if err \<noteq> OK then Inr (0, kfree_page (kfree_page (kfree_page (kfree_object k a) kstack) ti) kbuf) else
     rbind (if is_kernel_thread then Inr k
            else rbind (get_proc k proc) (\<lambda>p.
                 rbind (link_page LINK_FUEL (pml4 p) user_buffer (into_paddr ti) 1 (PAGE_USER OR PAGE_WRITABLE)
                          (pmem k, page_arena k)) (\<lambda>(mem, ar).
                 upd_proc (k\<lparr>pmem := mem, page_arena := ar\<rparr>) proc
                   (\<lambda>p. p\<lparr>proc_threads := proc_threads p @ [a]\<rparr>)))) (\<lambda>k.
     rbind (table_set (process_table k) t a) (\<lambda>tbl.
     Inr (a, k\<lparr>process_table := tbl, threads := (threads k)(a \<mapsto> th)\<rparr>)))))))))"

definition arch_thread_destroy :: "kernel \<Rightarrow> thread \<Rightarrow> kernel" where
  "arch_thread_destroy k th = kfree_page k (xsave_area th)"

text \<open>
  Destroys a thread. A kernel thread is on no thread list, so unlinking it
  faults; destroying the current thread ends in UNIMPLEMENTED.
\<close>

definition thread_destroy :: "kernel \<Rightarrow> addr \<Rightarrow> kernel res" where
  "thread_destroy k a =
     rbind (get_thread k a) (\<lambda>th.
     rbind (if a \<noteq> current k \<and> \<not> blocked th
            then rbind (list_del a (runqueue k)) (\<lambda>rq. Inr (k\<lparr>runqueue := rq\<rparr>)) else Inr k) (\<lambda>k.
     rbind (if blocked_on th \<noteq> 0
            then rbind (get_chan k (blocked_on th)) (\<lambda>c.
                 rbind (list_del a (queue c)) (\<lambda>q. upd_chan k (blocked_on th) (\<lambda>c. c\<lparr>queue := q\<rparr>)))
            else Inr k) (\<lambda>k.
     let k = kfree_page (kfree_page (kfree_page k (kernel_stack th)) (info th)) (kernel_ipc_buffer th);
         k = arch_thread_destroy k th in
     rbind (table_free (process_table k) (tid th)) (\<lambda>tbl.
     let k = k\<lparr>process_table := tbl\<rparr> in
     rbind (get_proc k (th_process th)) (\<lambda>p.
     rbind (list_del a (proc_threads p)) (\<lambda>ts.
     rbind (upd_proc k (th_process th) (\<lambda>p. p\<lparr>proc_threads := ts\<rparr>)) (\<lambda>k.
     let k = (kfree_object k a)\<lparr>threads := (threads k)(a := None)\<rparr> in
     if a = current k then Inl Unimplemented else Inr k)))))))"

definition thread_kill_current :: "kernel \<Rightarrow> kernel res" where
  "thread_kill_current k = thread_destroy k (current k)"

definition thread_allow_io :: "kernel \<Rightarrow> addr \<Rightarrow> kernel res" where
  "thread_allow_io k a = upd_thread k a (\<lambda>th. th\<lparr>rflags_ormask := push_bit 12 3\<rparr>)"

section \<open>Scheduling\<close>

definition thread_resume :: "kernel \<Rightarrow> addr \<Rightarrow> kernel res" where
  "thread_resume k t =
     rbind (get_thread k t) (\<lambda>th.
       if blocked th then
         rbind (upd_thread k t (\<lambda>th. th\<lparr>blocked := False\<rparr>)) (\<lambda>k. Inr (k\<lparr>runqueue := runqueue k @ [t]\<rparr>))
       else Inr k)"

definition thread_block :: "kernel \<Rightarrow> addr \<Rightarrow> kernel res" where
  "thread_block k t = upd_thread k t (\<lambda>th. th\<lparr>blocked := True\<rparr>)"

definition scheduler :: "kernel \<Rightarrow> addr \<Rightarrow> (addr \<times> kernel) res" where
  "scheduler k cur =
     rbind (get_thread k cur) (\<lambda>th.
       let rq = (if \<not> blocked th then runqueue k @ [cur] else runqueue k) in
       case rq of
         [] \<Rightarrow> Inr (idle_thread k, k\<lparr>runqueue := []\<rparr>)
       | t # ts \<Rightarrow> Inr (t, k\<lparr>runqueue := ts\<rparr>))"

text \<open>
  \<open>arch_thread_switch\<close> makes the next thread the current one; the register save
  and restore is the change of the frame stack that runs.
\<close>

definition thread_switch :: "kernel \<Rightarrow> kernel res" where
  "thread_switch k =
     rbind (scheduler k (current k)) (\<lambda>(next_thread, k). Inr (k\<lparr>current := next_thread\<rparr>))"

definition thread_init :: "kernel \<Rightarrow> kernel res" where
  "thread_init k =
     rbind (thread_create (k\<lparr>runqueue := []\<rparr>) (kernel_process k) 0 0 0 0 [IdleLoop])
       (\<lambda>(idle, k). Inr (k\<lparr>idle_thread := idle\<rparr>))"
section \<open>The scheduler invariant\<close>

text \<open>
  The run queue holds distinct live unblocked threads other than the current one,
  every unblocked thread is current or queued, no thread lives at the null
  address, and the idle thread is never runnable.
\<close>

definition sched_inv :: "kernel \<Rightarrow> bool" where
  "sched_inv k \<longleftrightarrow>
     distinct (runqueue k) \<and> current k \<notin> set (runqueue k) \<and>
     current k \<in> dom (threads k) \<and> threads k 0 = None \<and>
     (\<exists>th. threads k (idle_thread k) = Some th \<and> blocked th) \<and>
     (\<forall>t \<in> set (runqueue k). \<exists>th. threads k t = Some th \<and> \<not> blocked th) \<and>
     (\<forall>t th. threads k t = Some th \<longrightarrow> \<not> blocked th \<longrightarrow> t = current k \<or> t \<in> set (runqueue k))"

lemma sched_invI:
  assumes "distinct (runqueue k)" "current k \<notin> set (runqueue k)" "current k \<in> dom (threads k)"
    "\<exists>th. threads k (idle_thread k) = Some th \<and> blocked th"
    "\<And>t. t \<in> set (runqueue k) \<Longrightarrow> \<exists>th. threads k t = Some th \<and> \<not> blocked th"
    "\<And>t th. threads k t = Some th \<Longrightarrow> \<not> blocked th \<Longrightarrow> t = current k \<or> t \<in> set (runqueue k)"
    "threads k 0 = None"
  shows "sched_inv k"
  using assms by (auto simp: sched_inv_def)

lemma sched_invD:
  assumes "sched_inv k"
  shows "distinct (runqueue k)" "current k \<notin> set (runqueue k)" "current k \<in> dom (threads k)"
    "\<exists>th. threads k (idle_thread k) = Some th \<and> blocked th"
    "t \<in> set (runqueue k) \<Longrightarrow> \<exists>th. threads k t = Some th \<and> \<not> blocked th"
    "threads k t = Some th \<Longrightarrow> \<not> blocked th \<Longrightarrow> t = current k \<or> t \<in> set (runqueue k)"
    "threads k 0 = None"
  using assms by (auto simp: sched_inv_def)

lemma sched_inv_cong:
  assumes "runqueue k' = runqueue k" "current k' = current k" "idle_thread k' = idle_thread k"
    "map_option blocked \<circ> threads k' = map_option blocked \<circ> threads k"
  shows "sched_inv k' = sched_inv k"
proof -
  have b: "map_option blocked (threads k' t) = map_option blocked (threads k t)" for t
    using fun_cong[OF assms(4), of t] by simp
  have run: "(\<exists>th. threads k' t = Some th \<and> blocked th = v) \<longleftrightarrow> (\<exists>th. threads k t = Some th \<and> blocked th = v)" for t v
    using b[of t] by (cases "threads k' t"; cases "threads k t") auto
  have "dom (threads k') = dom (threads k)" using b by (metis domIff option.map_disc_iff subsetI subset_antisym)
  moreover have "threads k' 0 = None \<longleftrightarrow> threads k 0 = None" using b[of 0] by (metis option.map_disc_iff)
  moreover have "(\<forall>t th. threads k' t = Some th \<longrightarrow> \<not> blocked th \<longrightarrow> P t) \<longleftrightarrow>
      (\<forall>t th. threads k t = Some th \<longrightarrow> \<not> blocked th \<longrightarrow> P t)" for P
    using run[of _ False] by (metis (full_types))
  ultimately show ?thesis unfolding sched_inv_def assms(1-3) using run[of _ True] run[of _ False] by simp
qed

text \<open>Changes of a thread that leave its blocked flag alone.\<close>

lemma sched_inv_upd_thread:
  assumes "threads k t = Some th" "blocked (f th) = blocked th"
  shows "sched_inv (k\<lparr>threads := (threads k)(t \<mapsto> f th)\<rparr>) = sched_inv k"
  by (rule sched_inv_cong) (use assms in auto)

lemma thread_resume_sched_inv:
  assumes "sched_inv k" "thread_resume k t = Inr k'" "t \<noteq> current k" "t \<noteq> idle_thread k"
  shows "sched_inv k'"
proof -
  obtain th where th: "threads k t = Some th" using assms(2) by (auto simp: thread_resume_def)
  show ?thesis
  proof (cases "blocked th")
    case True
    then have k': "k' = k\<lparr>threads := (threads k)(t \<mapsto> th\<lparr>blocked := False\<rparr>), runqueue := runqueue k @ [t]\<rparr>"
      using assms(2) th by (auto simp: thread_resume_def)
    have "t \<notin> set (runqueue k)" using sched_invD(5)[OF assms(1), of t] th True by auto
    then show ?thesis unfolding k' using assms th sched_invD(7)[OF assms(1)]
      by (intro sched_invI) (auto dest: sched_invD split: if_splits)
  qed (use assms th in \<open>auto simp: thread_resume_def\<close>)
qed

lemma thread_block_sched_inv:
  assumes "sched_inv k" "thread_block k (current k) = Inr k'"
  shows "sched_inv k'"
  using assms sched_invD(7)[OF assms(1)]
  by (intro sched_invI) (auto simp: thread_block_def dest: sched_invD split: if_splits)

text \<open>The queue that the scheduler pops from, and the state after the switch.\<close>

definition ready_queue :: "kernel \<Rightarrow> addr list" where
  "ready_queue k = (case threads k (current k) of
      Some th \<Rightarrow> if \<not> blocked th then runqueue k @ [current k] else runqueue k | None \<Rightarrow> [])"

lemma thread_switch_eq:
  "thread_switch k = Inr k' \<longleftrightarrow> current k \<in> dom (threads k) \<and>
     k' = (case ready_queue k of [] \<Rightarrow> k\<lparr>runqueue := [], current := idle_thread k\<rparr>
           | t # ts \<Rightarrow> k\<lparr>runqueue := ts, current := t\<rparr>)"
proof (cases "threads k (current k)")
  case (Some th)
  then have "scheduler k (current k) = Inr (case ready_queue k of [] \<Rightarrow> (idle_thread k, k\<lparr>runqueue := []\<rparr>)
      | t # ts \<Rightarrow> (t, k\<lparr>runqueue := ts\<rparr>))"
    by (simp add: scheduler_def ready_queue_def kdefs deref_def Let_def split: list.split)
  then show ?thesis using Some
    by (cases "ready_queue k") (auto simp: thread_switch_def)
qed (simp add: thread_switch_def scheduler_def domIff)

lemma thread_switch_sched_inv:
  assumes inv: "sched_inv k" and sw: "thread_switch k = Inr k'"
  shows "sched_inv k'"
proof -
  obtain th where th: "threads k (current k) = Some th" using sched_invD(3)[OF inv] by auto
  define rq where "rq = ready_queue k"
  have rq_def: "rq = (if \<not> blocked th then runqueue k @ [current k] else runqueue k)"
    using th by (simp add: rq_def ready_queue_def)
  have rq: "distinct rq" "\<forall>t \<in> set rq. \<exists>th. threads k t = Some th \<and> \<not> blocked th"
    using sched_invD[OF inv] th by (auto simp: rq_def split: if_splits)
  have all: "\<forall>t th'. threads k t = Some th' \<longrightarrow> \<not> blocked th' \<longrightarrow> t \<in> set rq"
    using sched_invD(6)[OF inv] th by (fastforce simp: rq_def)
  have k': "k' = (case rq of [] \<Rightarrow> k\<lparr>runqueue := [], current := idle_thread k\<rparr>
                  | t # ts \<Rightarrow> k\<lparr>runqueue := ts, current := t\<rparr>)"
    using sw th unfolding thread_switch_eq by (simp add: ready_queue_def rq_def)
  show ?thesis
    using rq all sched_invD(4,7)[OF inv] unfolding k'
    by (cases rq) (auto simp: sched_inv_def)
qed

text \<open>Under the invariant a switch never fails.\<close>

lemma thread_switch_total: "sched_inv k \<Longrightarrow> \<exists>k'. thread_switch k = Inr k'"
  by (simp add: thread_switch_eq sched_inv_def)

section \<open>Round robin\<close>

fun switches :: "nat \<Rightarrow> kernel \<Rightarrow> kernel res" where
  "switches 0 k = Inr k"
| "switches (Suc n) k = rbind (thread_switch k) (switches n)"

lemma switches_round_robin:
  assumes "sched_inv k" "threads k (current k) = Some th" "\<not> blocked th" "n \<le> length (runqueue k)"
  shows "switches n k = Inr (k\<lparr>runqueue := drop n (runqueue k) @ take n (current k # runqueue k),
            current := (current k # runqueue k) ! n\<rparr>)"
  using assms
proof (induction n arbitrary: k th)
  case 0
  then show ?case by simp
next
  case (Suc n)
  obtain t ts where rq: "runqueue k = t # ts" using Suc.prems(4) by (cases "runqueue k") auto
  let ?k1 = "k\<lparr>runqueue := ts @ [current k], current := t\<rparr>"
  have sw: "thread_switch k = Inr ?k1"
    using Suc.prems(2,3) rq by (simp add: thread_switch_def scheduler_def kdefs deref_def Let_def)
  obtain th' where th': "threads k t = Some th'" "\<not> blocked th'"
    using sched_invD(5)[OF Suc.prems(1), of t] rq by auto
  have "switches n ?k1 = Inr (?k1\<lparr>runqueue := drop n (runqueue ?k1) @ take n (current ?k1 # runqueue ?k1),
      current := (current ?k1 # runqueue ?k1) ! n\<rparr>)"
    by (rule Suc.IH[of ?k1 th']) (use thread_switch_sched_inv[OF Suc.prems(1) sw] th' Suc.prems(4) rq in auto)
  then show ?case using sw rq Suc.prems(4)
    by (cases n) (auto simp: nth_append nth_Cons' Suc_le_eq)
qed

end
