(* ===== verification/Channels.thy ===== *)
theory Channels
  imports Threads
begin

text \<open>
  Channels: kernel/channel.c. \<open>channel_decref\<close>, \<open>channel_link\<close> and
  \<open>channel_transfer\<close> call each other; the recursion is bounded by fuel, and
  \<open>channel_decref_fuel\<close> shows that one more than the number of live channels is
  always enough.
\<close>

section \<open>Operations\<close>

definition new_channel :: "addr \<Rightarrow> addr \<Rightarrow> int \<Rightarrow> channel" where
  "new_channel proc a i =
     \<lparr>ch_process = proc, cid = i, ref_count = 1, destructed = False, ch_notification = 0,
      linked_with = a, transfer_to = a, receiver = 0, queue = []\<rparr>"

definition channel_create :: "kernel \<Rightarrow> addr \<Rightarrow> (addr \<times> kernel) res" where
  "channel_create k proc =
     rbind (get_proc k proc) (\<lambda>p.
     rbind (table_alloc (channels p)) (\<lambda>(i, tbl).
     rbind (upd_proc k proc (\<lambda>p. p\<lparr>channels := tbl\<rparr>)) (\<lambda>k.
     if i = 0 then Inr (0, k) else
     rbind (kalloc_object k sizeof_channel) (\<lambda>(a, k).
     if a = 0 then
       rbind (table_free tbl i) (\<lambda>tbl.
       rbind (upd_proc k proc (\<lambda>p. p\<lparr>channels := tbl\<rparr>)) (\<lambda>k. Inr (0, k)))
     else
       let k = k\<lparr>chans := (chans k)(a \<mapsto> new_channel proc a i)\<rparr> in
       rbind (table_set tbl i a) (\<lambda>tbl.
       rbind (upd_proc k proc (\<lambda>p. p\<lparr>channels := tbl, channel_list := channel_list p @ [a]\<rparr>)) (\<lambda>k.
       Inr (a, k)))))))"

definition channel_incref :: "kernel \<Rightarrow> addr \<Rightarrow> kernel res" where
  "channel_incref k ch =
     rbind (get_chan k ch) (\<lambda>c.
     rbind (require Assertion (ref_count c \<ge> 1)) (\<lambda>_.
     upd_chan k ch (\<lambda>c. c\<lparr>ref_count := ref_count c + 1\<rparr>)))"

text \<open>
  The two operations below take the function that drops a reference as an
  argument, to tie the knot with \<open>channel_decref\<close>. Linking a channel with itself
  drops the reference on its peer twice: the field is reset only afterwards.
\<close>

definition channel_link_with :: "(kernel \<Rightarrow> addr \<Rightarrow> kernel res) \<Rightarrow> kernel \<Rightarrow> addr \<Rightarrow> addr \<Rightarrow> kernel res" where
  "channel_link_with decref k ch1 ch2 =
     (if ch1 = ch2 then
        rbind (get_chan k ch1) (\<lambda>c1.
        rbind (if linked_with c1 \<noteq> ch1 then decref k (linked_with c1) else Inr k) (\<lambda>k.
        rbind (get_chan k ch2) (\<lambda>c2.
        rbind (if linked_with c2 \<noteq> ch2 then decref k (linked_with c2) else Inr k) (\<lambda>k.
        upd_chan k ch1 (\<lambda>c. c\<lparr>linked_with := ch1\<rparr>)))))
      else
        rbind (upd_chan k ch1 (\<lambda>c. c\<lparr>linked_with := ch2\<rparr>)) (\<lambda>k.
        rbind (upd_chan k ch2 (\<lambda>c. c\<lparr>linked_with := ch1\<rparr>)) (\<lambda>k.
        rbind (channel_incref k ch1) (\<lambda>k.
        channel_incref k ch2))))"

definition channel_transfer_with :: "(kernel \<Rightarrow> addr \<Rightarrow> kernel res) \<Rightarrow> kernel \<Rightarrow> addr \<Rightarrow> addr \<Rightarrow> kernel res" where
  "channel_transfer_with decref k src dst =
     rbind (get_chan k src) (\<lambda>s.
     rbind (get_chan k dst) (\<lambda>d.
     rbind (require Assertion (ch_process s = ch_process d)) (\<lambda>_.
     if src = dst then
       rbind (if transfer_to s \<noteq> src then decref k (transfer_to s) else Inr k) (\<lambda>k.
       upd_chan k src (\<lambda>c. c\<lparr>transfer_to := src\<rparr>))
     else
       rbind (upd_chan k src (\<lambda>c. c\<lparr>transfer_to := dst\<rparr>)) (\<lambda>k.
       channel_incref k dst))))"

text \<open>
  The tail of \<open>channel_decref\<close>. The loop over the senders computes each thread
  from the field \<open>next\<close> although the queue is threaded through \<open>queue_next\<close>, so
  that its first iteration writes to an address that is no thread.
\<close>

definition channel_release :: "kernel \<Rightarrow> addr \<Rightarrow> kernel res" where
  "channel_release k ch =
     rbind (get_chan k ch) (\<lambda>c.
     rbind (if receiver c \<noteq> 0 then
              rbind (upd_thread k (receiver c) (\<lambda>th. th\<lparr>abort_reason := ERR_CHANNEL_CLOSED\<rparr>)) (\<lambda>k.
              thread_resume k (receiver c))
            else Inr k) (\<lambda>k.
     rbind (require Fault (queue c = [])) (\<lambda>_.
     rbind (get_proc k (ch_process c)) (\<lambda>p.
     rbind (table_free (channels p) (cid c)) (\<lambda>tbl.
     rbind (list_del ch (channel_list p)) (\<lambda>cl.
     rbind (upd_proc k (ch_process c) (\<lambda>p. p\<lparr>channels := tbl, channel_list := cl\<rparr>)) (\<lambda>k.
     Inr ((kfree_object k ch)\<lparr>chans := (chans k)(ch := None)\<rparr>))))))))"

primrec channel_decref :: "nat \<Rightarrow> kernel \<Rightarrow> addr \<Rightarrow> kernel res" where
  "channel_decref 0 = (\<lambda>k ch. Inl NoFuel)"
| "channel_decref (Suc fuel) = (\<lambda>k ch.
     rbind (get_chan k ch) (\<lambda>c.
     rbind (require Assertion (ref_count c \<ge> 1)) (\<lambda>_.
     rbind (upd_chan k ch (\<lambda>c. c\<lparr>ref_count := ref_count c - 1\<rparr>)) (\<lambda>k.
     if ref_count c - 1 > 0 then Inr k
     else
       rbind (channel_link_with (channel_decref fuel) k ch ch) (\<lambda>k.
       rbind (channel_transfer_with (channel_decref fuel) k ch ch) (\<lambda>k.
       channel_release k ch))))))"

text \<open>The object arena holds 16384 objects, hence at most that many channels.\<close>

definition CHAN_FUEL :: nat where "CHAN_FUEL = 16386"

definition channel_link :: "kernel \<Rightarrow> addr \<Rightarrow> addr \<Rightarrow> kernel res" where
  "channel_link = channel_link_with (channel_decref CHAN_FUEL)"

definition channel_transfer :: "kernel \<Rightarrow> addr \<Rightarrow> addr \<Rightarrow> kernel res" where
  "channel_transfer = channel_transfer_with (channel_decref CHAN_FUEL)"

definition channel_destroy :: "kernel \<Rightarrow> addr \<Rightarrow> kernel res" where
  "channel_destroy k ch =
     rbind (upd_chan k ch (\<lambda>c. c\<lparr>destructed := True\<rparr>)) (\<lambda>k. channel_decref CHAN_FUEL k ch)"

definition notify_receiver :: "kernel \<Rightarrow> addr \<Rightarrow> kernel res" where
  "notify_receiver k dst =
     rbind (get_chan k dst) (\<lambda>d.
     if receiver d \<noteq> 0 then
       rbind (upd_thread k (receiver d) (\<lambda>th.
         upd_buf (on_kernel_buffer th) (\<lambda>m. m\<lparr>header := NOTIFICATION_MSG, msg_from := 0\<rparr>) th)) (\<lambda>k.
       rbind (thread_resume k (receiver d)) (\<lambda>k.
       upd_chan k dst (\<lambda>d. d\<lparr>receiver := 0\<rparr>)))
     else Inr k)"

definition channel_notify :: "kernel \<Rightarrow> addr \<Rightarrow> u32 \<Rightarrow> (error_t \<times> kernel) res" where
  "channel_notify k ch n =
     rbind (get_chan k ch) (\<lambda>c.
     rbind (get_chan k (linked_with c)) (\<lambda>l.
     let dst = transfer_to l in
     rbind (upd_chan k dst (\<lambda>d. d\<lparr>ch_notification := ch_notification d OR n\<rparr>)) (\<lambda>k.
     rbind (notify_receiver k dst) (\<lambda>k. Inr (OK, k)))))"

section \<open>Termination of dropping references\<close>

definition counted :: "kernel \<Rightarrow> addr set" where
  "counted k = {c. \<exists>x. chans k c = Some x \<and> 1 \<le> ref_count x}"

lemma thread_ops_chans:
  "upd_thread k t f = Inr k' \<Longrightarrow> chans k' = chans k"
  "thread_resume k t = Inr k' \<Longrightarrow> chans k' = chans k"
  "upd_proc k p g = Inr k' \<Longrightarrow> chans k' = chans k"
  by (auto simp: thread_resume_def split: if_splits)

lemma channel_release_chans:
  assumes "channel_release k ch = Inr k'"
  shows "chans k' = (chans k)(ch := None)"
  using assms unfolding channel_release_def
  by (auto dest!: thread_ops_chans(2) simp: kfree_object_def split: if_splits)

lemma channel_release_counted:
  "channel_release k ch = Inr k' \<Longrightarrow> counted k' \<subseteq> counted k"
  by (auto dest!: channel_release_chans simp: counted_def split: if_splits)

lemma thread_resume_fuel: "thread_resume k t \<noteq> Inl NoFuel"
  by (auto simp: thread_resume_def rbind_eq_Inl kdefs)

lemma channel_release_fuel: "channel_release k ch \<noteq> Inl NoFuel"
  using thread_resume_fuel
  by (auto simp: channel_release_def rbind_eq_Inl kdefs table_free_def store_slot_def list_del_def
      split: if_splits)

lemma counted_upd:
  assumes "chans k c = Some x" "ref_count (f x) \<le> ref_count x"
  shows "counted (k\<lparr>chans := (chans k)(c \<mapsto> f x)\<rparr>) \<subseteq> counted k"
  using assms by (auto simp: counted_def split: if_splits)

text \<open>
  A result within a set of counted channels: it is no cut-off execution, and the
  counted channels of the new state are in the set.
\<close>

definition within :: "addr set \<Rightarrow> kernel res \<Rightarrow> bool" where
  "within S m \<longleftrightarrow> m \<noteq> Inl NoFuel \<and> (\<forall>k'. m = Inr k' \<longrightarrow> counted k' \<subseteq> S)"

lemma within_rbind:
  assumes "within S m" "\<And>k. counted k \<subseteq> S \<Longrightarrow> within S (f k)"
  shows "within S (rbind m f)"
  using assms by (cases m) (auto simp: within_def)

lemma within_Inr [simp]: "within S (Inr k) \<longleftrightarrow> counted k \<subseteq> S"
  by (auto simp: within_def)

lemma within_get_chan:
  "(\<And>c. chans k ch = Some c \<Longrightarrow> within S (f c)) \<Longrightarrow> within S (rbind (get_chan k ch) f)"
  by (cases "chans k ch") (auto simp: within_def kdefs deref_def)

lemma within_require:
  "e \<noteq> NoFuel \<Longrightarrow> (b \<Longrightarrow> within S (f ())) \<Longrightarrow> within S (rbind (require e b) f)"
  by (cases b) (auto simp: within_def)

lemma within_upd_chan:
  "counted k \<subseteq> S \<Longrightarrow> (\<And>x. ref_count (f x) \<le> ref_count x) \<Longrightarrow> within S (upd_chan k c f)"
  using counted_upd[of k c _ f] by (auto simp: within_def kdefs deref_def split: option.splits)

lemma within_release: "counted k \<subseteq> S \<Longrightarrow> within S (channel_release k ch)"
  using channel_release_fuel channel_release_counted by (fastforce simp: within_def)

lemmas within_intros = within_rbind within_get_chan within_require within_upd_chan within_release

text \<open>What one call of the reference drop may assume about the calls it makes.\<close>

definition drops :: "(kernel \<Rightarrow> addr \<Rightarrow> kernel res) \<Rightarrow> addr set \<Rightarrow> bool" where
  "drops decref S \<longleftrightarrow> (\<forall>k ch. counted k \<subseteq> S \<longrightarrow> within S (decref k ch))"

lemma link_self_within:
  "drops decref S \<Longrightarrow> counted k \<subseteq> S \<Longrightarrow> within S (channel_link_with decref k ch ch)"
  unfolding channel_link_with_def drops_def
  by (auto intro!: within_intros)

lemma transfer_self_within:
  "drops decref S \<Longrightarrow> counted k \<subseteq> S \<Longrightarrow> within S (channel_transfer_with decref k ch ch)"
  unfolding channel_transfer_with_def drops_def
  by (auto intro!: within_intros)

lemma channel_decref_drops:
  "finite S \<Longrightarrow> card S < fuel \<Longrightarrow> drops (channel_decref fuel) S"
proof (induction fuel arbitrary: S)
  case (Suc fuel)
  show ?case unfolding drops_def
  proof (intro allI impI)
    fix k ch assume sub: "counted k \<subseteq> S"
    show "within S (channel_decref (Suc fuel) k ch)"
      unfolding channel_decref.simps
    proof (intro within_get_chan within_require; simp?)
      fix c assume c: "chans k ch = Some c" "1 \<le> ref_count c"
      let ?k = "k\<lparr>chans := (chans k)(ch \<mapsto> c\<lparr>ref_count := ref_count c - 1\<rparr>)\<rparr>"
      have run: "upd_chan k ch (\<lambda>c. c\<lparr>ref_count := ref_count c - 1\<rparr>) = Inr ?k"
        using c by (simp add: kdefs deref_def)
      have small: "counted ?k \<subseteq> counted k" using counted_upd[OF c(1)] by auto
      let ?rest = "\<lambda>k. rbind (channel_link_with (channel_decref fuel) k ch ch)
          (\<lambda>k. rbind (channel_transfer_with (channel_decref fuel) k ch ch) (\<lambda>k. channel_release k ch))"
      have rest: "within S (?rest ?k)" if z: "\<not> 1 < ref_count c"
      proof -
        have "ch \<notin> counted ?k" "ch \<in> counted k" using c z by (auto simp: counted_def)
        then have lt: "counted ?k \<subseteq> S - {ch}" "ch \<in> S" using small sub by auto
        have "card (S - {ch}) < fuel" using Suc.prems lt(2) card_gt_0_iff[of S] by (auto simp: card_Diff_singleton)
        then have d: "drops (channel_decref fuel) (S - {ch})" using Suc.IH Suc.prems by simp
        have "within (S - {ch}) (?rest ?k)"
          by (intro within_rbind link_self_within[OF d] transfer_self_within[OF d] within_release lt)
        then show ?thesis by (auto simp: within_def)
      qed
      show "within S (rbind (upd_chan k ch (\<lambda>c. c\<lparr>ref_count := ref_count c - 1\<rparr>))
          (\<lambda>k. if 1 < ref_count c then Inr k else ?rest k))"
      proof (cases "1 < ref_count c")
        case True
        then show ?thesis unfolding run rbind.simps using small sub by simp
      next
        case False
        then show ?thesis unfolding run rbind.simps using rest[OF False] by (simp only: if_False)
      qed
    qed
  qed
qed simp

lemma channel_decref_fuel:
  assumes "finite (counted k)" "card (counted k) < fuel"
  shows "channel_decref fuel k ch \<noteq> Inl NoFuel"
  using channel_decref_drops[OF assms] by (auto simp: drops_def within_def)

section \<open>Waiting threads\<close>

text \<open>
  The threads that wait at a channel: its receiver and its senders. A waiting
  thread is live, blocked and not the idle thread, and it waits at one place only.
\<close>

definition waiters :: "channel \<Rightarrow> addr list" where
  "waiters c = (if receiver c = 0 then [] else [receiver c]) @ queue c"

definition wait_inv :: "kernel \<Rightarrow> bool" where
  "wait_inv k \<longleftrightarrow>
     (\<forall>c x. chans k c = Some x \<longrightarrow> distinct (waiters x)) \<and>
     (\<forall>c x t. chans k c = Some x \<longrightarrow> t \<in> set (waiters x) \<longrightarrow>
        t \<noteq> idle_thread k \<and> (\<exists>th. threads k t = Some th \<and> blocked th)) \<and>
     (\<forall>c d x y t. chans k c = Some x \<longrightarrow> chans k d = Some y \<longrightarrow>
        t \<in> set (waiters x) \<longrightarrow> t \<in> set (waiters y) \<longrightarrow> c = d)"

definition ipc_inv :: "kernel \<Rightarrow> bool" where
  "ipc_inv k \<longleftrightarrow> sched_inv k \<and> wait_inv k"

text \<open>The current thread is not blocked, or it is the idle thread.\<close>

definition running :: "kernel \<Rightarrow> bool" where
  "running k \<longleftrightarrow> current k = idle_thread k \<or> (\<exists>th. threads k (current k) = Some th \<and> \<not> blocked th)"

text \<open>
  A state transformation that moves no thread: the scheduler sees the same
  threads, and every channel has the same or fewer waiters.
\<close>

definition fewer_waiters :: "kernel \<Rightarrow> kernel \<Rightarrow> bool" where
  "fewer_waiters k k' \<longleftrightarrow>
     (\<forall>c y. chans k' c = Some y \<longrightarrow> waiters y = [] \<or>
        (\<exists>x. chans k c = Some x \<and> set (waiters y) \<subseteq> set (waiters x) \<and>
             (distinct (waiters x) \<longrightarrow> distinct (waiters y))))"

definition same_sched :: "kernel \<Rightarrow> kernel \<Rightarrow> bool" where
  "same_sched k k' \<longleftrightarrow> runqueue k' = runqueue k \<and> current k' = current k \<and> idle_thread k' = idle_thread k \<and>
     map_option blocked \<circ> threads k' = map_option blocked \<circ> threads k"

definition quiet :: "kernel \<Rightarrow> kernel \<Rightarrow> bool" where
  "quiet k k' \<longleftrightarrow> same_sched k k' \<and> fewer_waiters k k'"

lemma same_schedD:
  assumes "same_sched k k'"
  shows "(\<exists>th. threads k' t = Some th \<and> blocked th) \<longleftrightarrow> (\<exists>th. threads k t = Some th \<and> blocked th)"
    "(\<exists>th. threads k' t = Some th \<and> \<not> blocked th) \<longleftrightarrow> (\<exists>th. threads k t = Some th \<and> \<not> blocked th)"
    "idle_thread k' = idle_thread k" "current k' = current k" "runqueue k' = runqueue k"
proof -
  have "map_option blocked (threads k' t) = map_option blocked (threads k t)"
    using assms unfolding same_sched_def by (metis comp_apply)
  then show "(\<exists>th. threads k' t = Some th \<and> blocked th) \<longleftrightarrow> (\<exists>th. threads k t = Some th \<and> blocked th)"
    "(\<exists>th. threads k' t = Some th \<and> \<not> blocked th) \<longleftrightarrow> (\<exists>th. threads k t = Some th \<and> \<not> blocked th)"
    by (cases "threads k' t"; cases "threads k t"; auto)+
qed (use assms in \<open>auto simp: same_sched_def\<close>)

lemma fewer_waiters_inv:
  assumes "wait_inv k" "fewer_waiters k k'" "same_sched k k'"
  shows "wait_inv k'"
proof -
  have src: "\<exists>x. chans k c = Some x \<and> t \<in> set (waiters x)" if "chans k' c = Some y" "t \<in> set (waiters y)" for c y t
    using assms(2) that unfolding fewer_waiters_def by fastforce
  show ?thesis unfolding wait_inv_def
  proof (intro conjI allI impI)
    fix c x assume "chans k' c = Some x"
    then show "distinct (waiters x)"
      using assms(1,2) unfolding fewer_waiters_def wait_inv_def by (metis distinct.simps(1))
  next
    fix c x t assume "chans k' c = Some x" "t \<in> set (waiters x)"
    then have "t \<noteq> idle_thread k \<and> (\<exists>th. threads k t = Some th \<and> blocked th)"
      using src assms(1) unfolding wait_inv_def by blast
    then show "t \<noteq> idle_thread k'" "\<exists>th. threads k' t = Some th \<and> blocked th"
      using same_schedD[OF assms(3)] by auto
  next
    fix c d x y t assume "chans k' c = Some x" "chans k' d = Some y" "t \<in> set (waiters x)" "t \<in> set (waiters y)"
    then show "c = d" using src assms(1) unfolding wait_inv_def by metis
  qed
qed

lemma same_sched_inv: "same_sched k k' \<Longrightarrow> sched_inv k' = sched_inv k"
  unfolding same_sched_def by (rule sched_inv_cong) blast+

lemma quiet_inv: "quiet k k' \<Longrightarrow> ipc_inv k \<Longrightarrow> ipc_inv k'"
  unfolding quiet_def ipc_inv_def by (metis fewer_waiters_inv same_sched_inv)

lemma quiet_running:
  assumes "quiet k k'" shows "running k' = running k"
proof -
  have ss: "same_sched k k'" using assms by (simp add: quiet_def)
  show ?thesis unfolding running_def same_schedD(3,4)[OF ss] same_schedD(2)[OF ss] ..
qed

lemma fewer_waiters_trans:
  assumes "fewer_waiters k1 k2" "fewer_waiters k2 k3"
  shows "fewer_waiters k1 k3"
  unfolding fewer_waiters_def
proof (intro allI impI)
  fix c z assume z: "chans k3 c = Some z"
  show "waiters z = [] \<or> (\<exists>x. chans k1 c = Some x \<and> set (waiters z) \<subseteq> set (waiters x) \<and>
      (distinct (waiters x) \<longrightarrow> distinct (waiters z)))"
  proof (cases "waiters z = []")
    case False
    then obtain y where y: "chans k2 c = Some y" "set (waiters z) \<subseteq> set (waiters y)"
      "distinct (waiters y) \<longrightarrow> distinct (waiters z)"
      using assms(2) z unfolding fewer_waiters_def by blast
    then have "waiters y \<noteq> []" using False by auto
    then obtain x where "chans k1 c = Some x" "set (waiters y) \<subseteq> set (waiters x)"
      "distinct (waiters x) \<longrightarrow> distinct (waiters y)"
      using assms(1) y(1) unfolding fewer_waiters_def by blast
    then show ?thesis using y by blast
  qed simp
qed

lemma same_sched_trans: "same_sched k1 k2 \<Longrightarrow> same_sched k2 k3 \<Longrightarrow> same_sched k1 k3"
  by (simp add: same_sched_def)

lemma quiet_trans: "quiet k1 k2 \<Longrightarrow> quiet k2 k3 \<Longrightarrow> quiet k1 k3"
  unfolding quiet_def by (blast intro: fewer_waiters_trans same_sched_trans)

lemma quiet_refl [simp]: "quiet k k"
  by (auto simp: quiet_def same_sched_def fewer_waiters_def)

lemma quiet_upd_chan:
  assumes "chans k c = Some x" "set (waiters (f x)) \<subseteq> set (waiters x)" "distinct (waiters x) \<longrightarrow> distinct (waiters (f x))"
  shows "quiet k (k\<lparr>chans := (chans k)(c \<mapsto> f x)\<rparr>)"
  using assms by (auto simp: quiet_def same_sched_def fewer_waiters_def)

lemma quiet_same_chans: "same_sched k k' \<Longrightarrow> chans k' = chans k \<Longrightarrow> quiet k k'"
  by (simp add: quiet_def fewer_waiters_def)

lemma quiet_upd_thread:
  assumes "threads k t = Some th" "blocked (f th) = blocked th"
  shows "quiet k (k\<lparr>threads := (threads k)(t \<mapsto> f th)\<rparr>)"
  by (rule quiet_same_chans) (simp_all add: same_sched_def fun_eq_iff assms)

lemma upd_thread_quiet:
  "upd_thread k t f = Inr k' \<Longrightarrow> (\<And>th. blocked (f th) = blocked th) \<Longrightarrow> quiet k k'"
  using quiet_upd_thread[of k t _ f] by auto

lemma quiet_upd_proc: "upd_proc k p f = Inr k' \<Longrightarrow> quiet k k'"
  by (auto intro!: quiet_same_chans simp: same_sched_def)

section \<open>Resuming a waiting thread\<close>

lemma thread_resume_cases:
  assumes "thread_resume k t = Inr k'"
  obtains (noop) th where "threads k t = Some th" "\<not> blocked th" "k' = k"
  | (resumed) th where "threads k t = Some th" "blocked th"
      "k' = k\<lparr>threads := (threads k)(t \<mapsto> th\<lparr>blocked := False\<rparr>), runqueue := runqueue k @ [t]\<rparr>"
proof -
  obtain th where th: "threads k t = Some th" using assms by (auto simp: thread_resume_def)
  show thesis
  proof (cases "blocked th")
    case True
    then have "k' = k\<lparr>threads := (threads k)(t \<mapsto> th\<lparr>blocked := False\<rparr>), runqueue := runqueue k @ [t]\<rparr>"
      using assms th by (simp add: thread_resume_def kdefs deref_def)
    then show thesis by (rule resumed[OF th True])
  next
    case False
    then have "k' = k" using assms th by (simp add: thread_resume_def kdefs deref_def)
    then show thesis by (rule noop[OF th False])
  qed
qed

lemma thread_resume_frame:
  assumes "thread_resume k t = Inr k'"
  shows "current k' = current k" "idle_thread k' = idle_thread k" "chans k' = chans k" "procs k' = procs k"
    "t' \<noteq> t \<Longrightarrow> threads k' t' = threads k t'"
  using assms by (cases rule: thread_resume_cases; simp)+

text \<open>
  The state \<open>k'\<close> in which a waiting thread has been resumed and has left the
  channel it waited at, whatever else was changed outside the scheduler.
\<close>

lemma resume_inv:
  assumes inv: "ipc_inv k" and res: "thread_resume k t = Inr k1" and t: "t \<noteq> current k" "t \<noteq> idle_thread k"
    and same: "same_sched k1 k'" and few: "fewer_waiters k k'"
    and gone: "\<And>c y. chans k' c = Some y \<Longrightarrow> t \<notin> set (waiters y)"
  shows "ipc_inv k'"
proof -
  have k1: "idle_thread k1 = idle_thread k" "\<And>t'. t' \<noteq> t \<Longrightarrow> threads k1 t' = threads k t'"
    using thread_resume_frame[OF res] by auto
  have w: "wait_inv k" and s: "sched_inv k" using inv by (auto simp: ipc_inv_def)
  have src: "\<exists>x. chans k c = Some x \<and> t' \<in> set (waiters x) \<and> (distinct (waiters x) \<longrightarrow> distinct (waiters y))"
    if "chans k' c = Some y" "t' \<in> set (waiters y)" for c y t'
    using few that unfolding fewer_waiters_def by fastforce
  have "sched_inv k'"
    using thread_resume_sched_inv[OF s res t] same_sched_inv[OF same] by simp
  moreover have "wait_inv k'" unfolding wait_inv_def
  proof (intro conjI allI impI)
    fix c y assume y: "chans k' c = Some y"
    show "distinct (waiters y)"
    proof (cases "waiters y")
      case (Cons t' ts)
      then show ?thesis using src[OF y, of t'] w unfolding wait_inv_def by auto
    qed simp
  next
    fix c y t' assume y: "chans k' c = Some y" "t' \<in> set (waiters y)"
    then have "t' \<noteq> t" using gone by blast
    moreover have "t' \<noteq> idle_thread k \<and> (\<exists>th. threads k t' = Some th \<and> blocked th)"
      using src[OF y] w unfolding wait_inv_def by blast
    ultimately show "t' \<noteq> idle_thread k'" "\<exists>th. threads k' t' = Some th \<and> blocked th"
      using same_schedD(1)[OF same, of t'] same_schedD(3)[OF same] k1 by auto
  next
    fix c d x y t' assume "chans k' c = Some x" "chans k' d = Some y" "t' \<in> set (waiters x)" "t' \<in> set (waiters y)"
    then show "c = d" using src w unfolding wait_inv_def by metis
  qed
  ultimately show ?thesis by (simp add: ipc_inv_def)
qed

text \<open>A waiting thread is neither current (while the current thread runs) nor idle.\<close>

lemma waiter_facts:
  assumes "ipc_inv k" "running k" "chans k c = Some x" "t \<in> set (waiters x)"
  shows "t \<noteq> current k" "t \<noteq> idle_thread k" "\<exists>th. threads k t = Some th \<and> blocked th"
    "chans k d = Some y \<Longrightarrow> t \<in> set (waiters y) \<Longrightarrow> d = c"
proof -
  have w: "t \<noteq> idle_thread k" "\<exists>th. threads k t = Some th \<and> blocked th"
    using assms(1,3,4) unfolding ipc_inv_def wait_inv_def by blast+
  then show "t \<noteq> idle_thread k" "\<exists>th. threads k t = Some th \<and> blocked th" by blast+
  show "t \<noteq> current k" using w assms(2) by (auto simp: running_def)
  show "d = c" if "chans k d = Some y" "t \<in> set (waiters y)"
    using assms(1,3,4) that unfolding ipc_inv_def wait_inv_def by blast
qed

text \<open>
  The state while thread \<open>me\<close> is current: the invariant holds, \<open>me\<close> runs, and the
  threads of \<open>R\<close> wait at no channel.
\<close>

definition unwaited :: "kernel \<Rightarrow> addr set \<Rightarrow> bool" where
  "unwaited k R \<longleftrightarrow> (\<forall>c x. chans k c = Some x \<longrightarrow> set (waiters x) \<inter> R = {})"

definition good :: "addr \<Rightarrow> addr \<Rightarrow> addr set \<Rightarrow> kernel \<Rightarrow> bool" where
  "good me idle R k \<longleftrightarrow> ipc_inv k \<and> running k \<and> current k = me \<and> idle_thread k = idle \<and> unwaited k R"

lemma unwaited_fewer: "fewer_waiters k k' \<Longrightarrow> unwaited k R \<Longrightarrow> unwaited k' R"
  unfolding fewer_waiters_def unwaited_def by fastforce

lemma resume_good:
  assumes "good me idle R k" and res: "thread_resume k t = Inr k1" and t: "t \<noteq> current k" "t \<noteq> idle_thread k"
    and same: "same_sched k1 k'" and few: "fewer_waiters k k'"
    and gone: "\<And>c y. chans k' c = Some y \<Longrightarrow> t \<notin> set (waiters y)"
  shows "good me idle R k'"
proof -
  have "threads k1 (current k) = threads k (current k)" "current k1 = current k"
    "idle_thread k1 = idle_thread k"
    using thread_resume_frame[OF res] t by auto
  then have "running k1" using assms(1) by (auto simp: good_def running_def)
  then have "running k'"
    unfolding running_def same_schedD(3,4)[OF same] same_schedD(2)[OF same] .
  then show ?thesis
    using resume_inv[OF _ res t same few gone] assms(1) thread_resume_frame(1,2)[OF res] same_schedD(3,4)[OF same]
      unwaited_fewer[OF few]
    by (simp add: good_def)
qed

lemma quiet_good: "quiet k k' \<Longrightarrow> good me idle R k \<Longrightarrow> good me idle R k'"
  using quiet_inv[of k k'] quiet_running[of k k'] unwaited_fewer[of k k']
  unfolding good_def quiet_def same_sched_def by simp

section \<open>Every channel operation keeps the invariant\<close>

lemma new_channel_waiters [simp]: "waiters (new_channel p a i) = []"
  by (simp add: waiters_def new_channel_def)

lemma waiters_updates [simp]:
  "waiters (c\<lparr>ref_count := r\<rparr>) = waiters c" "waiters (c\<lparr>linked_with := l\<rparr>) = waiters c"
  "waiters (c\<lparr>transfer_to := l\<rparr>) = waiters c" "waiters (c\<lparr>destructed := d\<rparr>) = waiters c"
  "waiters (c\<lparr>ch_notification := n\<rparr>) = waiters c"
  by (simp_all add: waiters_def)

lemma kalloc_object_frame:
  "kalloc_object k sz = Inr (a, k') \<Longrightarrow> \<exists>ar. k' = k\<lparr>object_arena := ar\<rparr>"
  by (auto simp: kalloc_object_def rmap_def)

lemma channel_create_effect:
  "returns (\<lambda>(a, k'). threads k' = threads k \<and> runqueue k' = runqueue k \<and> current k' = current k \<and>
     idle_thread k' = idle_thread k \<and>
     (chans k' = chans k \<or> (\<exists>i. chans k' = (chans k)(a \<mapsto> new_channel p a i)))) (channel_create k p)"
  unfolding channel_create_def
  by (auto intro!: returns_rbind_eq dest!: kalloc_object_frame simp: Let_def) blast

lemma channel_create_quiet: "channel_create k p = Inr (a, k') \<Longrightarrow> quiet k k'"
  using returnsD[OF channel_create_effect]
  by (fastforce simp: quiet_def same_sched_def fewer_waiters_def split: if_splits)

lemma upd_chan_quiet:
  "upd_chan k c f = Inr k' \<Longrightarrow> (\<And>x. waiters (f x) = waiters x) \<Longrightarrow> quiet k k'"
  using quiet_upd_chan[of k c _ f] by auto

lemma channel_incref_quiet: "channel_incref k ch = Inr k' \<Longrightarrow> quiet k k'"
  unfolding channel_incref_def by (auto dest: upd_chan_quiet simp del: upd_chan_eq)

lemma link_quiet:
  "ch1 \<noteq> ch2 \<Longrightarrow> returns (quiet k) (channel_link_with decref k ch1 ch2)"
  unfolding channel_link_with_def
  by (auto simp: returns_def dest!: channel_incref_quiet upd_chan_quiet simp del: upd_chan_eq
      intro: quiet_trans)

lemma transfer_quiet:
  "src \<noteq> dst \<Longrightarrow> returns (quiet k) (channel_transfer_with decref k src dst)"
  unfolding channel_transfer_with_def
  by (auto simp: returns_def dest!: channel_incref_quiet upd_chan_quiet simp del: upd_chan_eq
      intro: quiet_trans)

lemma returns_get_chan:
  "(\<And>c. chans k ch = Some c \<Longrightarrow> returns P (f c)) \<Longrightarrow> returns P (rbind (get_chan k ch) f)"
  by (rule returns_rbind_eq) simp

lemma returns_get_thread:
  "(\<And>th. threads k t = Some th \<Longrightarrow> returns P (f th)) \<Longrightarrow> returns P (rbind (get_thread k t) f)"
  by (rule returns_rbind_eq) simp

lemma returns_get_proc:
  "(\<And>x. procs k p = Some x \<Longrightarrow> returns P (f x)) \<Longrightarrow> returns P (rbind (get_proc k p) f)"
  by (rule returns_rbind_eq) simp

lemmas returns_gets = returns_get_chan returns_get_thread returns_get_proc returns_require

lemma returns_upd_chan_good:
  "good me idle R k \<Longrightarrow> (\<And>x. waiters (f x) = waiters x) \<Longrightarrow> returns (good me idle R) (upd_chan k c f)"
  by (auto simp: returns_def simp del: upd_chan_eq dest!: upd_chan_quiet intro: quiet_good)

lemma link_self_good:
  assumes "\<And>k ch. good me idle R k \<Longrightarrow> returns (good me idle R) (decref k ch)" "good me idle R k"
  shows "returns (good me idle R) (channel_link_with decref k ch ch)"
  unfolding channel_link_with_def
  using assms by (auto intro!: returns_gets returns_rbind[where Q = "good me idle R"] returns_upd_chan_good)

lemma transfer_self_good:
  assumes "\<And>k ch. good me idle R k \<Longrightarrow> returns (good me idle R) (decref k ch)" "good me idle R k"
  shows "returns (good me idle R) (channel_transfer_with decref k ch ch)"
  unfolding channel_transfer_with_def
  using assms by (auto intro!: returns_gets returns_rbind[where Q = "good me idle R"] returns_upd_chan_good)

text \<open>Releasing a channel resumes its receiver, which no longer waits since the channel is gone.\<close>

lemma channel_release_good:
  assumes "good me idle R k" shows "returns (good me idle R) (channel_release k ch)"
  unfolding returns_def
proof (intro allI impI)
  fix k' assume run: "channel_release k ch = Inr k'"
  obtain c where c: "chans k ch = Some c" using run by (auto simp: channel_release_def)
  have few: "fewer_waiters k k'"
    using channel_release_chans[OF run] by (auto simp: fewer_waiters_def split: if_splits)
  show "good me idle R k'"
  proof (cases "receiver c = 0")
    case True
    then have "same_sched k k'" using run c
      by (auto simp: channel_release_def kfree_object_def same_sched_def)
    then show ?thesis using few assms quiet_good by (auto simp: quiet_def)
  next
    case False
    let ?r = "receiver c"
    have w: "?r \<in> set (waiters c)" using False by (simp add: waiters_def)
    note facts = waiter_facts[OF _ _ c w]
    obtain k0 k1 where k0: "upd_thread k ?r (\<lambda>th. th\<lparr>abort_reason := ERR_CHANNEL_CLOSED\<rparr>) = Inr k0"
      and k1: "thread_resume k0 ?r = Inr k1" and same: "same_sched k1 k'"
      using run c False by (auto simp: channel_release_def kfree_object_def same_sched_def simp del: upd_thread_eq)
    have q0: "quiet k k0" by (rule upd_thread_quiet[OF k0]) simp
    have g0: "good me idle R k0" by (rule quiet_good[OF q0 assms])
    have ch0: "chans k0 = chans k" using k0 by auto
    have gone: "?r \<notin> set (waiters y)" if "chans k' d = Some y" for d y
      using that facts(4)[of d y] assms channel_release_chans[OF run] by (auto simp: good_def split: if_splits)
    have "current k0 = current k" "idle_thread k0 = idle_thread k" using k0 by auto
    then show ?thesis
      using g0 facts assms few gone ch0
      by (intro resume_good[OF g0 k1 _ _ same]) (auto simp: good_def fewer_waiters_def)
  qed
qed

lemma channel_decref_good: "good me idle R k \<Longrightarrow> returns (good me idle R) (channel_decref fuel k ch)"
proof (induction fuel arbitrary: k ch)
  case (Suc fuel)
  then show ?case unfolding channel_decref.simps
    by (auto intro!: returns_gets returns_rbind[where Q = "good me idle R"] returns_upd_chan_good
        link_self_good transfer_self_good channel_release_good)
qed simp

lemma channel_link_good:
  assumes "good me idle R k" shows "returns (good me idle R) (channel_link k ch1 ch2)"
proof (cases "ch1 = ch2")
  case True
  then show ?thesis using assms channel_decref_good by (simp add: channel_link_def link_self_good)
next
  case False
  then show ?thesis
    using link_quiet quiet_good[OF _ assms] unfolding channel_link_def by (blast intro: returns_mono)
qed

lemma channel_transfer_good:
  assumes "good me idle R k" shows "returns (good me idle R) (channel_transfer k src dst)"
proof (cases "src = dst")
  case True
  then show ?thesis using assms channel_decref_good by (simp add: channel_transfer_def transfer_self_good)
next
  case False
  then show ?thesis
    using transfer_quiet quiet_good[OF _ assms] unfolding channel_transfer_def by (blast intro: returns_mono)
qed

lemma channel_destroy_good: "good me idle R k \<Longrightarrow> returns (good me idle R) (channel_destroy k ch)"
  unfolding channel_destroy_def
  by (auto intro!: returns_rbind[where Q = "good me idle R"] returns_upd_chan_good channel_decref_good)

lemma returns_upd_thread_good:
  "good me idle R k \<Longrightarrow> (\<And>th. blocked (f th) = blocked th) \<Longrightarrow> returns (good me idle R) (upd_thread k t f)"
  by (auto simp: returns_def simp del: upd_thread_eq dest!: upd_thread_quiet intro: quiet_good)

lemma waiters_no_receiver: "set (waiters (c\<lparr>receiver := 0\<rparr>)) = set (queue c)"
  by (simp add: waiters_def)

text \<open>Resuming the receiver of a channel and clearing the field afterwards.\<close>

lemma resume_receiver_good:
  assumes g: "good me idle R k" and d: "chans k dst = Some d" and r: "receiver d \<noteq> 0"
    and k1: "thread_resume k (receiver d) = Inr k1"
    and k': "k' = k1\<lparr>chans := (chans k1)(dst \<mapsto> d\<lparr>receiver := 0\<rparr>)\<rparr>"
  shows "good me idle R k'"
proof -
  have w: "receiver d \<in> set (waiters d)" using r by (simp add: waiters_def)
  have inv: "ipc_inv k" "running k" using g by (auto simp: good_def)
  note facts = waiter_facts[OF inv d w]
  have dist: "distinct (waiters d)" using inv(1) d by (auto simp: ipc_inv_def wait_inv_def)
  have chans1: "chans k1 = chans k" using thread_resume_frame[OF k1] by simp
  have same: "same_sched k1 k'" by (simp add: k' same_sched_def)
  have few: "fewer_waiters k k'"
    using d r by (auto simp: fewer_waiters_def k' chans1 waiters_def)
  have gone: "receiver d \<notin> set (waiters y)" if "chans k' c = Some y" for c y
    using that facts(4)[of c y] dist r by (auto simp: k' chans1 waiters_def split: if_splits)
  show ?thesis by (rule resume_good[OF g k1 facts(1,2) same few gone])
qed

lemma notify_receiver_good:
  assumes g: "good me idle R k" shows "returns (good me idle R) (notify_receiver k dst)"
  unfolding notify_receiver_def
proof (intro returns_gets, split if_split, intro conjI impI returns_rbind_eq, goal_cases)
  case (1 d k1 k2)
  have "good me idle R k1" using returnsD[OF returns_upd_thread_good[OF g] 1(3)] by simp
  moreover have "chans k1 dst = Some d" using 1(1,3) by auto
  moreover have "chans k2 dst = Some d" using thread_resume_frame[OF 1(4)] calculation by simp
  ultimately show ?case using resume_receiver_good[OF _ _ 1(2) 1(4)] by (auto simp: returns_def)
qed (simp add: g)

lemma channel_notify_good:
  "good me idle R k \<Longrightarrow> returns (\<lambda>(e, k'). good me idle R k') (channel_notify k ch n)"
  unfolding channel_notify_def Let_def
  by (auto intro!: returns_gets returns_rbind[where Q = "good me idle R"] returns_upd_chan_good notify_receiver_good)

end
