(* ===== verification/IPC.thy ===== *)
theory IPC
  imports Channels
begin

text \<open>
  Inter-process communication: kernel/ipc.c together with the page fault handler
  of kernel/memory.c and the user pager of kernel/server.c, which the send phase
  may enter. A system call runs until it returns or until it switches to another
  thread; what is left to do is then a frame of the thread. Whoever runs next
  continues with \<open>after_switch\<close> (it comes out of its own \<open>thread_switch\<close>) or
  \<open>after_call\<close> (a function that it called has returned).
\<close>

section \<open>Parameters\<close>

text \<open>
  The message identifiers and payload accessors are generated from the IDL files
  when the kernel is built; the operations that need them take them as a record.
\<close>

record idl =
  PAGER_FILL_MSG :: u32
  PAGER_FILL_REPLY_MSG :: u32
  set_pager_fill :: "int \<Rightarrow> addr \<Rightarrow> message \<Rightarrow> message"
  pager_fill_reply_page :: "message \<Rightarrow> u64"

datatype outcome = Return retval | Switched | CallIpc int u32

section \<open>Memory areas and page faults\<close>

definition PF_PRESENT :: u64 where "PF_PRESENT = 1"
definition PF_WRITE :: u64 where "PF_WRITE = 2"
definition PF_USER :: u64 where "PF_USER = 4"
definition INITFS_ADDR :: addr where "INITFS_ADDR = 0x1000000"

definition vmarea_create ::
  "kernel \<Rightarrow> addr \<Rightarrow> addr \<Rightarrow> addr \<Rightarrow> pager_t \<Rightarrow> addr \<Rightarrow> u64 \<Rightarrow> (error_t \<times> kernel) res"
where
  "vmarea_create k proc start stop pgr arg flags =
     rbind (kalloc_object k sizeof_vmarea) (\<lambda>(a, k).
     if a = 0 then Inr (ERR_OUT_OF_MEMORY, k)
     else
       let k = k\<lparr>vmas := (vmas k)(a \<mapsto>
             \<lparr>vma_start = start, vma_end = stop, pager = pgr, vma_arg = arg, vma_flags = flags\<rparr>)\<rparr> in
       rbind (upd_proc k proc (\<lambda>p. p\<lparr>vmareas := vmareas p @ [a]\<rparr>)) (\<lambda>k. Inr (OK, k)))"

text \<open>Removes an area from the list of its process.\<close>

definition vmarea_destroy :: "kernel \<Rightarrow> addr \<Rightarrow> addr \<Rightarrow> kernel res" where
  "vmarea_destroy k proc a =
     rbind (deref (vmas k) a) (\<lambda>_.
     rbind (get_proc k proc) (\<lambda>p.
     rbind (list_del a (vmareas p)) (\<lambda>vs.
     rbind (upd_proc k proc (\<lambda>p. p\<lparr>vmareas := vs\<rparr>)) (\<lambda>k.
     Inr ((kfree_object k a)\<lparr>vmas := (vmas k)(a := None)\<rparr>)))))"

text \<open>The operator \<open>!\<close> of C, which the permission checks use on the flag constants.\<close>

definition c_not :: "u64 \<Rightarrow> u64" where
  "c_not w = (if w = 0 then 1 else 0)"

definition is_valid_page_fault_for :: "vmarea \<Rightarrow> addr \<Rightarrow> u64 \<Rightarrow> bool" where
  "is_valid_page_fault_for vma vaddr flags \<longleftrightarrow>
     \<not> (\<not> (vma_start vma \<le> vaddr \<and> vaddr < vma_end vma)) \<and>
     \<not> (flags AND PF_USER \<noteq> 0 \<and> vma_flags vma AND c_not PAGE_USER \<noteq> 0) \<and>
     \<not> (flags AND PF_WRITE \<noteq> 0 \<and> vma_flags vma AND c_not PAGE_WRITABLE \<noteq> 0)"

definition is_valid_page_base_addr :: "addr \<Rightarrow> bool" where
  "is_valid_page_base_addr a \<longleftrightarrow> a \<noteq> 0 \<and> a < KERNEL_BASE_ADDR"

text \<open>The two pagers of kernel/boot.c that need no server.\<close>

definition initfs_pager :: "kernel \<Rightarrow> addr \<Rightarrow> addr res" where
  "initfs_pager k vaddr =
     rbind (require Assertion (initfs k AND (of_nat PAGE_SIZE - 1) = 0)) (\<lambda>_.
     Inr (into_paddr (initfs k + (vaddr - INITFS_ADDR))))"

definition straight_map_pager :: "addr \<Rightarrow> addr" where
  "straight_map_pager vaddr = vaddr"

text \<open>The first area of the list that accepts the fault.\<close>

fun find_vmarea :: "kernel \<Rightarrow> addr list \<Rightarrow> addr \<Rightarrow> u64 \<Rightarrow> addr option res" where
  "find_vmarea k [] vaddr flags = Inr None"
| "find_vmarea k (a # as) vaddr flags =
     rbind (deref (vmas k) a) (\<lambda>vma.
       if is_valid_page_fault_for vma vaddr flags then Inr (Some a) else find_vmarea k as vaddr flags)"

text \<open>Puts a frame on the stack of the current thread.\<close>

definition push_frame :: "kernel \<Rightarrow> frame \<Rightarrow> kernel res" where
  "push_frame k f = upd_thread k (current k) (\<lambda>th. th\<lparr>frames := f # frames th\<rparr>)"

definition suspend :: "kernel \<Rightarrow> frame \<Rightarrow> (outcome \<times> kernel) res" where
  "suspend k f = rbind (push_frame k f) (\<lambda>k. rbind (thread_switch k) (\<lambda>k. Inr (Switched, k)))"

text \<open>\<open>kernel_ipc\<close> up to the call of \<open>sys_ipc\<close>.\<close>

definition kernel_ipc :: "kernel \<Rightarrow> int \<Rightarrow> u32 \<Rightarrow> (outcome \<times> kernel) res" where
  "kernel_ipc k i syscall =
     rbind (upd_thread k (current k) (\<lambda>th. th\<lparr>on_kernel_buffer := True\<rparr>)) (\<lambda>k.
     rbind (push_frame k KernelIpc) (\<lambda>k. Inr (CallIpc i syscall, k)))"

text \<open>\<open>user_pager\<close> up to and after the IPC.\<close>

definition user_pager :: "idl \<Rightarrow> kernel \<Rightarrow> vmarea \<Rightarrow> addr \<Rightarrow> (outcome \<times> kernel) res" where
  "user_pager I k vma vaddr =
     rbind (get_thread k (current k)) (\<lambda>th.
     rbind (get_proc k (th_process th)) (\<lambda>p.
     rbind (upd_thread k (current k) (upd_buf True (\<lambda>m.
              set_pager_fill I (pid p) vaddr (m\<lparr>header := PAGER_FILL_MSG I\<rparr>)))) (\<lambda>k.
     rbind (get_chan k (vma_arg vma)) (\<lambda>c.
     rbind (push_frame k UserPagerCall) (\<lambda>k.
     kernel_ipc k (cid c) (IPC_SEND OR IPC_RECV))))))"

definition user_pager_reply :: "idl \<Rightarrow> kernel \<Rightarrow> error_t \<Rightarrow> (outcome \<times> kernel) res" where
  "user_pager_reply I k err =
     (if err \<noteq> OK then Inr (Return (RPaddr 0), k)
      else rbind (get_thread k (current k)) (\<lambda>th.
        let m = kernel_msg th in
        if header m \<noteq> PAGER_FILL_REPLY_MSG I then Inr (Return (RPaddr 0), k)
        else Inr (Return (RPaddr (PAGE_PAYLOAD_ADDR (pager_fill_reply_page I m))), k)))"

text \<open>The end of \<open>page_fault_handler\<close>, once the pager has returned.\<close>

definition page_filled :: "kernel \<Rightarrow> addr \<Rightarrow> addr \<Rightarrow> addr \<Rightarrow> (outcome \<times> kernel) res" where
  "page_filled k a vaddr paddr =
     rbind (if paddr = 0 then thread_kill_current k else Inr k) (\<lambda>k.
     rbind (deref (vmas k) a) (\<lambda>vma.
     rbind (get_thread k (current k)) (\<lambda>th.
     rbind (get_proc k (th_process th)) (\<lambda>p.
     rbind (link_page LINK_FUEL (pml4 p) vaddr paddr 1 (vma_flags vma) (pmem k, page_arena k)) (\<lambda>(mem, ar).
     Inr (Return (RPaddr paddr), k\<lparr>pmem := mem, page_arena := ar\<rparr>))))))"

definition page_fault_handler :: "idl \<Rightarrow> kernel \<Rightarrow> addr \<Rightarrow> u64 \<Rightarrow> (outcome \<times> kernel) res" where
  "page_fault_handler I k a flags =
     rbind (require Panic (flags AND PF_USER \<noteq> 0)) (\<lambda>_.
     rbind (if flags AND PF_PRESENT \<noteq> 0 then thread_kill_current k else Inr k) (\<lambda>k.
     let vaddr = ALIGN_DOWN a (of_nat PAGE_SIZE) in
     rbind (get_thread k (current k)) (\<lambda>th.
     rbind (get_proc k (th_process th)) (\<lambda>p.
     rbind (find_vmarea k (vmareas p) vaddr flags) (\<lambda>found.
     case found of
       None \<Rightarrow> Inl Panic
     | Some va \<Rightarrow>
         rbind (deref (vmas k) va) (\<lambda>vma.
         case pager vma of
           UserPager \<Rightarrow> rbind (push_frame k (PageFaultCall va vaddr)) (\<lambda>k. user_pager I k vma vaddr)
         | InitfsPager \<Rightarrow> rbind (initfs_pager k vaddr) (page_filled k va vaddr)
         | StraightMapPager \<Rightarrow> page_filled k va vaddr (straight_map_pager vaddr)))))))"

section \<open>The ipc system call\<close>

text \<open>The receive phase up to the context switch.\<close>

definition pop_sender :: "kernel \<Rightarrow> addr \<Rightarrow> kernel res" where
  "pop_sender k recv_ch =
     rbind (get_chan k recv_ch) (\<lambda>r.
     case queue r of
       [] \<Rightarrow> Inr k
     | sender # rest \<Rightarrow>
         rbind (upd_chan k recv_ch (\<lambda>c. c\<lparr>queue := rest\<rparr>)) (\<lambda>k.
         rbind (upd_thread k sender (\<lambda>th. th\<lparr>blocked_on := 0\<rparr>)) (\<lambda>k.
         thread_resume k sender)))"

definition recv_phase :: "kernel \<Rightarrow> addr \<Rightarrow> bool \<Rightarrow> (outcome \<times> kernel) res" where
  "recv_phase k ch m =
     rbind (get_chan k ch) (\<lambda>c.
     let recv_ch = transfer_to c in
     rbind (get_chan k recv_ch) (\<lambda>r.
     if destructed r then Inr (Return (RErr ERR_CHANNEL_CLOSED), k)
     else if receiver r \<noteq> 0 then Inr (Return (RErr ERR_ALREADY_RECEVING), k)
     else
       rbind (upd_chan k recv_ch (\<lambda>c. c\<lparr>receiver := current k\<rparr>)) (\<lambda>k.
       rbind (thread_block k (current k)) (\<lambda>k.
       rbind (pop_sender k recv_ch) (\<lambda>k.
       suspend k (RecvWait recv_ch m))))))"

text \<open>The receive phase after the context switch.\<close>

definition take_abort :: "kernel \<Rightarrow> (error_t \<times> kernel) res" where
  "take_abort k =
     rbind (get_thread k (current k)) (\<lambda>th.
     rbind (upd_thread k (current k) (\<lambda>th. th\<lparr>abort_reason := OK\<rparr>)) (\<lambda>k. Inr (abort_reason th, k)))"

definition take_notification :: "kernel \<Rightarrow> addr \<Rightarrow> bool \<Rightarrow> kernel res" where
  "take_notification k recv_ch m =
     rbind (get_chan k recv_ch) (\<lambda>r.
     rbind (upd_chan k recv_ch (\<lambda>c. c\<lparr>ch_notification := 0\<rparr>)) (\<lambda>k.
     upd_thread k (current k) (upd_buf m (\<lambda>msg. msg\<lparr>notification := ch_notification r\<rparr>))))"

definition recv_resumed :: "kernel \<Rightarrow> addr \<Rightarrow> bool \<Rightarrow> (outcome \<times> kernel) res" where
  "recv_resumed k recv_ch m =
     rbind (get_thread k (current k)) (\<lambda>th.
     if abort_reason th \<noteq> OK then rbind (take_abort k) (\<lambda>(e, k). Inr (Return (RErr e), k))
     else rbind (take_notification k recv_ch m) (\<lambda>k. Inr (Return (RErr OK), k)))"

text \<open>The end of the send phase: resume the receiver and go on with the receive phase.\<close>

definition send_done :: "kernel \<Rightarrow> addr \<Rightarrow> u32 \<Rightarrow> bool \<Rightarrow> addr \<Rightarrow> (outcome \<times> kernel) res" where
  "send_done k ch syscall m recvr =
     rbind (thread_resume k recvr) (\<lambda>k.
     if syscall AND IPC_RECV \<noteq> 0 then recv_phase k ch m else Inr (Return (RErr OK), k))"

definition abort_receiver :: "kernel \<Rightarrow> addr \<Rightarrow> error_t \<Rightarrow> (outcome \<times> kernel) res" where
  "abort_receiver k recvr err =
     rbind (upd_thread k recvr (\<lambda>th. th\<lparr>abort_reason := ERR_NEEDS_RETRY\<rparr>)) (\<lambda>k. Inr (Return (RErr err), k))"

text \<open>The page payload, once its physical address is known.\<close>

definition send_page ::
  "kernel \<Rightarrow> addr \<Rightarrow> u32 \<Rightarrow> bool \<Rightarrow> addr \<Rightarrow> bool \<Rightarrow> u64 \<Rightarrow> u64 \<Rightarrow> addr \<Rightarrow> (outcome \<times> kernel) res"
where
  "send_page k ch syscall m recvr dst_m page base paddr =
     rbind (get_thread k recvr) (\<lambda>r.
     let base_addr = PAGE_PAYLOAD_ADDR base; num_pages = POW2 (PAGE_ORDER page) in
     if \<not> on_kernel_buffer r \<and> (PAGE_ORDER base < PAGE_ORDER page \<or> \<not> is_valid_page_base_addr base_addr)
     then abort_receiver k recvr ERR_INVALID_PAGE_PAYLOAD
     else
       rbind (if on_kernel_buffer r then upd_thread k recvr (upd_buf dst_m (\<lambda>msg. msg\<lparr>payload_page := paddr\<rparr>))
              else
                rbind (get_proc k (th_process r)) (\<lambda>p.
                rbind (link_page LINK_FUEL (pml4 p) base_addr paddr num_pages (PAGE_USER OR PAGE_WRITABLE)
                         (pmem k, page_arena k)) (\<lambda>(mem, ar).
                upd_thread (k\<lparr>pmem := mem, page_arena := ar\<rparr>) recvr (upd_buf dst_m (\<lambda>msg.
                  msg\<lparr>payload_page := PAGE_PAYLOAD base_addr (PAGE_ORDER page)\<rparr>))))) (\<lambda>k.
       rbind (get_thread k (current k)) (\<lambda>th.
       rbind (get_proc k (th_process th)) (\<lambda>p.
       rbind (unlink_page (pml4 p) (PAGE_PAYLOAD_ADDR page) num_pages (pmem k)) (\<lambda>mem.
       send_done (k\<lparr>pmem := mem\<rparr>) ch syscall m recvr)))))"

definition send_page_payload ::
  "idl \<Rightarrow> kernel \<Rightarrow> addr \<Rightarrow> u32 \<Rightarrow> bool \<Rightarrow> addr \<Rightarrow> bool \<Rightarrow> (outcome \<times> kernel) res"
where
  "send_page_payload I k ch syscall m recvr dst_m =
     rbind (get_thread k (current k)) (\<lambda>th.
     rbind (get_thread k recvr) (\<lambda>r.
     rbind (get_proc k (th_process th)) (\<lambda>p.
     let page = payload_page (buf_msg m th);
         vaddr = PAGE_PAYLOAD_ADDR page;
         paddr = resolve_paddr_from_vaddr (pml4 p) vaddr (pmem k) in
     if paddr = 0 then
       rbind (push_frame k (PayloadFault ch syscall m recvr dst_m page (page_base r))) (\<lambda>k.
       page_fault_handler I k vaddr PF_USER)
     else send_page k ch syscall m recvr dst_m page (page_base r) paddr)))"

text \<open>The channel payload; the continuation is run when the channel could be passed on.\<close>

definition send_channel_payload ::
  "kernel \<Rightarrow> bool \<Rightarrow> addr \<Rightarrow> bool \<Rightarrow> (kernel \<Rightarrow> (outcome \<times> kernel) res) \<Rightarrow> (outcome \<times> kernel) res"
where
  "send_channel_payload k m recvr dst_m next_part =
     rbind (get_thread k (current k)) (\<lambda>th.
     rbind (get_proc k (th_process th)) (\<lambda>p.
     rbind (table_ptr (channels p) (payload_channel (buf_msg m th))) (\<lambda>payload_ch.
     if payload_ch = 0 then abort_receiver k recvr ERR_INVALID_PAYLOAD
     else
       rbind (get_thread k recvr) (\<lambda>r.
       rbind (channel_create k (th_process r)) (\<lambda>(dst_ch, k).
       if dst_ch = 0 then abort_receiver k recvr ERR_OUT_OF_MEMORY
       else
         rbind (get_chan k payload_ch) (\<lambda>pc.
         rbind (channel_link k (linked_with pc) dst_ch) (\<lambda>k.
         rbind (get_chan k dst_ch) (\<lambda>d.
         rbind (upd_thread k recvr (upd_buf dst_m (\<lambda>msg. msg\<lparr>payload_channel := cid d\<rparr>))) next_part))))))))"

text \<open>Copying the header, the sender and the inline payload.\<close>

definition copy_message :: "kernel \<Rightarrow> bool \<Rightarrow> addr \<Rightarrow> bool \<Rightarrow> u32 \<Rightarrow> int \<Rightarrow> kernel res" where
  "copy_message k m recvr dst_m hdr sender =
     rbind (get_thread k (current k)) (\<lambda>th.
     rbind (get_thread k recvr) (\<lambda>r.
     rbind (inlined_memcpy (payload_data (buf_msg dst_m r)) (payload_data (buf_msg m th)) (INLINE_PAYLOAD_LEN hdr)) (\<lambda>bytes.
     upd_thread k recvr (upd_buf dst_m (\<lambda>msg. msg\<lparr>header := hdr, msg_from := sender, payload_data := bytes\<rparr>)))))"

text \<open>The part of the send phase behind the wait loop.\<close>

definition deliver ::
  "idl \<Rightarrow> kernel \<Rightarrow> addr \<Rightarrow> u32 \<Rightarrow> bool \<Rightarrow> u32 \<Rightarrow> int \<Rightarrow> addr \<Rightarrow> (outcome \<times> kernel) res"
where
  "deliver I k ch syscall m hdr sender recvr =
     rbind (get_thread k recvr) (\<lambda>r.
     let dst_m = on_kernel_buffer r in
     rbind (copy_message k m recvr dst_m hdr sender) (\<lambda>k.
     let pages = (\<lambda>k. if hdr AND MSG_PAGE_PAYLOAD \<noteq> 0 then send_page_payload I k ch syscall m recvr dst_m
                      else send_done k ch syscall m recvr) in
     if hdr AND MSG_CHANNEL_PAYLOAD \<noteq> 0 then send_channel_payload k m recvr dst_m pages
     else pages k))"

text \<open>One iteration of the loop that waits for a receiver.\<close>

definition send_phase :: "idl \<Rightarrow> kernel \<Rightarrow> addr \<Rightarrow> u32 \<Rightarrow> bool \<Rightarrow> u32 \<Rightarrow> (outcome \<times> kernel) res" where
  "send_phase I k ch syscall m hdr =
     rbind (get_chan k ch) (\<lambda>c.
     rbind (get_chan k (linked_with c)) (\<lambda>l.
     let dst = transfer_to l in
     rbind (get_chan k dst) (\<lambda>d.
     if destructed d then Inr (Return (RErr ERR_CHANNEL_CLOSED), k)
     else if receiver d \<noteq> 0 then
       rbind (upd_chan k dst (\<lambda>d. d\<lparr>receiver := 0\<rparr>)) (\<lambda>k.
       deliver I k ch syscall m hdr (cid l) (receiver d))
     else if syscall AND IPC_NOBLOCK \<noteq> 0 then Inr (Return (RErr ERR_WOULD_BLOCK), k)
     else
       rbind (upd_chan k dst (\<lambda>d. d\<lparr>queue := queue d @ [current k]\<rparr>)) (\<lambda>k.
       rbind (upd_thread k (current k) (\<lambda>th. th\<lparr>blocked_on := dst\<rparr>)) (\<lambda>k.
       rbind (thread_block k (current k)) (\<lambda>k.
       suspend k (SendWait ch syscall m hdr)))))))"

text \<open>The loop after the context switch.\<close>

definition send_resumed :: "idl \<Rightarrow> kernel \<Rightarrow> addr \<Rightarrow> u32 \<Rightarrow> bool \<Rightarrow> u32 \<Rightarrow> (outcome \<times> kernel) res" where
  "send_resumed I k ch syscall m hdr =
     rbind (get_thread k (current k)) (\<lambda>th.
     if abort_reason th \<noteq> OK then rbind (take_abort k) (\<lambda>(e, k). Inr (Return (RErr e), k))
     else send_phase I k ch syscall m hdr)"

definition current_channel :: "kernel \<Rightarrow> int \<Rightarrow> addr res" where
  "current_channel k i =
     rbind (get_thread k (current k)) (\<lambda>th.
     rbind (get_proc k (th_process th)) (\<lambda>p.
     table_ptr (channels p) i))"

definition sys_ipc :: "idl \<Rightarrow> kernel \<Rightarrow> int \<Rightarrow> u32 \<Rightarrow> (outcome \<times> kernel) res" where
  "sys_ipc I k i syscall =
     rbind (get_thread k (current k)) (\<lambda>th.
     let m = on_kernel_buffer th in
     rbind (current_channel k i) (\<lambda>ch.
     if ch = 0 then Inr (Return (RErr ERR_INVALID_CID), k)
     else
       rbind (get_chan k ch) (\<lambda>c.
       if destructed c then Inr (Return (RErr ERR_CHANNEL_CLOSED), k)
       else if syscall AND IPC_SEND \<noteq> 0 then send_phase I k ch syscall m (header (buf_msg m th))
       else if syscall AND IPC_RECV \<noteq> 0 then recv_phase k ch m
       else Inr (Return (RErr OK), k))))"

section \<open>The fast path\<close>

definition bool_int :: "bool \<Rightarrow> u32" where
  "bool_int b = (if b then 1 else 0)"

text \<open>
  The sum that selects the slow path: a 32-bit sum in which the receiver pointer
  is truncated to an int.
\<close>

definition slowpath :: "u32 \<Rightarrow> channel \<Rightarrow> channel \<Rightarrow> channel \<Rightarrow> u32" where
  "slowpath hdr c recv_c dst_c =
     bool_int (\<not> FASTPATH_HEADER_TEST hdr) +
     bool_int (destructed c) + bool_int (destructed recv_c) + bool_int (destructed dst_c) +
     ucast (receiver recv_c) +
     bool_int (queue recv_c \<noteq> []) +
     bool_int (receiver dst_c = 0)"

text \<open>
  The fast path proper: exchange the receivers, copy the message and switch to
  the receiver thread directly.
\<close>

definition fast_switch :: "kernel \<Rightarrow> addr \<Rightarrow> addr \<Rightarrow> addr \<Rightarrow> bool \<Rightarrow> u32 \<Rightarrow> int \<Rightarrow> (outcome \<times> kernel) res" where
  "fast_switch k recv_ch dst_ch recvr m hdr sender =
     rbind (get_thread k recvr) (\<lambda>rt.
     let dst_m = on_kernel_buffer rt in
     rbind (upd_chan k recv_ch (\<lambda>c. c\<lparr>receiver := current k\<rparr>)) (\<lambda>k.
     rbind (upd_chan k dst_ch (\<lambda>c. c\<lparr>receiver := 0\<rparr>)) (\<lambda>k.
     rbind (upd_thread k (current k) (\<lambda>th. th\<lparr>blocked := True\<rparr>)) (\<lambda>k.
     rbind (upd_thread k recvr (\<lambda>th. th\<lparr>blocked := False\<rparr>)) (\<lambda>k.
     rbind (copy_message k m recvr dst_m hdr sender) (\<lambda>k.
     rbind (push_frame k (FastRecvWait recv_ch m)) (\<lambda>k.
     Inr (Switched, k\<lparr>current := recvr\<rparr>))))))))"

definition sys_ipc_fastpath :: "idl \<Rightarrow> kernel \<Rightarrow> int \<Rightarrow> (outcome \<times> kernel) res" where
  "sys_ipc_fastpath I k i =
     rbind (get_thread k (current k)) (\<lambda>th.
     let m = on_kernel_buffer th in
     rbind (current_channel k i) (\<lambda>ch.
     if ch = 0 then sys_ipc I k i (IPC_SEND OR IPC_RECV)
     else
       let hdr = header (buf_msg m th) in
       rbind (get_chan k ch) (\<lambda>c.
       let recv_ch = transfer_to c in
       rbind (get_chan k (linked_with c)) (\<lambda>l.
       let dst_ch = transfer_to l in
       rbind (get_chan k dst_ch) (\<lambda>d.
       rbind (get_chan k recv_ch) (\<lambda>r.
       if slowpath hdr c r d \<noteq> 0 then sys_ipc I k i (IPC_SEND OR IPC_RECV)
       else fast_switch k recv_ch dst_ch (receiver d) m hdr (cid l)))))))"

definition fast_resumed :: "kernel \<Rightarrow> addr \<Rightarrow> bool \<Rightarrow> (outcome \<times> kernel) res" where
  "fast_resumed k recv_ch m =
     rbind (take_notification k recv_ch m) (\<lambda>k.
     rbind (take_abort k) (\<lambda>(e, k). Inr (Return (RErr e), k)))"

section \<open>The other system calls\<close>

definition sys_open :: "kernel \<Rightarrow> (retval \<times> kernel) res" where
  "sys_open k =
     rbind (get_thread k (current k)) (\<lambda>th.
     rbind (channel_create k (th_process th)) (\<lambda>(ch, k).
     if ch = 0 then Inr (RInt (- error_value False ERR_OUT_OF_RESOURCE), k)
     else rbind (get_chan k ch) (\<lambda>c. Inr (RInt (cid c), k))))"

definition sys_close :: "kernel \<Rightarrow> int \<Rightarrow> (retval \<times> kernel) res" where
  "sys_close k i =
     rbind (current_channel k i) (\<lambda>ch.
     if ch = 0 then Inr (RErr ERR_INVALID_CID, k)
     else rbind (channel_destroy k ch) (\<lambda>k. Inr (RErr OK, k)))"

definition sys_link :: "kernel \<Rightarrow> int \<Rightarrow> int \<Rightarrow> (retval \<times> kernel) res" where
  "sys_link k i j =
     rbind (current_channel k i) (\<lambda>ch1.
     if ch1 = 0 then Inr (RErr ERR_INVALID_CID, k)
     else
       rbind (current_channel k j) (\<lambda>ch2.
       if ch2 = 0 then Inr (RErr ERR_INVALID_CID, k)
       else rbind (channel_link k ch1 ch2) (\<lambda>k. Inr (RErr OK, k))))"

definition sys_transfer :: "kernel \<Rightarrow> int \<Rightarrow> int \<Rightarrow> (retval \<times> kernel) res" where
  "sys_transfer k i j =
     rbind (current_channel k i) (\<lambda>src.
     if src = 0 then Inr (RErr ERR_INVALID_CID, k)
     else
       rbind (current_channel k j) (\<lambda>dst.
       if dst = 0 then Inr (RErr ERR_INVALID_CID, k)
       else rbind (channel_transfer k src dst) (\<lambda>k. Inr (RErr OK, k))))"

definition sys_notify :: "kernel \<Rightarrow> int \<Rightarrow> u32 \<Rightarrow> (retval \<times> kernel) res" where
  "sys_notify k i n =
     rbind (current_channel k i) (\<lambda>ch.
     if ch = 0 then Inr (RErr ERR_INVALID_CID, k)
     else rbind (channel_notify k ch n) (\<lambda>(e, k). Inr (RErr e, k)))"

definition as_int :: "u64 \<Rightarrow> int" where
  "as_int w = sint (ucast w :: u32)"

definition returning :: "(retval \<times> kernel) res \<Rightarrow> (outcome \<times> kernel) res" where
  "returning m = rbind m (\<lambda>(v, k). Inr (Return v, k))"

definition syscall_handler :: "idl \<Rightarrow> kernel \<Rightarrow> u64 \<Rightarrow> u64 \<Rightarrow> u64 \<Rightarrow> (outcome \<times> kernel) res" where
  "syscall_handler I k arg0 arg1 syscall =
     (if FASTPATH_SYSCALL_TEST syscall then sys_ipc_fastpath I k (as_int arg0)
      else
        let n = SYSCALL_TYPE syscall in
        if n = 0 then sys_ipc I k (as_int arg0) (ucast syscall)
        else if n = 1 then returning (sys_open k)
        else if n = 2 then returning (sys_close k (as_int arg0))
        else if n = 3 then returning (sys_link k (as_int arg0) (as_int arg1))
        else if n = 4 then returning (sys_transfer k (as_int arg0) (as_int arg1))
        else if n = 5 then returning (sys_notify k (as_int arg0) (ucast arg1))
        else if n = 6 then Inr (Return (RErr OK), k)
        else Inr (Return (RErr ERR_INVALID_SYSCALL), k))"

section \<open>Continuing a thread\<close>

definition pop_frame :: "kernel \<Rightarrow> kernel res" where
  "pop_frame k = upd_thread k (current k) (\<lambda>th. th\<lparr>frames := tl (frames th)\<rparr>)"

text \<open>The current thread comes out of \<open>thread_switch\<close> or \<open>arch_thread_switch\<close>.\<close>

definition after_switch :: "idl \<Rightarrow> kernel \<Rightarrow> frame \<Rightarrow> (outcome \<times> kernel) res" where
  "after_switch I k f =
     (case f of
        SendWait ch syscall m hdr \<Rightarrow> send_resumed I k ch syscall m hdr
      | RecvWait recv_ch m \<Rightarrow> recv_resumed k recv_ch m
      | FastRecvWait recv_ch m \<Rightarrow> fast_resumed k recv_ch m
      | _ \<Rightarrow> Inl Bug)"

text \<open>A function called by the current thread has returned \<open>v\<close> to frame \<open>f\<close>.\<close>

definition after_call :: "idl \<Rightarrow> kernel \<Rightarrow> frame \<Rightarrow> retval \<Rightarrow> (outcome \<times> kernel) res" where
  "after_call I k f v =
     (case (f, v) of
        (KernelIpc, _) \<Rightarrow>
          rbind (upd_thread k (current k) (\<lambda>th. th\<lparr>on_kernel_buffer := False\<rparr>)) (\<lambda>k. Inr (Return v, k))
      | (UserPagerCall, RErr e) \<Rightarrow> user_pager_reply I k e
      | (PageFaultCall va vaddr, RPaddr paddr) \<Rightarrow> page_filled k va vaddr paddr
      | (PayloadFault ch syscall m recvr dst_m page base, RPaddr paddr) \<Rightarrow>
          send_page k ch syscall m recvr dst_m page base paddr
      | _ \<Rightarrow> Inl Bug)"

end
