(* ===== verification/IPCSafety.thy ===== *)
theory IPCSafety
  imports IPC
begin

text \<open>
  The scheduler and waiting-thread invariant through the IPC system calls: every
  segment of \<open>sys_ipc\<close>, the fast path and the other system calls keeps it, for
  every message and every channel topology.
\<close>

section \<open>Blocking and switching\<close>

lemma wait_invD:
  assumes "wait_inv k" "chans k c = Some x"
  shows "distinct (waiters x)" "t \<in> set (waiters x) \<Longrightarrow> t \<noteq> idle_thread k"
    "t \<in> set (waiters x) \<Longrightarrow> \<exists>th. threads k t = Some th \<and> blocked th"
    "t \<in> set (waiters x) \<Longrightarrow> chans k d = Some y \<Longrightarrow> t \<in> set (waiters y) \<Longrightarrow> d = c"
  using assms unfolding wait_inv_def by blast+

lemma good_quiet_returns: "returns (quiet k) m \<Longrightarrow> good me idle R k \<Longrightarrow> returns (good me idle R) m"
  by (auto simp: returns_def intro: quiet_good)

lemma push_frame_quiet: "returns (quiet k) (push_frame k f)"
  unfolding push_frame_def returns_def by (auto simp del: upd_thread_eq dest!: upd_thread_quiet)

lemma thread_switch_frame:
  "thread_switch k = Inr k' \<Longrightarrow> threads k' = threads k \<and> chans k' = chans k \<and> idle_thread k' = idle_thread k"
  by (auto simp: thread_switch_eq split: list.splits)

lemma ready_queue_unblocked:
  assumes "sched_inv k" shows "\<forall>t \<in> set (ready_queue k). \<exists>th. threads k t = Some th \<and> \<not> blocked th"
  using sched_invD(5)[OF assms]
  by (cases "threads k (current k)") (auto simp: ready_queue_def split: if_splits)

lemma thread_switch_good:
  assumes "ipc_inv k" "thread_switch k = Inr k'"
  shows "good (current k') (idle_thread k) {} k'"
proof -
  have fr: "threads k' = threads k" "chans k' = chans k" "idle_thread k' = idle_thread k"
    using thread_switch_frame[OF assms(2)] by auto
  have s: "sched_inv k" "wait_inv k" using assms(1) by (auto simp: ipc_inv_def)
  have "ipc_inv k'"
    using thread_switch_sched_inv[OF s(1) assms(2)] s(2) by (simp add: ipc_inv_def wait_inv_def fr)
  moreover have "running k'"
    using assms(2) ready_queue_unblocked[OF s(1)] unfolding thread_switch_eq
    by (cases "ready_queue k") (auto simp: running_def)
  ultimately show ?thesis using fr by (simp add: good_def unwaited_def)
qed

definition settled :: "addr \<Rightarrow> kernel \<Rightarrow> bool" where
  "settled idle k \<longleftrightarrow> good (current k) idle {} k"

lemma good_settled: "good me idle R k \<Longrightarrow> settled idle k"
  by (auto simp: settled_def good_def unwaited_def)

lemma suspend_settled:
  assumes "ipc_inv k" shows "returns (\<lambda>(o', k'). settled (idle_thread k) k') (suspend k f)"
  unfolding suspend_def
proof (intro returns_rbind_eq; simp)
  fix k1 k2 assume k1: "push_frame k f = Inr k1" and k2: "thread_switch k1 = Inr k2"
  have q: "quiet k k1" using returnsD[OF push_frame_quiet k1] .
  show "settled (idle_thread k) k2"
    using thread_switch_good[OF quiet_inv[OF q assms] k2] q thread_switch_frame[OF k2]
    by (auto simp: settled_def quiet_def same_sched_def good_def)
qed

text \<open>The running thread joins the waiters of a channel and blocks.\<close>

lemma block_inv:
  assumes g: "good me idle R k" "me \<noteq> idle" and d: "chans k dst = Some d" and th: "threads k me = Some th" "blocked th'"
    and sub: "set (waiters d') \<subseteq> insert me (set (waiters d))"
    and dist: "distinct (waiters d) \<Longrightarrow> me \<notin> set (waiters d) \<Longrightarrow> distinct (waiters d')"
    and k': "k' = k\<lparr>chans := (chans k)(dst \<mapsto> d'), threads := (threads k)(me \<mapsto> th')\<rparr>"
  shows "ipc_inv k'"
proof -
  have inv: "sched_inv k" "wait_inv k" and cur: "current k = me" "idle_thread k = idle" and run: "\<not> blocked th"
    using g th by (auto simp: good_def ipc_inv_def running_def)
  have me: "me \<notin> set (waiters x)" if "chans k c = Some x" for c x
    using that inv(2) th(1) run unfolding wait_inv_def by fastforce
  have "sched_inv k'"
  proof (rule sched_invI)
    show "current k' \<in> dom (threads k')" using th(1) by (simp add: k' cur)
    show "\<exists>th. threads k' (idle_thread k') = Some th \<and> blocked th"
      using sched_invD(4)[OF inv(1)] g(2) by (auto simp: k' cur)
    fix t assume t: "t \<in> set (runqueue k')"
    then have "t \<noteq> me" using sched_invD(2)[OF inv(1)] by (auto simp: k' cur)
    then show "\<exists>th. threads k' t = Some th \<and> \<not> blocked th"
      using sched_invD(5)[OF inv(1), of t] t by (auto simp: k')
  next
    fix t u assume "threads k' t = Some u" "\<not> blocked u"
    then show "t = current k' \<or> t \<in> set (runqueue k')"
      using sched_invD(6)[OF inv(1), of t] th(2) by (auto simp: k' split: if_splits)
  qed (use sched_invD(1,2,7)[OF inv(1)] th(1) in \<open>auto simp: k'\<close>)
  moreover have "wait_inv k'" unfolding wait_inv_def
  proof (intro conjI allI impI)
    fix c x assume "chans k' c = Some x"
    then show "distinct (waiters x)"
      using inv(2) dist me[OF d] d unfolding wait_inv_def k' by (auto split: if_splits)
  next
    fix c x t assume x: "chans k' c = Some x" "t \<in> set (waiters x)"
    have "t = me \<or> (\<exists>c x. chans k c = Some x \<and> t \<in> set (waiters x))"
      using x sub d by (auto simp: k' split: if_splits)
    then show "t \<noteq> idle_thread k'" "\<exists>th. threads k' t = Some th \<and> blocked th"
      using wait_invD(2,3)[OF inv(2)] g(2) th(2) cur by (auto simp: k')
  next
    fix c e x y t assume "chans k' c = Some x" "chans k' e = Some y" "t \<in> set (waiters x)" "t \<in> set (waiters y)"
    then show "c = e"
      using wait_invD(4)[OF inv(2)] sub d me by (fastforce simp: k' split: if_splits)
  qed
  ultimately show ?thesis by (simp add: ipc_inv_def)
qed

section \<open>The receive phase\<close>

abbreviation ends :: "addr \<Rightarrow> (outcome \<times> kernel) res \<Rightarrow> bool" where
  "ends idle m \<equiv> returns (\<lambda>(o', k'). settled idle k') m"

abbreviation stays :: "addr \<Rightarrow> addr \<Rightarrow> addr set \<Rightarrow> (outcome \<times> kernel) res \<Rightarrow> bool" where
  "stays me idle R m \<equiv> returns (\<lambda>(o', k'). good me idle R k') m"

lemma stays_ends: "stays me idle R m \<Longrightarrow> ends idle m"
  by (auto simp: returns_def dest: good_settled)

lemma pop_sender_inv:
  assumes inv: "ipc_inv k" and r: "chans k rc = Some r" "current k \<notin> set (queue r)"
  shows "returns (\<lambda>k'. ipc_inv k' \<and> idle_thread k' = idle_thread k) (pop_sender k rc)"
proof (cases "queue r")
  case Nil
  then show ?thesis using inv r by (simp add: pop_sender_def kdefs deref_def)
next
  case (Cons t rest)
  have w: "wait_inv k" using inv by (simp add: ipc_inv_def)
  have t: "t \<in> set (waiters r)" using Cons by (simp add: waiters_def)
  have dist: "distinct (waiters r)" by (rule wait_invD(1)[OF w r(1)])
  let ?k1 = "k\<lparr>chans := (chans k)(rc \<mapsto> r\<lparr>queue := rest\<rparr>)\<rparr>"
  have q1: "quiet k ?k1"
    by (rule quiet_upd_chan[OF r(1)]) (use Cons in \<open>auto simp: waiters_def split: if_splits\<close>)
  show ?thesis unfolding returns_def
  proof (intro allI impI)
    fix k' assume "pop_sender k rc = Inr k'"
    then obtain k2 where k2: "upd_thread ?k1 t (\<lambda>th. th\<lparr>blocked_on := 0\<rparr>) = Inr k2"
      and k': "thread_resume k2 t = Inr k'"
      using Cons r(1) by (auto simp: pop_sender_def kdefs deref_def simp del: upd_thread_eq)
    have q2: "quiet k k2" using quiet_trans[OF q1 upd_thread_quiet[OF k2]] by simp
    have ch: "chans k2 = (chans k)(rc \<mapsto> r\<lparr>queue := rest\<rparr>)" using k2 by auto
    have gone: "t \<notin> set (waiters y)" if "chans k' c = Some y" for c y
      using that wait_invD(4)[OF w r(1) t, of c y] dist Cons thread_resume_frame(3)[OF k'] ch
      by (auto simp: waiters_def split: if_splits)
    have cur: "current k2 = current k" "idle_thread k2 = idle_thread k"
      using q2 by (auto simp: quiet_def same_sched_def)
    have "t \<noteq> idle_thread k" by (rule wait_invD(2)[OF w r(1) t])
    then have "ipc_inv k'"
      using r(2) Cons cur thread_resume_frame(3)[OF k']
      by (intro resume_inv[OF quiet_inv[OF q2 inv] k' _ _ _ _ gone])
         (auto simp: same_sched_def fewer_waiters_def)
    then show "ipc_inv k' \<and> idle_thread k' = idle_thread k"
      using thread_resume_frame(2)[OF k'] cur by simp
  qed
qed

lemma recv_phase_ends:
  assumes g: "good me idle R k" "me \<noteq> idle"
  shows "ends idle (recv_phase k ch m)"
  unfolding recv_phase_def Let_def
proof (intro returns_gets)
  fix c r assume r: "chans k (transfer_to c) = Some r"
  let ?rc = "transfer_to c"
  have cur: "current k = me" "idle_thread k = idle" using g by (auto simp: good_def)
  have "ends idle (rbind (upd_chan k ?rc (\<lambda>c. c\<lparr>receiver := current k\<rparr>)) (\<lambda>k.
       rbind (thread_block k (current k)) (\<lambda>k. rbind (pop_sender k ?rc) (\<lambda>k. suspend k (RecvWait ?rc m)))))"
    if free: "receiver r = 0"
  proof (intro returns_rbind_eq)
    fix k1 k2 k3 assume k1: "upd_chan k ?rc (\<lambda>c. c\<lparr>receiver := current k\<rparr>) = Inr k1"
      and k2: "thread_block k1 (current k1) = Inr k2" and k3: "pop_sender k2 ?rc = Inr k3"
    obtain th where th: "threads k me = Some th" using k1 k2 cur by (auto simp: thread_block_def)
    have eq: "k2 = k\<lparr>chans := (chans k)(?rc \<mapsto> r\<lparr>receiver := me\<rparr>), threads := (threads k)(me \<mapsto> th\<lparr>blocked := True\<rparr>)\<rparr>"
      using k1 k2 r cur th by (auto simp: thread_block_def)
    have i2: "ipc_inv k2"
      by (rule block_inv[OF g r th _ _ _ eq]) (use free in \<open>auto simp: waiters_def\<close>)
    have "me \<notin> set (queue r)"
    proof
      assume "me \<in> set (queue r)"
      then have "me \<in> set (waiters r)" by (simp add: waiters_def)
      then show False using waiter_facts(1)[of k ?rc r me] g r cur by (simp add: good_def)
    qed
    then have "ipc_inv k3 \<and> idle_thread k3 = idle"
      using returnsD[OF pop_sender_inv[OF i2] k3] eq cur by simp
    then show "ends idle (suspend k3 (RecvWait ?rc m))" using suspend_settled[of k3] by auto
  qed
  then show "ends idle (if destructed r then Inr (Return (RErr ERR_CHANNEL_CLOSED), k)
      else if receiver r \<noteq> 0 then Inr (Return (RErr ERR_ALREADY_RECEVING), k)
      else rbind (upd_chan k ?rc (\<lambda>c. c\<lparr>receiver := current k\<rparr>)) (\<lambda>k.
       rbind (thread_block k (current k)) (\<lambda>k. rbind (pop_sender k ?rc) (\<lambda>k. suspend k (RecvWait ?rc m)))))"
    using good_settled[OF g(1)] by simp
qed

section \<open>The send phase\<close>

lemma pmem_quiet: "quiet k (k\<lparr>pmem := mem, page_arena := ar\<rparr>)" "quiet k (k\<lparr>pmem := mem\<rparr>)"
  by (simp_all add: quiet_def same_sched_def fewer_waiters_def)

lemma pmem_good [intro]:
  "good me idle R k \<Longrightarrow> good me idle R (k\<lparr>pmem := mem, page_arena := ar\<rparr>)"
  "good me idle R k \<Longrightarrow> good me idle R (k\<lparr>pmem := mem\<rparr>)"
  by (auto intro: quiet_good pmem_quiet)

lemma push_frame_good: "good me idle R k \<Longrightarrow> returns (good me idle R) (push_frame k f)"
  by (rule good_quiet_returns[OF push_frame_quiet])

lemma resume_parked:
  assumes g: "good me idle R k" and t: "t \<in> R" "t \<noteq> me" "t \<noteq> idle"
  shows "returns (good me idle R) (thread_resume k t)"
  unfolding returns_def
proof (intro allI impI)
  fix k' assume k': "thread_resume k t = Inr k'"
  have "t \<notin> set (waiters y)" if "chans k' c = Some y" for c y
    using that g t(1) thread_resume_frame(3)[OF k'] unfolding good_def unwaited_def by auto
  then show "good me idle R k'"
    using g t thread_resume_frame(3)[OF k']
    by (intro resume_good[OF g k']) (auto simp: good_def same_sched_def fewer_waiters_def)
qed

lemma send_done_ends:
  assumes "good me idle R k" "me \<noteq> idle" "t \<in> R" "t \<noteq> me" "t \<noteq> idle"
  shows "ends idle (send_done k ch syscall m t)"
  unfolding send_done_def
  by (rule returns_rbind[OF resume_parked[OF assms(1,3-5)]])
     (auto intro: recv_phase_ends[OF _ assms(2)] good_settled)

lemma abort_receiver_stays: "good me idle R k \<Longrightarrow> stays me idle R (abort_receiver k t e)"
  unfolding abort_receiver_def
  by (rule returns_rbind[where Q = "good me idle R"]) (auto intro: returns_upd_thread_good)

lemma send_page_ends:
  assumes g: "good me idle R k" and t: "me \<noteq> idle" "t \<in> R" "t \<noteq> me" "t \<noteq> idle"
  shows "ends idle (send_page k ch syscall m t dm page base paddr)"
  unfolding send_page_def Let_def
  by (auto intro!: returns_gets returns_rbind[where Q = "good me idle R"] returns_rbind_eq[where m = "link_page _ _ _ _ _ _ _"]
        returns_rbind_eq[where m = "unlink_page _ _ _ _"] returns_upd_thread_good send_done_ends[OF _ t]
        stays_ends[OF abort_receiver_stays] g pmem_good simp: g)

lemma kill_current_fails: "returns P (thread_kill_current k)"
  unfolding thread_kill_current_def thread_destroy_def Let_def
  by (auto intro!: returns_rbind_eq simp: kfree_page_def kfree_object_def arch_thread_destroy_def
      split: if_splits)

lemma page_filled_stays: "good me idle R k \<Longrightarrow> stays me idle R (page_filled k va vaddr paddr)"
  unfolding page_filled_def
  by (auto intro!: returns_gets returns_rbind[where Q = "good me idle R"] kill_current_fails
        returns_rbind_eq[where m = "deref _ _"] returns_rbind_eq[where m = "link_page _ _ _ _ _ _ _"])

lemma kernel_ipc_stays: "good me idle R k \<Longrightarrow> stays me idle R (kernel_ipc k i syscall)"
  unfolding kernel_ipc_def
  by (auto intro!: returns_rbind[where Q = "good me idle R"] returns_upd_thread_good push_frame_good)

lemma user_pager_stays: "good me idle R k \<Longrightarrow> stays me idle R (user_pager I k vma vaddr)"
  unfolding user_pager_def
  by (auto intro!: returns_gets returns_rbind[where Q = "good me idle R"] returns_upd_thread_good push_frame_good
        kernel_ipc_stays)

lemma user_pager_reply_stays: "good me idle R k \<Longrightarrow> stays me idle R (user_pager_reply I k e)"
  unfolding user_pager_reply_def Let_def by (auto intro!: returns_gets)

lemma page_fault_handler_stays: "good me idle R k \<Longrightarrow> stays me idle R (page_fault_handler I k a flags)"
  unfolding page_fault_handler_def Let_def
  by (auto intro!: returns_gets returns_rbind[where Q = "good me idle R"] kill_current_fails
        returns_rbind_eq[where m = "find_vmarea _ _ _ _"] returns_rbind_eq[where m = "deref _ _"]
        returns_rbind_eq[where m = "initfs_pager _ _"] push_frame_good user_pager_stays page_filled_stays
      split: option.split pager_t.split)

lemma send_page_payload_ends:
  assumes "good me idle R k" and t: "me \<noteq> idle" "t \<in> R" "t \<noteq> me" "t \<noteq> idle"
  shows "ends idle (send_page_payload I k ch syscall m t dm)"
  unfolding send_page_payload_def Let_def using assms(1)
  by (auto intro!: returns_gets returns_rbind[where Q = "good me idle R"] push_frame_good
        stays_ends[OF page_fault_handler_stays] send_page_ends[OF _ t])

lemma channel_create_good: "good me idle R k \<Longrightarrow> returns (\<lambda>(a, k'). good me idle R k') (channel_create k p)"
  by (auto simp: returns_def dest!: channel_create_quiet intro: quiet_good)

lemma send_channel_payload_ends:
  assumes "good me idle R k" "\<And>k. good me idle R k \<Longrightarrow> ends idle (next_part k)"
  shows "ends idle (send_channel_payload k m t dm next_part)"
  unfolding send_channel_payload_def using assms
  by (auto intro!: returns_gets returns_rbind[where Q = "good me idle R"] returns_rbind[OF channel_create_good]
        returns_rbind_eq[where m = "table_ptr _ _"] returns_upd_thread_good channel_link_good
        stays_ends[OF abort_receiver_stays])

lemma copy_message_good: "good me idle R k \<Longrightarrow> returns (good me idle R) (copy_message k m t dm hdr sender)"
  unfolding copy_message_def
  by (auto intro!: returns_gets returns_rbind_eq[where m = "inlined_memcpy _ _ _"] returns_upd_thread_good)

lemma deliver_ends:
  assumes "good me idle R k" and t: "me \<noteq> idle" "t \<in> R" "t \<noteq> me" "t \<noteq> idle"
  shows "ends idle (deliver I k ch syscall m hdr sender t)"
  unfolding deliver_def Let_def using assms(1)
  by (auto intro!: returns_gets returns_rbind[where Q = "good me idle R"] copy_message_good
        send_channel_payload_ends send_page_payload_ends[OF _ t] send_done_ends[OF _ t])

lemma clear_receiver_good:
  assumes g: "good me idle R k" and d: "chans k dst = Some d" "receiver d \<noteq> 0"
    and k': "upd_chan k dst (\<lambda>d. d\<lparr>receiver := 0\<rparr>) = Inr k'"
  shows "good me idle {receiver d} k'" "receiver d \<noteq> me" "receiver d \<noteq> idle"
proof -
  have inv: "ipc_inv k" "running k" "wait_inv k" and cur: "current k = me" "idle_thread k = idle"
    using g by (auto simp: good_def ipc_inv_def)
  have w: "receiver d \<in> set (waiters d)" using d by (simp add: waiters_def)
  note facts = waiter_facts[OF inv(1,2) d(1) w]
  show "receiver d \<noteq> me" "receiver d \<noteq> idle" using facts(1,2) cur by auto
  have k'_eq: "k' = k\<lparr>chans := (chans k)(dst \<mapsto> d\<lparr>receiver := 0\<rparr>)\<rparr>" using k' d by auto
  have "quiet k k'" unfolding k'_eq
    by (rule quiet_upd_chan[OF d(1)]) (auto simp: waiters_def)
  then have "good me idle R k'" by (rule quiet_good[OF _ g])
  moreover have "unwaited k' {receiver d}"
    using facts(4) wait_invD(1)[OF inv(3) d(1)] d(2)
    by (auto simp: unwaited_def k'_eq waiters_def split: if_splits)
  ultimately show "good me idle {receiver d} k'" by (simp add: good_def)
qed

lemma enqueue_ends:
  assumes g: "good me idle R k" "me \<noteq> idle" and d: "chans k dst = Some d"
  shows "ends idle (rbind (upd_chan k dst (\<lambda>d. d\<lparr>queue := queue d @ [current k]\<rparr>)) (\<lambda>k.
       rbind (upd_thread k (current k) (\<lambda>th. th\<lparr>blocked_on := dst\<rparr>)) (\<lambda>k.
       rbind (thread_block k (current k)) (\<lambda>k. suspend k f))))"
proof (intro returns_rbind_eq)
  fix k1 k2 k3 assume k1: "upd_chan k dst (\<lambda>d. d\<lparr>queue := queue d @ [current k]\<rparr>) = Inr k1"
    and k2: "upd_thread k1 (current k1) (\<lambda>th. th\<lparr>blocked_on := dst\<rparr>) = Inr k2"
    and k3: "thread_block k2 (current k2) = Inr k3"
  have cur: "current k = me" "idle_thread k = idle" using g by (auto simp: good_def)
  obtain th where th: "threads k me = Some th" using k1 k2 cur by auto
  have eq: "k3 = k\<lparr>chans := (chans k)(dst \<mapsto> d\<lparr>queue := queue d @ [me]\<rparr>),
      threads := (threads k)(me \<mapsto> th\<lparr>blocked_on := dst, blocked := True\<rparr>)\<rparr>"
    using k1 k2 k3 d cur th by (auto simp: thread_block_def)
  have "ipc_inv k3"
    by (rule block_inv[OF g d th _ _ _ eq]) (auto simp: waiters_def)
  then show "ends idle (suspend k3 f)" using suspend_settled[of k3] eq cur by auto
qed

lemma send_phase_ends:
  assumes g: "good me idle R k" "me \<noteq> idle"
  shows "ends idle (send_phase I k ch syscall m hdr)"
  unfolding send_phase_def Let_def
proof (intro returns_gets)
  fix c l d assume d: "chans k (transfer_to l) = Some d"
  have "ends idle (rbind (upd_chan k (transfer_to l) (\<lambda>d. d\<lparr>receiver := 0\<rparr>)) (\<lambda>k.
      deliver I k ch syscall m hdr (cid l) (receiver d)))" if "receiver d \<noteq> 0"
    using clear_receiver_good[OF g(1) d that] g(2)
    by (intro returns_rbind_eq deliver_ends) auto
  then show "ends idle (if destructed d then Inr (Return (RErr ERR_CHANNEL_CLOSED), k)
      else if receiver d \<noteq> 0 then rbind (upd_chan k (transfer_to l) (\<lambda>d. d\<lparr>receiver := 0\<rparr>)) (\<lambda>k.
        deliver I k ch syscall m hdr (cid l) (receiver d))
      else if syscall AND IPC_NOBLOCK \<noteq> 0 then Inr (Return (RErr ERR_WOULD_BLOCK), k)
      else rbind (upd_chan k (transfer_to l) (\<lambda>d. d\<lparr>queue := queue d @ [current k]\<rparr>)) (\<lambda>k.
       rbind (upd_thread k (current k) (\<lambda>th. th\<lparr>blocked_on := transfer_to l\<rparr>)) (\<lambda>k.
       rbind (thread_block k (current k)) (\<lambda>k. suspend k (SendWait ch syscall m hdr)))))"
    using enqueue_ends[OF g d] good_settled[OF g(1)] by simp
qed

section \<open>System calls\<close>

lemma take_abort_good: "good me idle R k \<Longrightarrow> returns (\<lambda>(e, k'). good me idle R k') (take_abort k)"
  unfolding take_abort_def
  by (auto intro!: returns_gets returns_rbind[where Q = "good me idle R"] returns_upd_thread_good)

lemma take_notification_good: "good me idle R k \<Longrightarrow> returns (good me idle R) (take_notification k rc m)"
  unfolding take_notification_def
  by (auto intro!: returns_gets returns_rbind[where Q = "good me idle R"] returns_upd_chan_good returns_upd_thread_good)

lemma send_resumed_ends:
  assumes "good me idle R k" "me \<noteq> idle" shows "ends idle (send_resumed I k ch syscall m hdr)"
  unfolding send_resumed_def
  by (auto intro!: returns_gets returns_rbind[OF take_abort_good[OF assms(1)]] send_phase_ends[OF assms] good_settled[of me idle R])

lemma recv_resumed_ends:
  assumes "good me idle R k" shows "ends idle (recv_resumed k rc m)"
  unfolding recv_resumed_def
  by (auto intro!: returns_gets returns_rbind[OF take_abort_good[OF assms]]
        returns_rbind[OF take_notification_good[OF assms]] good_settled[of me idle R])

lemma fast_resumed_ends:
  assumes "good me idle R k" shows "ends idle (fast_resumed k rc m)"
  unfolding fast_resumed_def
  by (auto intro!: returns_rbind[OF take_notification_good[OF assms]] returns_rbind[OF take_abort_good] good_settled[of me idle R])

lemma sys_ipc_ends:
  assumes "good me idle R k" "me \<noteq> idle" shows "ends idle (sys_ipc I k i syscall)"
  unfolding sys_ipc_def Let_def
  by (auto intro!: returns_gets returns_rbind_eq[where m = "current_channel _ _"] send_phase_ends[OF assms]
        recv_phase_ends[OF assms] good_settled[OF assms(1)])

section \<open>The direct switch of the fast path\<close>

text \<open>
  The running thread \<open>me\<close> blocks, a waiting receiver \<open>t\<close> becomes current without
  passing through the run queue.
\<close>

lemma direct_switch_settled:
  assumes g: "good me idle R k" "me \<noteq> idle" and t: "t \<noteq> me" "t \<noteq> idle" "\<exists>th. threads k t = Some th \<and> blocked th"
    and F: "runqueue F = runqueue k" "current F = t" "idle_thread F = idle"
    and bl: "\<And>u. map_option blocked (threads F u) =
        (if u = me then Some True else if u = t then Some False else map_option blocked (threads k u))"
    and ch: "\<And>c y. chans F c = Some y \<Longrightarrow> distinct (waiters y) \<and> t \<notin> set (waiters y) \<and>
        (\<exists>x. chans k c = Some x \<and> set (waiters y) \<subseteq> insert me (set (waiters x)))"
    and me: "\<And>c d x y. chans F c = Some x \<Longrightarrow> chans F d = Some y \<Longrightarrow> me \<in> set (waiters x) \<Longrightarrow> me \<in> set (waiters y) \<Longrightarrow> c = d"
  shows "settled idle F"
proof -
  have inv: "sched_inv k" "wait_inv k" and cur: "current k = me" "idle_thread k = idle"
    using g(1) by (auto simp: good_def ipc_inv_def)
  have B: "(\<exists>th. threads F u = Some th \<and> blocked th) \<longleftrightarrow> u = me \<or> (u \<noteq> t \<and> (\<exists>th. threads k u = Some th \<and> blocked th))"
    and U: "(\<exists>th. threads F u = Some th \<and> \<not> blocked th) \<longleftrightarrow> u = t \<or> (u \<noteq> me \<and> (\<exists>th. threads k u = Some th \<and> \<not> blocked th))" for u
    using bl[of u] t(1) by (cases "threads F u"; cases "threads k u"; auto split: if_splits)+
  have tq: "t \<notin> set (runqueue k)" using sched_invD(5)[OF inv(1), of t] t(3) by auto
  have nz: "me \<noteq> 0" "t \<noteq> 0" using sched_invD(3,7)[OF inv(1)] cur t(3) by auto
  have run: "\<exists>th. threads F t = Some th \<and> \<not> blocked th" using U by simp
  have "sched_inv F"
  proof (rule sched_invI)
    show "current F \<in> dom (threads F)" using run F by auto
    show "\<exists>th. threads F (idle_thread F) = Some th \<and> blocked th"
      using B[of idle] sched_invD(4)[OF inv(1)] t(2) cur F by auto
    show "threads F 0 = None" using bl[of 0] nz sched_invD(7)[OF inv(1)] by (simp split: if_splits)
    fix u assume "u \<in> set (runqueue F)"
    then show "\<exists>th. threads F u = Some th \<and> \<not> blocked th"
      using U[of u] sched_invD(2,5)[OF inv(1)] F cur by auto
  next
    fix u th assume "threads F u = Some th" "\<not> blocked th"
    then show "u = current F \<or> u \<in> set (runqueue F)" using U[of u] sched_invD(6)[OF inv(1), of u] F cur by auto
  qed (use sched_invD(1)[OF inv(1)] tq F in auto)
  moreover have "wait_inv F" unfolding wait_inv_def
  proof (intro conjI allI impI)
    fix c x assume "chans F c = Some x" then show "distinct (waiters x)" using ch by blast
  next
    fix c y u assume y: "chans F c = Some y" "u \<in> set (waiters y)"
    then have "u \<noteq> t" "u = me \<or> (\<exists>x. chans k c = Some x \<and> u \<in> set (waiters x))" using ch[OF y(1)] by auto
    then show "u \<noteq> idle_thread F" "\<exists>th. threads F u = Some th \<and> blocked th"
      using wait_invD(2,3)[OF inv(2)] B[of u] g(2) cur F by auto
  next
    fix c d x y u assume xy: "chans F c = Some x" "chans F d = Some y" "u \<in> set (waiters x)" "u \<in> set (waiters y)"
    show "c = d"
    proof (cases "u = me")
      case False
      then show ?thesis using wait_invD(4)[OF inv(2)] ch[OF xy(1)] ch[OF xy(2)] xy(3,4) by blast
    qed (use me xy in blast)
  qed
  ultimately show ?thesis using run F by (auto simp: settled_def good_def ipc_inv_def running_def unwaited_def)
qed

text \<open>The channels after the fast path: the caller receives on \<open>rc\<close>, the receiver has left \<open>dst\<close>.\<close>

lemma fast_channels:
  assumes w: "wait_inv k" and d: "chans k dst = Some d" "receiver d \<noteq> 0" and r: "chans k rc = Some r"
    and me: "\<forall>c x. chans k c = Some x \<longrightarrow> me \<notin> set (waiters x)" "receiver d \<noteq> me"
    and F: "C = ((chans k)(rc \<mapsto> r\<lparr>receiver := me\<rparr>))" "F = C(dst \<mapsto> (the (C dst))\<lparr>receiver := 0\<rparr>)"
  shows "F c = Some y \<Longrightarrow> distinct (waiters y) \<and> receiver d \<notin> set (waiters y) \<and>
        (\<exists>x. chans k c = Some x \<and> set (waiters y) \<subseteq> insert me (set (waiters x)))"
    "F c = Some y \<Longrightarrow> me \<in> set (waiters y) \<Longrightarrow> c = rc"
proof -
  have t: "receiver d \<in> set (waiters d)" using d by (simp add: waiters_def)
  have uniq: "receiver d \<notin> set (waiters x)" if "chans k e = Some x" "e \<noteq> dst" for e x
    using wait_invD(4)[OF w d(1) t that(1)] that(2) by blast
  have dd: "distinct (waiters d)" "distinct (waiters r)" "me \<notin> set (waiters d)" "me \<notin> set (waiters r)"
    using wait_invD(1)[OF w] d r me(1) by auto
  show "distinct (waiters y) \<and> receiver d \<notin> set (waiters y) \<and>
      (\<exists>x. chans k c = Some x \<and> set (waiters y) \<subseteq> insert me (set (waiters x)))" if "F c = Some y"
  proof (cases "c = dst")
    case True
    have "waiters y = queue d" using that True d r F by (auto simp: waiters_def split: if_splits)
    moreover have "distinct (queue d)" "receiver d \<notin> set (queue d)" using dd(1) d(2) by (auto simp: waiters_def)
    ultimately show ?thesis using True d by (auto simp: waiters_def)
  next
    case False
    show ?thesis
    proof (cases "c = rc")
      case True
      then have y: "y = r\<lparr>receiver := me\<rparr>" using that False F by simp
      show ?thesis using y uniq[of rc r] False True r dd me(2) by (auto simp: waiters_def split: if_splits)
    next
      case False
      then have y: "chans k c = Some y" using that \<open>c \<noteq> dst\<close> F by simp
      then show ?thesis using uniq[OF y \<open>c \<noteq> dst\<close>] wait_invD(1)[OF w y] by auto
    qed
  qed
  show "c = rc" if "F c = Some y" "me \<in> set (waiters y)"
    using that F d r dd me(1)[rule_format, of c y] by (auto simp: waiters_def split: if_splits)
qed

lemma copy_message_frame:
  assumes "copy_message k m t dm hdr sender = Inr k'"
  shows "chans k' = chans k" "runqueue k' = runqueue k" "current k' = current k" "idle_thread k' = idle_thread k"
    "map_option blocked (threads k' u) = map_option blocked (threads k u)"
  using assms by (auto simp: copy_message_def)

lemma push_frame_frame:
  assumes "push_frame k f = Inr k'"
  shows "chans k' = chans k" "runqueue k' = runqueue k" "current k' = current k" "idle_thread k' = idle_thread k"
    "map_option blocked (threads k' u) = map_option blocked (threads k u)"
  using assms by (auto simp: push_frame_def)

lemma fast_switch_ends:
  assumes g: "good me idle R k" "me \<noteq> idle" and d: "chans k dst = Some d"
  shows "ends idle (fast_switch k rc dst (receiver d) m hdr sender)"
  unfolding fast_switch_def Let_def
proof (intro returns_gets returns_rbind_eq)
  fix rt k1 k2 k3 k4 k5 k6
  assume rt: "threads k (receiver d) = Some rt"
    and k1: "upd_chan k rc (\<lambda>c. c\<lparr>receiver := current k\<rparr>) = Inr k1"
    and k2: "upd_chan k1 dst (\<lambda>c. c\<lparr>receiver := 0\<rparr>) = Inr k2"
    and k3: "upd_thread k2 (current k2) (\<lambda>th. th\<lparr>blocked := True\<rparr>) = Inr k3"
    and k4: "upd_thread k3 (receiver d) (\<lambda>th. th\<lparr>blocked := False\<rparr>) = Inr k4"
    and k5: "copy_message k4 m (receiver d) (on_kernel_buffer rt) hdr sender = Inr k5"
    and k6: "push_frame k5 (FastRecvWait rc m) = Inr k6"
  let ?t = "receiver d"
  have inv: "ipc_inv k" "running k" "sched_inv k" "wait_inv k" and cur: "current k = me" "idle_thread k = idle"
    using g(1) by (auto simp: good_def ipc_inv_def)
  have t0: "?t \<noteq> 0" using rt sched_invD(7)[OF inv(3)] by auto
  then have w: "?t \<in> set (waiters d)" by (simp add: waiters_def)
  note facts = waiter_facts[OF inv(1,2) d w]
  have me_free: "\<forall>c x. chans k c = Some x \<longrightarrow> me \<notin> set (waiters x)"
    using waiter_facts(1)[OF inv(1,2)] cur by blast
  obtain r where r: "chans k rc = Some r" using k1 by auto
  let ?C = "(chans k)(rc \<mapsto> r\<lparr>receiver := me\<rparr>)"
  let ?F = "?C(dst \<mapsto> (the (?C dst))\<lparr>receiver := 0\<rparr>)"
  have chans6: "chans k6 = ?F"
    using k1 k2 k3 k4 copy_message_frame(1)[OF k5] push_frame_frame(1)[OF k6] r cur by auto
  have tm: "?t \<noteq> me" using facts(1) cur by simp
  note fc = fast_channels[OF inv(4) d t0 r me_free tm refl refl]
  have th6: "map_option blocked (threads k6 u) =
      (if u = me then Some True else if u = ?t then Some False else map_option blocked (threads k u))" for u
    using k1 k2 k3 k4 tm cur by (auto simp: push_frame_frame(5)[OF k6] copy_message_frame(5)[OF k5])
  have "settled idle (k6\<lparr>current := ?t\<rparr>)"
  proof (rule direct_switch_settled[OF g tm _ facts(3)])
    show "?t \<noteq> idle" using facts(2) cur by simp
    show "runqueue (k6\<lparr>current := ?t\<rparr>) = runqueue k" "idle_thread (k6\<lparr>current := ?t\<rparr>) = idle"
      using k1 k2 k3 k4 copy_message_frame[OF k5] push_frame_frame[OF k6] cur by auto
    fix c c' x y
    show "distinct (waiters y) \<and> ?t \<notin> set (waiters y) \<and> (\<exists>x. chans k c = Some x \<and> set (waiters y) \<subseteq> insert me (set (waiters x)))"
      if "chans (k6\<lparr>current := ?t\<rparr>) c = Some y" using fc(1)[of c y] that chans6 by simp
    show "c = c'" if "chans (k6\<lparr>current := ?t\<rparr>) c = Some x" "chans (k6\<lparr>current := ?t\<rparr>) c' = Some y"
      "me \<in> set (waiters x)" "me \<in> set (waiters y)"
      using fc(2)[of c x] fc(2)[of c' y] that chans6 by simp
  qed (use th6 in auto)
  then show "ends idle (Inr (Switched, k6\<lparr>current := ?t\<rparr>))" by simp
qed

lemma sys_ipc_fastpath_ends:
  assumes "good me idle R k" "me \<noteq> idle" shows "ends idle (sys_ipc_fastpath I k i)"
  unfolding sys_ipc_fastpath_def Let_def
  by (auto intro!: returns_gets returns_rbind_eq[where m = "current_channel _ _"] sys_ipc_ends[OF assms]
        fast_switch_ends[OF assms])

lemma sys_calls_stay:
  assumes "good me idle R k"
  shows "returns (\<lambda>(v, k'). good me idle R k') (sys_open k)"
    "returns (\<lambda>(v, k'). good me idle R k') (sys_close k i)"
    "returns (\<lambda>(v, k'). good me idle R k') (sys_link k i j)"
    "returns (\<lambda>(v, k'). good me idle R k') (sys_transfer k i j)"
    "returns (\<lambda>(v, k'). good me idle R k') (sys_notify k i n)"
  unfolding sys_open_def sys_close_def sys_link_def sys_transfer_def sys_notify_def using assms
  by (auto intro!: returns_gets returns_rbind[OF channel_create_good] returns_rbind_eq[where m = "current_channel _ _"]
        returns_rbind[OF channel_destroy_good] returns_rbind[OF channel_link_good]
        returns_rbind[OF channel_transfer_good] returns_rbind[OF channel_notify_good])

lemma returning_ends: "returns (\<lambda>(v, k'). good me idle R k') m \<Longrightarrow> ends idle (returning m)"
  unfolding returning_def by (auto intro!: returns_rbind_eq good_settled[of me idle R] dest: returnsD)

lemma syscall_handler_ends:
  assumes "good me idle R k" "me \<noteq> idle"
  shows "ends idle (syscall_handler I k arg0 arg1 n)"
  unfolding syscall_handler_def Let_def
  using sys_ipc_fastpath_ends[OF assms] sys_ipc_ends[OF assms] returning_ends[OF sys_calls_stay(1)[OF assms(1)]]
    returning_ends[OF sys_calls_stay(2)[OF assms(1)]] returning_ends[OF sys_calls_stay(3)[OF assms(1)]]
    returning_ends[OF sys_calls_stay(4)[OF assms(1)]] returning_ends[OF sys_calls_stay(5)[OF assms(1)]]
    good_settled[OF assms(1)]
  by simp

end
