(* ===== verification/Scenario.thy ===== *)
theory Scenario
  imports IPCSafety
begin

text \<open>
  A small concrete kernel state on which the theorems about system calls are
  instantiated: one user process with two threads and two linked channels; thread
  \<open>0x100\<close> runs, thread \<open>0x200\<close> waits for a message on the second channel, and
  \<open>0x300\<close> is the idle thread.
\<close>

definition sc_thread :: "int \<Rightarrow> bool \<Rightarrow> thread" where
  "sc_thread t bl = (fresh_thread 0x10 t 0 0 0 0 0)\<lparr>blocked := bl\<rparr>"

definition sc_chan1 :: channel where
  "sc_chan1 = (new_channel 0x10 0x1000 1)\<lparr>linked_with := 0x2000, ref_count := 2\<rparr>"

definition sc_chan2 :: channel where
  "sc_chan2 = (new_channel 0x10 0x2000 2)\<lparr>linked_with := 0x1000, ref_count := 2, receiver := 0x200\<rparr>"

definition sc_table :: "addr list \<Rightarrow> addr table" where
  "sc_table xs = \<lparr>entries_addr = 0, entries = NullSlot # map Entry xs @ [NullSlot], num_entries = int (length xs) + 2\<rparr>"

definition sc_proc :: process where
  "sc_proc = \<lparr>pid = 2, proc_name = ''user'', vmareas = [], proc_threads = [0x100, 0x200], pml4 = 0,
     channels = sc_table [0x1000, 0x2000], channel_list = [0x1000, 0x2000]\<rparr>"

definition sc_arena :: "addr \<Rightarrow> nat \<Rightarrow> kmalloc_arena" where
  "sc_arena a sz = \<lparr>free_list = [(a, 8)], object_size = sz, num_objects = 8\<rparr>"

definition sc_kernel :: kernel where
  "sc_kernel = \<lparr>object_arena = sc_arena 0x8000 256, page_arena = sc_arena 0x100000 4096, pmem = (\<lambda>_. 0),
     procs = [0x10 \<mapsto> sc_proc],
     threads = [0x100 \<mapsto> sc_thread 3 False, 0x200 \<mapsto> sc_thread 4 True, 0x300 \<mapsto> sc_thread 5 True],
     chans = [0x1000 \<mapsto> sc_chan1, 0x2000 \<mapsto> sc_chan2], vmas = Map.empty, timer_objs = Map.empty,
     irq_objs = Map.empty, process_table = sc_table [0x20, 0x10, 0x100, 0x200, 0x300],
     process_list = [0x20, 0x10], kernel_process = 0x20, init_process = 0x10, runqueue = [],
     current = 0x100, idle_thread = 0x300, kernel_server_ch = 0, timers = sc_table [], active_timers = [],
     user_timers = sc_table [], irq_listeners = sc_table [], active_irq_listeners = [], initfs = 0, console = []\<rparr>"

lemmas sc_defs = sc_kernel_def sc_proc_def sc_table_def sc_arena_def sc_chan1_def sc_chan2_def new_channel_def
  sc_thread_def fresh_thread_def

lemma sc_running: "running sc_kernel" "current sc_kernel \<noteq> idle_thread sc_kernel"
  by (simp_all add: running_def sc_defs)

lemma sc_sched: "sched_inv sc_kernel"
  by (auto simp: sched_inv_def sc_defs split: if_splits)

lemma sc_wait: "wait_inv sc_kernel"
  by (auto simp: wait_inv_def waiters_def sc_defs split: if_splits)

lemma sc_inv: "ipc_inv sc_kernel"
  by (simp add: ipc_inv_def sc_sched sc_wait)

definition sc_idl :: idl where
  "sc_idl = \<lparr>PAGER_FILL_MSG = 0x010000, PAGER_FILL_REPLY_MSG = 0x020800,
     set_pager_fill = (\<lambda>p a m. m\<lparr>payload_channel := p, payload_page := a\<rparr>), pager_fill_reply_page = payload_page\<rparr>"

text \<open>Evaluation of system calls on concrete states.\<close>

lemmas sc_eval = syscall_handler_def SYSCALL_TYPE_def FASTPATH_SYSCALL_TEST_def IPC_SEND_def IPC_RECV_def
  IPC_NOBLOCK_def Let_def as_int_def current_channel_def kdefs deref_def table_ptr_def table_get_def slot_at_def

lemma sc_notify:
  "\<exists>k'. syscall_handler sc_idl sc_kernel 1 4 5 = Inr (Return (RErr OK), k')"
  by (simp add: sc_eval sc_defs returning_def sys_notify_def channel_notify_def notify_receiver_def
      thread_resume_def upd_buf_def)

end
