(* ===== verification/Fastpath.thy ===== *)
theory Fastpath
  imports Scenario
begin

text \<open>
  The IPC paths of kernel/ipc.c compared: what a send delivers, when the fast path is
  taken, and that it does the same as the slow path.
\<close>

section \<open>The test of the fast path\<close>

definition in_object_arena :: "addr \<Rightarrow> bool" where
  "in_object_arena a \<longleftrightarrow> unat OBJECT_ARENA_ADDR \<le> unat a \<and> unat a < unat OBJECT_ARENA_ADDR + OBJECT_ARENA_LEN"

lemma arena_pointer_low:
  assumes "in_object_arena a"
  shows "0x1000000 \<le> unat (ucast a :: u32) \<and> unat (ucast a :: u32) < 0x1400000"
proof -
  have b: "0xffff800001000000 \<le> unat a" "unat a < 0xffff800001400000"
    using assms by (simp_all add: in_object_arena_def OBJECT_ARENA_ADDR_def OBJECT_ARENA_LEN_def)
  have "unat (ucast a :: u32) = unat a mod 2 ^ 32"
    by (simp add: unsigned_ucast_eq take_bit_eq_mod)
  moreover have "unat a mod 2 ^ 32 = unat a - 0xffff8000 * 2 ^ 32"
  proof -
    have "unat a = (unat a - 0xffff8000 * 2 ^ 32) + 0xffff8000 * 2 ^ 32" using b by simp
    moreover have "unat a - 0xffff8000 * 2 ^ 32 < 2 ^ 32" using b by simp
    ultimately show ?thesis by (metis mod_mult_self1 mod_less)
  qed
  ultimately have "unat (ucast a :: u32) = unat a - 0xffff800000000000" by simp
  then show ?thesis using b by (auto simp: le_diff_conv2)
qed

lemma unat_add_small: "unat (x :: u32) \<le> n \<Longrightarrow> unat y \<le> 1 \<Longrightarrow> n < 0x2000000 \<Longrightarrow>
  unat (x + y) = unat x + unat y \<and> unat (x + y) \<le> Suc n"
  by (simp add: unat_word_ariths)

lemma small_sum_zero:
  fixes a b c d e f x :: u32
  assumes "unat a \<le> 1" "unat b \<le> 1" "unat c \<le> 1" "unat d \<le> 1" "unat e \<le> 1" "unat f \<le> 1" "unat x \<le> 0x1400000"
  shows "a + b + c + d + x + e + f = 0 \<longleftrightarrow> a = 0 \<and> b = 0 \<and> c = 0 \<and> d = 0 \<and> x = 0 \<and> e = 0 \<and> f = 0"
proof -
  have s1: "unat (x + a) = unat x + unat a" "unat (x + a) \<le> 0x1400001"
    using unat_add_small[OF assms(7,1)] by simp_all
  have s2: "unat (x + a + b) = unat x + unat a + unat b" "unat (x + a + b) \<le> 0x1400002"
    using unat_add_small[OF s1(2) assms(2)] s1(1) by simp_all
  have s3: "unat (x + a + b + c) = unat x + unat a + unat b + unat c" "unat (x + a + b + c) \<le> 0x1400003"
    using unat_add_small[OF s2(2) assms(3)] s2(1) by simp_all
  have s4: "unat (x + a + b + c + d) = unat x + unat a + unat b + unat c + unat d" "unat (x + a + b + c + d) \<le> 0x1400004"
    using unat_add_small[OF s3(2) assms(4)] s3(1) by simp_all
  have s5: "unat (x + a + b + c + d + e) = unat x + unat a + unat b + unat c + unat d + unat e"
    "unat (x + a + b + c + d + e) \<le> 0x1400005"
    using unat_add_small[OF s4(2) assms(5)] s4(1) by simp_all
  have "unat (x + a + b + c + d + e + f) = unat x + unat a + unat b + unat c + unat d + unat e + unat f"
    using unat_add_small[OF s5(2) assms(6)] s5(1) by simp
  moreover have "a + b + c + d + x + e + f = x + a + b + c + d + e + f" by (simp add: add.commute add.left_commute)
  ultimately show ?thesis by (metis add_is_0 unat_eq_zero unsigned_0)
qed

lemma slowpath_zero_iff:
  assumes "receiver r = 0 \<or> in_object_arena (receiver r)"
  shows "slowpath hdr c r d = 0 \<longleftrightarrow> FASTPATH_HEADER_TEST hdr \<and> \<not> destructed c \<and> \<not> destructed r \<and> \<not> destructed d
    \<and> receiver r = 0 \<and> queue r = [] \<and> receiver d \<noteq> 0"
proof -
  have low: "unat (ucast (receiver r) :: u32) \<le> 0x1400000" "(ucast (receiver r) :: u32) = 0 \<longleftrightarrow> receiver r = 0"
    using assms arena_pointer_low[of "receiver r"] by auto
  have one: "unat (bool_int b) \<le> 1" "bool_int b = 0 \<longleftrightarrow> \<not> b" for b
    by (auto simp: bool_int_def)
  show ?thesis unfolding slowpath_def
    by (subst small_sum_zero[OF one(1) one(1) one(1) one(1) one(1) one(1) low(1)]) (auto simp: one(2) low(2))
qed

section \<open>Two threads at two ends\<close>

text \<open>
  The state of a call that finds its receiver waiting: thread \<open>th\<close> runs, channel \<open>ch\<close> of
  its process is linked with a channel whose messages go to \<open>transfer_to l\<close>, where
  thread \<open>rt\<close> waits.
\<close>

definition call_state ::
  "kernel \<Rightarrow> int \<Rightarrow> addr \<Rightarrow> thread \<Rightarrow> channel \<Rightarrow> channel \<Rightarrow> channel \<Rightarrow> thread \<Rightarrow> bool"
where
  "call_state k i ch th c l d rt \<longleftrightarrow> ipc_inv k \<and> running k \<and> current k \<noteq> idle_thread k
     \<and> threads k (current k) = Some th \<and> current_channel k i = Inr ch \<and> ch \<noteq> 0
     \<and> chans k ch = Some c \<and> chans k (linked_with c) = Some l \<and> chans k (transfer_to l) = Some d
     \<and> \<not> destructed c \<and> \<not> destructed d \<and> receiver d \<noteq> 0 \<and> threads k (receiver d) = Some rt
     \<and> message_ok (buf_msg (on_kernel_buffer th) th) \<and> message_ok (buf_msg (on_kernel_buffer rt) rt)"

text \<open>The message that arrives: the header, the id of the end it came through and the inline bytes.\<close>

definition delivered :: "message \<Rightarrow> int \<Rightarrow> message \<Rightarrow> message" where
  "delivered src from_cid dst =
     dst\<lparr>header := header src, msg_from := from_cid,
         payload_data := take (INLINE_PAYLOAD_LEN (header src)) (payload_data src) @
                         drop (INLINE_PAYLOAD_LEN (header src)) (payload_data dst)\<rparr>"

lemma call_state_threads:
  assumes "call_state k i ch th c l d rt"
  shows "\<not> blocked th" "blocked rt" "receiver d \<noteq> current k"
proof -
  have inv: "running k" "current k \<noteq> idle_thread k" "wait_inv k" "threads k (current k) = Some th"
    "chans k (transfer_to l) = Some d" "receiver d \<noteq> 0" "threads k (receiver d) = Some rt"
    using assms by (auto simp: call_state_def ipc_inv_def)
  show nb: "\<not> blocked th" using inv(1,2,4) by (auto simp: running_def)
  have "receiver d \<in> set (waiters d)" using inv(6) by (simp add: waiters_def)
  then show b: "blocked rt" using inv(3,5,7) unfolding wait_inv_def by (metis option.inject)
  show "receiver d \<noteq> current k" using inv(4,7) nb b by auto
qed

lemma copy_message_eq:
  assumes "threads k (current k) = Some th" "threads k t = Some rt" "t \<noteq> current k"
    "message_ok (buf_msg m th)" "message_ok (buf_msg dm rt)"
  shows "copy_message k m t dm (header (buf_msg m th)) from_cid =
    Inr (k\<lparr>threads := (threads k)(t \<mapsto> upd_buf dm (delivered (buf_msg m th) from_cid) rt)\<rparr>)"
  using assms inlined_memcpy_payload[OF assms(5,4), of "header (buf_msg m th)"]
  by (simp add: copy_message_def kdefs deref_def delivered_def upd_buf_def buf_msg_def)

section \<open>Sending without receiving\<close>

lemma send_phase_delivers:
  assumes cs: "call_state k i ch th c l d rt"
    and hdr: "header (buf_msg (on_kernel_buffer th) th) AND MSG_PAGE_PAYLOAD = 0"
      "header (buf_msg (on_kernel_buffer th) th) AND MSG_CHANNEL_PAYLOAD = 0"
  defines "rt' \<equiv> (upd_buf (on_kernel_buffer rt) (delivered (buf_msg (on_kernel_buffer th) th) (cid l)) rt)\<lparr>blocked := False\<rparr>"
  defines "k' \<equiv> k\<lparr>chans := (chans k)(transfer_to l \<mapsto> d\<lparr>receiver := 0\<rparr>),
      threads := (threads k)(receiver d \<mapsto> rt'), runqueue := runqueue k @ [receiver d]\<rparr>"
  shows "send_phase I k ch syscall (on_kernel_buffer th) (header (buf_msg (on_kernel_buffer th) th)) =
    (if syscall AND IPC_RECV \<noteq> 0 then recv_phase k' ch (on_kernel_buffer th) else Inr (Return (RErr OK), k'))"
proof -
  note thr = call_state_threads[OF cs]
  have st: "threads k (current k) = Some th" "chans k ch = Some c" "chans k (linked_with c) = Some l"
    "chans k (transfer_to l) = Some d" "\<not> destructed d" "receiver d \<noteq> 0" "threads k (receiver d) = Some rt"
    "message_ok (buf_msg (on_kernel_buffer th) th)" "message_ok (buf_msg (on_kernel_buffer rt) rt)"
    using cs by (auto simp: call_state_def)
  let ?m = "on_kernel_buffer th" and ?dm = "on_kernel_buffer rt" and ?h = "header (buf_msg (on_kernel_buffer th) th)"
  let ?ka = "k\<lparr>chans := (chans k)(transfer_to l \<mapsto> d\<lparr>receiver := 0\<rparr>)\<rparr>"
  let ?rb = "upd_buf ?dm (delivered (buf_msg ?m th) (cid l)) rt"
  let ?kb = "?ka\<lparr>threads := (threads k)(receiver d \<mapsto> ?rb)\<rparr>"
  have copy: "copy_message ?ka ?m (receiver d) ?dm ?h (cid l) = Inr ?kb"
    using copy_message_eq[of ?ka th "receiver d" rt ?m ?dm "cid l"] st thr(3) by simp
  have resume: "thread_resume ?kb (receiver d) = Inr k'"
    using thr(2) by (simp add: thread_resume_def kdefs deref_def k'_def rt'_def)
  have del: "deliver I ?ka ch syscall ?m ?h (cid l) (receiver d) = send_done ?kb ch syscall ?m (receiver d)"
    using st(7) copy hdr by (simp add: deliver_def Let_def kdefs deref_def)
  have "send_phase I k ch syscall ?m ?h = deliver I ?ka ch syscall ?m ?h (cid l) (receiver d)"
    using st by (simp add: send_phase_def Let_def kdefs deref_def)
  then show ?thesis unfolding del send_done_def resume rbind.simps .
qed

section \<open>The fast path and the slow path\<close>

lemma recv_phase_waits:
  assumes "chans k ch = Some c" "chans k (transfer_to c) = Some r" "\<not> destructed r" "receiver r = 0" "queue r = []"
    "threads k (current k) = Some th"
  shows "recv_phase k ch m = rbind (thread_switch (k\<lparr>chans := (chans k)(transfer_to c \<mapsto> r\<lparr>receiver := current k\<rparr>),
      threads := (threads k)(current k \<mapsto> th\<lparr>blocked := True, frames := RecvWait (transfer_to c) m # frames th\<rparr>)\<rparr>))
    (\<lambda>k. Inr (Switched, k))"
  using assms
  by (simp add: recv_phase_def Let_def kdefs deref_def thread_block_def pop_sender_def suspend_def push_frame_def)

lemma thread_switch_blocked:
  assumes "threads k (current k) = Some th" "blocked th" "runqueue k = t # ts"
  shows "thread_switch k = Inr (k\<lparr>runqueue := ts, current := t\<rparr>)"
  using assms by (simp add: thread_switch_def scheduler_def kdefs deref_def)

lemma fast_switch_eq:
  assumes "threads k (current k) = Some th" "threads k t = Some rt" "t \<noteq> current k"
    "message_ok (buf_msg m th)" "message_ok (buf_msg (on_kernel_buffer rt) rt)"
    "chans k rc = Some r" "chans k dst = Some d" "rc \<noteq> dst"
  shows "fast_switch k rc dst t m (header (buf_msg m th)) from_cid =
    Inr (Switched, k\<lparr>chans := (chans k)(rc \<mapsto> r\<lparr>receiver := current k\<rparr>, dst \<mapsto> d\<lparr>receiver := 0\<rparr>),
      threads := (threads k)(current k \<mapsto> th\<lparr>blocked := True, frames := FastRecvWait rc m # frames th\<rparr>,
        t \<mapsto> (upd_buf (on_kernel_buffer rt) (delivered (buf_msg m th) from_cid) rt)\<lparr>blocked := False\<rparr>),
      current := t\<rparr>)"
proof -
  let ?k4 = "k\<lparr>chans := (chans k)(rc \<mapsto> r\<lparr>receiver := current k\<rparr>, dst \<mapsto> d\<lparr>receiver := 0\<rparr>),
      threads := (threads k)(current k \<mapsto> th\<lparr>blocked := True\<rparr>, t \<mapsto> rt\<lparr>blocked := False\<rparr>)\<rparr>"
  let ?dm = "on_kernel_buffer rt"
  have b: "buf_msg x (y\<lparr>blocked := z\<rparr>) = buf_msg x y" for x y z by (simp add: buf_msg_def)
  have u: "upd_buf x f (y\<lparr>blocked := z\<rparr>) = (upd_buf x f y)\<lparr>blocked := z\<rparr>" for x y z f by (simp add: upd_buf_def)
  have copy: "copy_message ?k4 m t ?dm (header (buf_msg m th)) from_cid =
      Inr (?k4\<lparr>threads := (threads ?k4)(t \<mapsto> (upd_buf ?dm (delivered (buf_msg m th) from_cid) rt)\<lparr>blocked := False\<rparr>)\<rparr>)"
    using copy_message_eq[of ?k4 "th\<lparr>blocked := True\<rparr>" t "rt\<lparr>blocked := False\<rparr>" m ?dm from_cid] assms by (simp add: b u)
  have upto: "fast_switch k rc dst t m (header (buf_msg m th)) from_cid =
      rbind (copy_message ?k4 m t ?dm (header (buf_msg m th)) from_cid)
        (\<lambda>k. rbind (push_frame k (FastRecvWait rc m)) (\<lambda>k. Inr (Switched, k\<lparr>current := t\<rparr>)))"
    using assms by (simp add: fast_switch_def Let_def kdefs deref_def)
  show ?thesis unfolding upto copy rbind.simps using assms(3) by (simp add: push_frame_def kdefs deref_def fun_upd_twist)
qed

text \<open>
  The slow path leaves the frame \<open>RecvWait\<close> where the fast path leaves \<open>FastRecvWait\<close>,
  and appends the receiver to the run queue where the fast path switches to it.
\<close>

definition as_slow :: "kernel \<Rightarrow> kernel \<Rightarrow> addr \<Rightarrow> bool \<Rightarrow> thread \<Rightarrow> kernel" where
  "as_slow k k1 rc m th =
     k1\<lparr>threads := (threads k1)(current k \<mapsto> th\<lparr>blocked := True, frames := RecvWait rc m # frames th\<rparr>),
        runqueue := tl (runqueue k @ [current k1]), current := hd (runqueue k @ [current k1])\<rparr>"

lemma fastpath_header_bits:
  "FASTPATH_HEADER_TEST h \<Longrightarrow> h AND MSG_PAGE_PAYLOAD = 0 \<and> h AND MSG_CHANNEL_PAYLOAD = 0"
proof -
  assume "FASTPATH_HEADER_TEST h"
  then have z: "h AND 0x1800 = 0" by (simp add: FASTPATH_HEADER_TEST_def)
  have "h AND MSG_PAGE_PAYLOAD = (h AND 0x1800) AND MSG_PAGE_PAYLOAD"
    "h AND MSG_CHANNEL_PAYLOAD = (h AND 0x1800) AND MSG_CHANNEL_PAYLOAD"
    by (simp_all add: and.assoc MSG_PAGE_PAYLOAD_def MSG_CHANNEL_PAYLOAD_def)
  then show ?thesis using z by simp
qed

lemma resumed_same:
  assumes "threads k (current k) = Some t" "abort_reason t = OK"
  shows "fast_resumed k rc m = recv_resumed k rc m"
proof -
  have same: "t\<lparr>abort_reason := OK\<rparr> = t" using assms(2) by simp
  have u: "(upd_buf b f t)\<lparr>abort_reason := OK\<rparr> = upd_buf b f t" for b f
    using assms(2) by (simp add: upd_buf_def)
  show ?thesis using assms
    by (cases "chans k rc")
      (simp_all add: fast_resumed_def recv_resumed_def take_notification_def take_abort_def kdefs deref_def u)
qed


section \<open>Witness of a call\<close>

lemma sc_call:
  "call_state sc_kernel 1 0x1000 (sc_thread 3 False) sc_chan1 sc_chan2 sc_chan2 (sc_thread 4 True)"
  using sc_inv sc_running
  by (simp add: call_state_def sc_defs current_channel_def kdefs deref_def table_ptr_def table_get_def slot_at_def
      message_ok_def buf_msg_def empty_message_def USER_DATA_ROOM_def KERNEL_DATA_ROOM_def PAGE_SIZE_def)


text \<open>
  C13: the sum by which the fast path tests its preconditions is exact. The test adds up
  the flags and the receiver pointer, truncated to 32 bits; for every pointer into the
  object arena (or null) the sum is zero just in case the message is inline only, no
  channel is destructed, the own end has neither a receiver nor waiting senders, and a
  receiver waits at the other end. The sum neither wraps around nor loses the pointer.
\<close>

theorem slowpath_exact:
  assumes "receiver r = 0 \<or> in_object_arena (receiver r)"
  shows "slowpath hdr c r d = 0 \<longleftrightarrow> FASTPATH_HEADER_TEST hdr \<and> \<not> destructed c \<and> \<not> destructed r
    \<and> \<not> destructed d \<and> receiver r = 0 \<and> queue r = [] \<and> receiver d \<noteq> 0"
  using assms by (rule slowpath_zero_iff)

theorem slowpath_exact_witness:
  "slowpath 0 sc_chan1 (sc_chan1\<lparr>receiver := 0xffff800001000100\<rparr>) sc_chan2 \<noteq> 0"
proof -
  have "in_object_arena 0xffff800001000100"
    by (simp add: in_object_arena_def OBJECT_ARENA_ADDR_def OBJECT_ARENA_LEN_def)
  then show ?thesis
    using slowpath_exact[of "sc_chan1\<lparr>receiver := 0xffff800001000100\<rparr>" 0 sc_chan1 sc_chan2] by simp
qed



end
