(* ===== verification/KernelProps.thy ===== *)
theory KernelProps
  imports Fastpath
begin

text \<open>
  Properties of the scheduler, of channels and of the error paths of the system calls.
\<close>

section \<open>Scheduling\<close>

lemma switches_reach:
  assumes "sched_inv k" "running k" "current k \<noteq> idle_thread k" "n \<le> length (runqueue k)"
  shows "switches n k = Inr (k\<lparr>runqueue := drop n (runqueue k) @ take n (current k # runqueue k),
            current := (current k # runqueue k) ! n\<rparr>)"
proof -
  obtain th where "threads k (current k) = Some th" "\<not> blocked th" using assms(2,3) by (auto simp: running_def)
  then show ?thesis using switches_round_robin[OF assms(1)] assms(4) by blast
qed

text \<open>
  C10: round robin. While no thread blocks, the thread at position n of the run queue
  runs after n context switches: every ready thread gets the processor within as many
  switches as there are ready threads, and after one more switch than that the schedule
  is where it started.
\<close>

theorem round_robin:
  assumes "sched_inv k" "running k" "current k \<noteq> idle_thread k"
  shows "(\<forall>n < length (runqueue k). \<exists>k'. switches (Suc n) k = Inr k' \<and> current k' = runqueue k ! n
      \<and> threads k' = threads k)
    \<and> switches (Suc (length (runqueue k))) k = Inr k"
proof (intro conjI allI impI)
  fix n assume "n < length (runqueue k)"
  then show "\<exists>k'. switches (Suc n) k = Inr k' \<and> current k' = runqueue k ! n \<and> threads k' = threads k"
    using switches_reach[OF assms, of "Suc n"] by (simp del: switches.simps)
next
  obtain th where th: "threads k (current k) = Some th" "\<not> blocked th" using assms(2,3) by (auto simp: running_def)
  let ?n = "length (runqueue k)"
  let ?k = "k\<lparr>runqueue := take ?n (current k # runqueue k), current := (current k # runqueue k) ! ?n\<rparr>"
  have split: "switches (Suc n) k0 = rbind (switches n k0) thread_switch" for n k0
  proof (induction n arbitrary: k0)
    case 0
    show ?case by (cases "thread_switch k0") simp_all
  next
    case (Suc n)
    have "switches (Suc (Suc n)) k0 = rbind (thread_switch k0) (switches (Suc n))" by simp
    also have "\<dots> = rbind (thread_switch k0) (\<lambda>k. rbind (switches n k) thread_switch)" using Suc by (simp cong: rbind_cong)
    finally show ?case by (simp add: rbind_assoc)
  qed
  have at: "switches ?n k = Inr ?k" using switches_reach[OF assms, of ?n] by simp
  have last: "current k # runqueue k = take ?n (current k # runqueue k) @ [(current k # runqueue k) ! ?n]"
    using take_Suc_conv_app_nth[of ?n "current k # runqueue k"] by simp
  obtain th' where th': "threads k (current ?k) = Some th'" "\<not> blocked th'"
  proof (cases "runqueue k")
    case Nil
    then show ?thesis using th that by simp
  next
    case (Cons a list)
    then have "(current k # runqueue k) ! ?n = runqueue k ! (?n - 1)" "?n - 1 < ?n" by simp_all
    then have "(current k # runqueue k) ! ?n \<in> set (runqueue k)" by (metis nth_mem)
    then show ?thesis using sched_invD(5)[OF assms(1)] that by auto
  qed
  have "ready_queue ?k = current k # runqueue k" using th' last by (simp add: ready_queue_def)
  then have "thread_switch ?k = Inr k" using thread_switch_eq[of ?k k] th' by (simp add: domI)
  then show "switches (Suc ?n) k = Inr k" by (simp only: split at rbind.simps)
qed

definition sc_busy :: kernel where
  "sc_busy = sc_kernel\<lparr>threads := (threads sc_kernel)(0x200 \<mapsto> sc_thread 4 False), runqueue := [0x200],
     chans := (chans sc_kernel)(0x2000 \<mapsto> sc_chan2\<lparr>receiver := 0\<rparr>)\<rparr>"

theorem round_robin_witness:
  "\<exists>k'. switches 1 sc_busy = Inr k' \<and> current k' = 0x200 \<and> switches 2 sc_busy = Inr sc_busy"
proof -
  have "sched_inv sc_busy" "running sc_busy" "current sc_busy \<noteq> idle_thread sc_busy"
    by (auto simp: sched_inv_def running_def sc_busy_def sc_defs split: if_splits)
  note rr = round_robin[OF this]
  have q: "runqueue sc_busy = [0x200]" by (simp add: sc_busy_def)
  have "\<exists>k'. switches 1 sc_busy = Inr k' \<and> current k' = 0x200" "switches 2 sc_busy = Inr sc_busy"
    using conjunct1[OF rr] conjunct2[OF rr] unfolding q by (simp_all add: eval_nat_numeral del: switches.simps) blast
  then show ?thesis by blast
qed

section \<open>Dropping channels\<close>



section \<open>Error paths of the system calls\<close>

lemma receiver_waits_once:
  assumes "wait_inv k" "chans k dst = Some d" "receiver d \<noteq> 0"
  shows "\<forall>c x. ((chans k)(dst \<mapsto> d\<lparr>receiver := 0\<rparr>)) c = Some x \<longrightarrow> receiver d \<notin> set (waiters x)"
proof (intro allI impI)
  fix c x assume x: "((chans k)(dst \<mapsto> d\<lparr>receiver := 0\<rparr>)) c = Some x"
  have w: "receiver d \<in> set (waiters d)" using assms(3) by (simp add: waiters_def)
  have di: "distinct (waiters d)" using assms(1,2) unfolding wait_inv_def by blast
  show "receiver d \<notin> set (waiters x)"
  proof (cases "c = dst")
    case True
    then show ?thesis using x di assms(3) by (auto simp: waiters_def)
  next
    case False
    then show ?thesis using x w assms(1,2) unfolding wait_inv_def by (metis fun_upd_other)
  qed
qed

text \<open>
  C15: a failed channel payload leaves the receiver behind. When a message carries a
  channel payload whose id the sender does not own, the send returns
  ERR_INVALID_PAYLOAD after the receiver has been taken off its channel. The receiver
  is then marked for a retry but never resumed: it stays blocked, is not in the run queue
  and waits at no channel, so that no later send, notification or close finds it.
\<close>

theorem bad_payload_strands_receiver:
  assumes cs: "call_state k i ch th c l d rt"
    and hdr: "header (buf_msg (on_kernel_buffer th) th) AND MSG_CHANNEL_PAYLOAD \<noteq> 0"
    and bad: "current_channel k (payload_channel (buf_msg (on_kernel_buffer th) th)) = Inr 0"
    and sys: "syscall AND IPC_SEND \<noteq> 0"
  shows "\<exists>k' rt'. sys_ipc I k i syscall = Inr (Return (RErr ERR_INVALID_PAYLOAD), k')
    \<and> threads k' (receiver d) = Some rt' \<and> blocked rt' \<and> abort_reason rt' = ERR_NEEDS_RETRY
    \<and> receiver d \<notin> set (runqueue k') \<and> receiver d \<noteq> current k' \<and> unwaited k' {receiver d}"
proof -
  note thr = call_state_threads[OF cs]
  have st: "threads k (current k) = Some th" "current_channel k i = Inr ch" "ch \<noteq> 0" "chans k ch = Some c"
    "chans k (linked_with c) = Some l" "chans k (transfer_to l) = Some d" "\<not> destructed c" "\<not> destructed d"
    "receiver d \<noteq> 0" "threads k (receiver d) = Some rt" "sched_inv k" "wait_inv k"
    "message_ok (buf_msg (on_kernel_buffer th) th)" "message_ok (buf_msg (on_kernel_buffer rt) rt)"
    using cs by (auto simp: call_state_def ipc_inv_def)
  let ?m = "on_kernel_buffer th" and ?dm = "on_kernel_buffer rt" and ?h = "header (buf_msg (on_kernel_buffer th) th)"
  let ?ka = "k\<lparr>chans := (chans k)(transfer_to l \<mapsto> d\<lparr>receiver := 0\<rparr>)\<rparr>"
  let ?rb = "upd_buf ?dm (delivered (buf_msg ?m th) (cid l)) rt"
  let ?kb = "?ka\<lparr>threads := (threads k)(receiver d \<mapsto> ?rb)\<rparr>"
  let ?k' = "?ka\<lparr>threads := (threads k)(receiver d \<mapsto> ?rb\<lparr>abort_reason := ERR_NEEDS_RETRY\<rparr>)\<rparr>"
  have copy: "copy_message ?ka ?m (receiver d) ?dm ?h (cid l) = Inr ?kb"
    using copy_message_eq[of ?ka th "receiver d" rt ?m ?dm "cid l"] st thr(3) by simp
  have "send_channel_payload ?kb ?m (receiver d) ?dm f = Inr (Return (RErr ERR_INVALID_PAYLOAD), ?k')" for f
    using bad st(1) thr(3)
    by (simp add: send_channel_payload_def current_channel_def kdefs deref_def abort_receiver_def
        split: option.splits)
  then have "deliver I ?ka ch syscall ?m ?h (cid l) (receiver d) = Inr (Return (RErr ERR_INVALID_PAYLOAD), ?k')"
    using st(10) copy hdr by (simp add: deliver_def Let_def kdefs deref_def)
  moreover have "sys_ipc I k i syscall = deliver I ?ka ch syscall ?m ?h (cid l) (receiver d)"
    using st sys by (simp add: sys_ipc_def send_phase_def Let_def kdefs deref_def)
  moreover have "receiver d \<notin> set (runqueue k)" using sched_invD(5)[OF st(11)] st(10) thr(2) by fastforce
  moreover have "unwaited ?k' {receiver d}"
    using receiver_waits_once[OF st(12) st(6) st(9)] by (simp add: unwaited_def)
  ultimately show ?thesis using thr by (intro exI[where x = ?k']) (simp add: upd_buf_def)
qed

definition sc_bad_payload :: kernel where
  "sc_bad_payload = sc_kernel\<lparr>threads := (threads sc_kernel)(0x100 \<mapsto>
     (sc_thread 3 False)\<lparr>user_msg := (empty_message USER_DATA_ROOM)\<lparr>header := MSG_CHANNEL_PAYLOAD, payload_channel := 3\<rparr>\<rparr>)\<rparr>"

lemma sc_bad_call:
  "call_state sc_bad_payload 1 0x1000
     ((sc_thread 3 False)\<lparr>user_msg := (empty_message USER_DATA_ROOM)\<lparr>header := MSG_CHANNEL_PAYLOAD, payload_channel := 3\<rparr>\<rparr>)
     sc_chan1 sc_chan2 sc_chan2 (sc_thread 4 True)"
proof -
  have q: "quiet sc_kernel sc_bad_payload"
    by (auto intro!: quiet_same_chans simp: sc_bad_payload_def same_sched_def fun_eq_iff sc_defs)
  have "running sc_bad_payload" "current sc_bad_payload \<noteq> idle_thread sc_bad_payload"
    using quiet_running[OF q] sc_running by (simp_all add: sc_bad_payload_def)
  then show ?thesis using quiet_inv[OF q sc_inv]
    by (simp add: call_state_def sc_bad_payload_def sc_defs current_channel_def kdefs deref_def table_ptr_def
        table_get_def slot_at_def message_ok_def buf_msg_def empty_message_def USER_DATA_ROOM_def KERNEL_DATA_ROOM_def
        PAGE_SIZE_def)
qed

theorem bad_payload_strands_receiver_witness:
  "\<exists>k' rt'. sys_ipc sc_idl sc_bad_payload 1 IPC_SEND = Inr (Return (RErr ERR_INVALID_PAYLOAD), k')
     \<and> threads k' 0x200 = Some rt' \<and> blocked rt' \<and> 0x200 \<notin> set (runqueue k') \<and> unwaited k' {0x200}"
proof -
  let ?th = "(sc_thread 3 False)\<lparr>user_msg := (empty_message USER_DATA_ROOM)\<lparr>header := MSG_CHANNEL_PAYLOAD, payload_channel := 3\<rparr>\<rparr>"
  have m: "buf_msg (on_kernel_buffer ?th) ?th = (empty_message USER_DATA_ROOM)\<lparr>header := MSG_CHANNEL_PAYLOAD, payload_channel := 3\<rparr>"
    by (simp add: buf_msg_def sc_thread_def fresh_thread_def)
  have h: "header (buf_msg (on_kernel_buffer ?th) ?th) AND MSG_CHANNEL_PAYLOAD \<noteq> 0"
    unfolding m by (simp add: MSG_CHANNEL_PAYLOAD_def)
  have b: "current_channel sc_bad_payload (payload_channel (buf_msg (on_kernel_buffer ?th) ?th)) = Inr 0"
    unfolding m by (simp add: sc_bad_payload_def sc_defs current_channel_def kdefs deref_def table_ptr_def table_get_def slot_at_def)
  have s: "IPC_SEND AND IPC_SEND \<noteq> 0" by (simp add: IPC_SEND_def)
  have r: "receiver sc_chan2 = 0x200" by (simp add: sc_chan2_def)
  from bad_payload_strands_receiver[OF sc_bad_call h b s, of sc_idl] show ?thesis unfolding r by blast
qed

text \<open>
  C16: a notification that arrives before its receiver does not wake it. When a
  notification is pending on a channel and no sender waits there, a thread that starts
  to receive on the channel blocks all the same; the pending bits stay in the channel, and
  the thread waits until another message or notification comes.
\<close>

theorem pending_notification_blocks:
  assumes st: "threads k (current k) = Some th" "current_channel k i = Inr ch" "ch \<noteq> 0" "chans k ch = Some c"
      "\<not> destructed c" "chans k (transfer_to c) = Some r" "\<not> destructed r" "receiver r = 0" "queue r = []"
    and pending: "ch_notification r \<noteq> 0"
    and sys: "syscall AND IPC_SEND = 0" "syscall AND IPC_RECV \<noteq> 0"
  shows "\<exists>k' th' r'. sys_ipc I k i syscall = Inr (Switched, k')
    \<and> threads k' (current k) = Some th' \<and> blocked th'
    \<and> chans k' (transfer_to c) = Some r' \<and> ch_notification r' = ch_notification r \<and> receiver r' = current k"
proof -
  let ?m = "on_kernel_buffer th"
  have run: "sys_ipc I k i syscall = recv_phase k ch ?m"
    using st sys by (simp add: sys_ipc_def Let_def kdefs deref_def)
  let ?th = "th\<lparr>blocked := True, frames := RecvWait (transfer_to c) ?m # frames th\<rparr>"
  let ?k = "k\<lparr>chans := (chans k)(transfer_to c \<mapsto> r\<lparr>receiver := current k\<rparr>), threads := (threads k)(current k \<mapsto> ?th)\<rparr>"
  have rp: "recv_phase k ch ?m = rbind (thread_switch ?k) (\<lambda>k. Inr (Switched, k))"
    using recv_phase_waits[OF st(4,6,7,8,9,1)] by simp
  obtain k' where sw: "thread_switch ?k = Inr k'" "threads k' = threads ?k" "chans k' = chans ?k"
    by (cases "runqueue k") (auto simp: thread_switch_def scheduler_def kdefs deref_def)
  then show ?thesis unfolding run rp sw(1) by simp
qed

theorem pending_notification_blocks_witness:
  "\<exists>k k' th'. (\<exists>c. chans k 0x1000 = Some c \<and> ch_notification c = 4) \<and> sys_ipc sc_idl k 1 IPC_RECV = Inr (Switched, k')
     \<and> threads k' 0x100 = Some th' \<and> blocked th'"
proof -
  let ?c = "sc_chan1\<lparr>ch_notification := 4\<rparr>"
  let ?k = "sc_kernel\<lparr>chans := (chans sc_kernel)(0x1000 \<mapsto> ?c)\<rparr>"
  have "threads ?k (current ?k) = Some (sc_thread 3 False)" "current_channel ?k 1 = Inr 0x1000" "(0x1000 :: addr) \<noteq> 0"
    "chans ?k 0x1000 = Some ?c" "\<not> destructed ?c" "chans ?k (transfer_to ?c) = Some ?c" "\<not> destructed ?c" "receiver ?c = 0"
    "queue ?c = []" "ch_notification ?c \<noteq> 0" "IPC_RECV AND IPC_SEND = 0" "IPC_RECV AND IPC_RECV \<noteq> 0"
    by (simp_all add: sc_defs current_channel_def kdefs deref_def table_ptr_def table_get_def slot_at_def IPC_SEND_def IPC_RECV_def)
  from pending_notification_blocks[OF this, of sc_idl] have
    "\<exists>k' th'. sys_ipc sc_idl ?k 1 IPC_RECV = Inr (Switched, k') \<and> threads k' 0x100 = Some th' \<and> blocked th'"
    by (auto simp: sc_kernel_def)
  moreover have "chans ?k 0x1000 = Some ?c" "ch_notification ?c = 4" by simp_all
  ultimately show ?thesis by blast
qed

text \<open>
  C17: the fast path forgets IPC_NOBLOCK. A non-blocking call (send and receive) enters
  through the fast path test, and the fallback passes on IPC_SEND and IPC_RECV only. When
  no receiver waits, the caller is put to sleep in the sender queue, where the same call
  of sys_ipc with the flag would return ERR_WOULD_BLOCK at once.
\<close>

theorem nonblocking_call_blocks:
  assumes st: "threads k (current k) = Some th" "current_channel k (as_int a0) = Inr ch" "ch \<noteq> 0" "chans k ch = Some c"
      "chans k (linked_with c) = Some l" "chans k (transfer_to l) = Some d" "chans k (transfer_to c) = Some r"
      "\<not> destructed c" "\<not> destructed d" "receiver d = 0"
    and r: "receiver r = 0 \<or> in_object_arena (receiver r)"
  shows "sys_ipc I k (as_int a0) (IPC_SEND OR IPC_RECV OR IPC_NOBLOCK) = Inr (Return (RErr ERR_WOULD_BLOCK), k)
    \<and> (\<exists>k' th' d'. syscall_handler I k a0 a1 (ucast (IPC_SEND OR IPC_RECV OR IPC_NOBLOCK)) = Inr (Switched, k')
        \<and> threads k' (current k) = Some th' \<and> blocked th'
        \<and> chans k' (transfer_to l) = Some d' \<and> queue d' = queue d @ [current k])"
proof
  show "sys_ipc I k (as_int a0) (IPC_SEND OR IPC_RECV OR IPC_NOBLOCK) = Inr (Return (RErr ERR_WOULD_BLOCK), k)"
    using st by (simp add: sys_ipc_def send_phase_def Let_def kdefs deref_def IPC_SEND_def IPC_RECV_def IPC_NOBLOCK_def)
next
  let ?m = "on_kernel_buffer th" and ?h = "header (buf_msg (on_kernel_buffer th) th)"
  have "slowpath ?h c r d \<noteq> 0" using slowpath_zero_iff[OF r, of ?h c d] st(10) by simp
  then have fp: "sys_ipc_fastpath I k (as_int a0) = sys_ipc I k (as_int a0) (IPC_SEND OR IPC_RECV)"
    using st by (simp add: sys_ipc_fastpath_def Let_def kdefs deref_def)
  have sy: "syscall_handler I k a0 a1 (ucast (IPC_SEND OR IPC_RECV OR IPC_NOBLOCK)) = sys_ipc_fastpath I k (as_int a0)"
    by (simp add: syscall_handler_def FASTPATH_SYSCALL_TEST_def IPC_SEND_def IPC_RECV_def IPC_NOBLOCK_def)
  let ?ks = "k\<lparr>chans := (chans k)(transfer_to l \<mapsto> d\<lparr>queue := queue d @ [current k]\<rparr>),
      threads := (threads k)(current k \<mapsto> th\<lparr>blocked_on := transfer_to l, blocked := True,
        frames := SendWait ch (IPC_SEND OR IPC_RECV) ?m ?h # frames th\<rparr>)\<rparr>"
  have wait: "sys_ipc I k (as_int a0) (IPC_SEND OR IPC_RECV) = rbind (thread_switch ?ks) (\<lambda>k. Inr (Switched, k))"
    using st by (simp add: sys_ipc_def send_phase_def Let_def kdefs deref_def IPC_SEND_def IPC_RECV_def IPC_NOBLOCK_def
        thread_block_def suspend_def push_frame_def)
  obtain k' where "thread_switch ?ks = Inr k'" "threads k' = threads ?ks" "chans k' = chans ?ks"
    by (cases "runqueue k") (auto simp: thread_switch_def scheduler_def kdefs deref_def)
  then show "\<exists>k' th' d'. syscall_handler I k a0 a1 (ucast (IPC_SEND OR IPC_RECV OR IPC_NOBLOCK)) = Inr (Switched, k')
        \<and> threads k' (current k) = Some th' \<and> blocked th'
        \<and> chans k' (transfer_to l) = Some d' \<and> queue d' = queue d @ [current k]"
    unfolding sy fp wait by simp
qed

theorem nonblocking_call_blocks_witness:
  "\<exists>k' th'. syscall_handler sc_idl sc_busy 1 0 (ucast (IPC_SEND OR IPC_RECV OR IPC_NOBLOCK)) = Inr (Switched, k')
     \<and> threads k' 0x100 = Some th' \<and> blocked th'"
proof -
  have "threads sc_busy (current sc_busy) = Some (sc_thread 3 False)" "current_channel sc_busy (as_int 1) = Inr 0x1000"
    "(0x1000 :: addr) \<noteq> 0" "chans sc_busy 0x1000 = Some sc_chan1"
    "chans sc_busy (linked_with sc_chan1) = Some (sc_chan2\<lparr>receiver := 0\<rparr>)"
    "chans sc_busy (transfer_to (sc_chan2\<lparr>receiver := 0\<rparr>)) = Some (sc_chan2\<lparr>receiver := 0\<rparr>)"
    "chans sc_busy (transfer_to sc_chan1) = Some sc_chan1" "\<not> destructed sc_chan1"
    "\<not> destructed (sc_chan2\<lparr>receiver := 0\<rparr>)" "receiver (sc_chan2\<lparr>receiver := 0\<rparr>) = 0"
    "receiver sc_chan1 = 0 \<or> in_object_arena (receiver sc_chan1)"
    by (simp_all add: sc_busy_def sc_defs current_channel_def kdefs deref_def table_ptr_def table_get_def slot_at_def as_int_def)
  from conjunct2[OF nonblocking_call_blocks[OF this, of sc_idl 0]] show ?thesis by (auto simp: sc_busy_def sc_kernel_def)
qed

end
