(* ===== verification/ListHead.thy ===== *)
theory ListHead
  imports Prelude
begin

text \<open>
  The intrusive circular doubly linked lists of libs/libcommon/include/list.h on
  an explicit store: a partial map from addresses to \<open>list_head\<close> nodes. Reading
  or writing an address that holds no node is a \<open>Fault\<close>. The predicate \<open>dlist\<close>
  relates a store and a list head to the HOL list of the linked nodes; every
  operation is shown to implement the corresponding list operation and to leave
  every other node alone.
\<close>

section \<open>Store and operations\<close>

record list_head =
  prev :: addr
  "next" :: addr

type_synonym lstore = "addr \<Rightarrow> list_head option"

definition set_prev :: "lstore \<Rightarrow> addr \<Rightarrow> addr \<Rightarrow> lstore res" where
  "set_prev h a v = rbind (deref h a) (\<lambda>n. Inr (h(a \<mapsto> n\<lparr>prev := v\<rparr>)))"

definition set_next :: "lstore \<Rightarrow> addr \<Rightarrow> addr \<Rightarrow> lstore res" where
  "set_next h a v = rbind (deref h a) (\<lambda>n. Inr (h(a \<mapsto> n\<lparr>next := v\<rparr>)))"

definition list_is_empty :: "lstore \<Rightarrow> addr \<Rightarrow> bool res" where
  "list_is_empty h list = rbind (deref h list) (\<lambda>n. Inr (next n = list))"

definition list_insert :: "lstore \<Rightarrow> addr \<Rightarrow> addr \<Rightarrow> addr \<Rightarrow> lstore res" where
  "list_insert h p n new =
     rbind (set_prev h new p) (\<lambda>h.
     rbind (set_next h new n) (\<lambda>h.
     rbind (set_prev h n new) (\<lambda>h.
     set_next h p new)))"

definition list_init :: "lstore \<Rightarrow> addr \<Rightarrow> lstore res" where
  "list_init h list = rbind (set_prev h list list) (\<lambda>h. set_next h list list)"

text \<open>Every field is read when the statement that mentions it runs.\<close>

definition list_remove :: "lstore \<Rightarrow> addr \<Rightarrow> lstore res" where
  "list_remove h x =
     rbind (deref h x) (\<lambda>n.
     rbind (set_next h (prev n) (next n)) (\<lambda>h.
     rbind (deref h x) (\<lambda>n.
     rbind (set_prev h (next n) (prev n)) (\<lambda>h.
     rbind (set_next h x INVALID_POINTER) (\<lambda>h.
     set_prev h x INVALID_POINTER)))))"

definition list_push_back :: "lstore \<Rightarrow> addr \<Rightarrow> addr \<Rightarrow> lstore res" where
  "list_push_back h list new_tail =
     rbind (deref h list) (\<lambda>n. list_insert h (prev n) list new_tail)"

text \<open>A null result is \<open>None\<close>.\<close>

definition list_pop_front :: "lstore \<Rightarrow> addr \<Rightarrow> (addr option \<times> lstore) res" where
  "list_pop_front h list =
     rbind (deref h list) (\<lambda>n.
       if next n = list then Inr (None, h)
       else
         rbind (deref h (next n)) (\<lambda>hd.
         rbind (set_next h list (next hd)) (\<lambda>h.
         rbind (set_prev h (next hd) list) (\<lambda>h.
         Inr (Some (next n), h)))))"

text \<open>
  LIST_FOR_EACH reads the successor of an element before it runs the body, so
  that the body may unlink the element. The fuel bounds the number of
  iterations.
\<close>

fun list_iterate ::
  "nat \<Rightarrow> (addr \<Rightarrow> lstore \<times> 's \<Rightarrow> (lstore \<times> 's) res) \<Rightarrow> addr \<Rightarrow> addr \<Rightarrow> lstore \<times> 's \<Rightarrow> (lstore \<times> 's) res"
where
  "list_iterate 0 body list elem hs = Inl NoFuel"
| "list_iterate (Suc fuel) body list elem hs =
     (if elem = list then Inr hs
      else rbind (deref (fst hs) elem) (\<lambda>n.
           rbind (body elem hs) (\<lambda>hs'.
           list_iterate fuel body list (next n) hs')))"

definition LIST_FOR_EACH ::
  "nat \<Rightarrow> (addr \<Rightarrow> lstore \<times> 's \<Rightarrow> (lstore \<times> 's) res) \<Rightarrow> addr \<Rightarrow> lstore \<times> 's \<Rightarrow> (lstore \<times> 's) res"
where
  "LIST_FOR_EACH fuel body list hs =
     rbind (deref (fst hs) list) (\<lambda>n. list_iterate fuel body list (next n) hs)"

section \<open>Abstraction\<close>

text \<open>Consecutive addresses of a path are linked in both directions.\<close>

fun linked :: "lstore \<Rightarrow> addr list \<Rightarrow> bool" where
  "linked h (a # b # xs) \<longleftrightarrow>
     map_option next (h a) = Some b \<and> map_option prev (h b) = Some a \<and> linked h (b # xs)"
| "linked h xs \<longleftrightarrow> True"

definition dlist :: "lstore \<Rightarrow> addr \<Rightarrow> addr list \<Rightarrow> bool" where
  "dlist h list xs \<longleftrightarrow> distinct (list # xs) \<and> linked h (list # xs @ [list])"

named_theorems list_simps \<open>store updates of the list operations\<close>

lemmas list_op_defs = set_prev_def set_next_def list_is_empty_def list_insert_def
  list_init_def list_remove_def list_push_back_def list_pop_front_def

lemma linked_append:
  "linked h (xs @ y # ys) \<longleftrightarrow> linked h (xs @ [y]) \<and> linked h (y # ys)"
proof (induction xs)
  case (Cons a xs)
  then show ?case by (cases xs) auto
qed simp

lemma linked_cong:
  assumes "\<And>a. a \<in> set (butlast xs) \<Longrightarrow> map_option next (h' a) = map_option next (h a)"
    and "\<And>a. a \<in> set (tl xs) \<Longrightarrow> map_option prev (h' a) = map_option prev (h a)"
  shows "linked h' xs = linked h xs"
  using assms
proof (induction xs rule: induct_list012)
  case (3 a b xs)
  have "linked h' (b # xs) = linked h (b # xs)"
    by (rule 3(2)) (use 3(3,4) in \<open>auto split: if_splits\<close>)
  then show ?case using 3(3)[of a] 3(4)[of b] by simp
qed auto

lemma linked_ConsD:
  "linked h (a # b # xs) \<Longrightarrow>
   \<exists>m n. h a = Some m \<and> next m = b \<and> h b = Some n \<and> prev n = a"
  by auto

lemma linked_in_dom: "linked h (a # b # xs) \<Longrightarrow> x \<in> set (a # b # xs) \<Longrightarrow> x \<in> dom h"
  by (induction xs arbitrary: a b) auto

lemma dlist_in_dom: "dlist h l xs \<Longrightarrow> x \<in> set (l # xs) \<Longrightarrow> x \<in> dom h"
  unfolding dlist_def
  using linked_in_dom[of h l "hd (xs @ [l])" "tl (xs @ [l])" x]
  by (cases xs) auto

lemma dlist_frame:
  assumes "dlist h l xs" "\<And>a. a \<in> set (l # xs) \<Longrightarrow> h' a = h a"
  shows "dlist h' l xs"
  using assms unfolding dlist_def
  by (subst linked_cong[of _ h' h]) (auto dest!: in_set_butlastD)

lemma dlist_inject:
  assumes "dlist h l xs" "dlist h l ys" shows "xs = ys"
proof -
  have "linked h (a # xs @ [l]) \<Longrightarrow> linked h (a # ys @ [l]) \<Longrightarrow> l \<notin> set xs \<Longrightarrow> l \<notin> set ys \<Longrightarrow> xs = ys" for a
  proof (induction xs arbitrary: a ys)
    case Nil
    then show ?case by (cases ys) auto
  next
    case (Cons x xs)
    then show ?case by (cases ys) auto
  qed
  then show ?thesis using assms by (auto simp: dlist_def)
qed

section \<open>Operations against the abstraction\<close>

lemma dlist_next: "dlist h l xs \<Longrightarrow> \<exists>n. h l = Some n \<and> next n = hd (xs @ [l])"
  by (cases xs) (auto simp: dlist_def)

lemma dlist_prev: "dlist h l xs \<Longrightarrow> \<exists>n. h l = Some n \<and> prev n = last (l # xs)"
  by (cases xs rule: rev_cases) (auto simp: dlist_def linked_append[of h "l # _" _ "[_]", simplified])

lemma list_is_empty_dlist: "dlist h l xs \<Longrightarrow> list_is_empty h l = Inr (xs = [])"
  using dlist_next[of h l xs]
  by (cases xs) (auto simp: list_is_empty_def deref_def dlist_def)

lemma list_init_dlist:
  "l \<in> dom h \<Longrightarrow> \<exists>h'. list_init h l = Inr h' \<and> dlist h' l [] \<and> (\<forall>a. a \<noteq> l \<longrightarrow> h' a = h a)"
  by (auto simp: list_op_defs dlist_def)

lemma list_insert_store:
  assumes "x \<in> dom h" "p \<in> dom h" "n \<in> dom h" "x \<noteq> p" "x \<noteq> n"
  shows "\<exists>h'. list_insert h p n x = Inr h'
    \<and> map_option next (h' x) = Some n \<and> map_option prev (h' x) = Some p
    \<and> map_option next (h' p) = Some x \<and> map_option prev (h' n) = Some x
    \<and> (\<forall>a. a \<noteq> p \<longrightarrow> a \<noteq> x \<longrightarrow> map_option next (h' a) = map_option next (h a))
    \<and> (\<forall>a. a \<noteq> n \<longrightarrow> a \<noteq> x \<longrightarrow> map_option prev (h' a) = map_option prev (h a))
    \<and> (\<forall>a. a \<noteq> p \<longrightarrow> a \<noteq> n \<longrightarrow> a \<noteq> x \<longrightarrow> h' a = h a)
    \<and> dom h' = dom h"
proof -
  obtain nx np nn where "h x = Some nx" "h p = Some np" "h n = Some nn" using assms by blast
  then show ?thesis using assms(4,5)
    by (cases "p = n") (simp_all add: list_insert_def set_prev_def set_next_def deref_def dom_def, auto)
qed
lemma list_push_back_dlist:
  assumes d: "dlist h l xs" and x: "x \<in> dom h" "x \<notin> set (l # xs)"
  shows "\<exists>h'. list_push_back h l x = Inr h' \<and> dlist h' l (xs @ [x]) \<and> dom h' = dom h
    \<and> (\<forall>a. a \<notin> set (l # xs @ [x]) \<longrightarrow> h' a = h a)"
proof -
  obtain as p where as: "l # xs = as @ [p]"
    using rev_exhaust[of "l # xs"] by auto
  have split: "l # xs @ ys = as @ p # ys" for ys
    using arg_cong[OF as, of "\<lambda>zs. zs @ ys"] by simp
  have p: "p \<in> set (l # xs)" "last (l # xs) = p" by (simp_all only: as set_append last_snoc) simp
  obtain n where n: "h l = Some n" "prev n = p"
    using dlist_prev[OF d] p(2) by auto
  obtain h' where h': "list_insert h p l x = Inr h'"
    "map_option next (h' x) = Some l" "map_option prev (h' x) = Some p"
    "map_option next (h' p) = Some x" "map_option prev (h' l) = Some x"
    "\<And>a. a \<noteq> p \<Longrightarrow> a \<noteq> x \<Longrightarrow> map_option next (h' a) = map_option next (h a)"
    "\<And>a. a \<noteq> l \<Longrightarrow> a \<noteq> x \<Longrightarrow> map_option prev (h' a) = map_option prev (h a)"
    "\<And>a. a \<noteq> p \<Longrightarrow> a \<noteq> l \<Longrightarrow> a \<noteq> x \<Longrightarrow> h' a = h a" "dom h' = dom h"
    using list_insert_store[of x h p l] x p(1) dlist_in_dom[OF d] by fastforce
  have old: "linked h (as @ [p])"
    using d linked_append[of h as p "[l]"] unfolding dlist_def split by simp
  have dist: "distinct (as @ [p])" using d unfolding dlist_def as by simp
  have sub: "set as \<subseteq> set (l # xs)" "tl (as @ [p]) = xs"
    using arg_cong[OF as, of set] arg_cong[OF as, of tl] by auto
  have "linked h' (as @ [p]) = linked h (as @ [p])"
    by (rule linked_cong) (use dist x d sub in \<open>auto intro!: h'(6,7) simp: dlist_def\<close>)
  then have "linked h' (as @ p # [x, l])"
    using old h'(2-5) by (subst linked_append) simp
  then have "linked h' (l # (xs @ [x]) @ [l])"
    by (simp only: append_assoc append.simps split)
  then have "dlist h' l (xs @ [x])"
    using d x by (auto simp: dlist_def)
  moreover have "h' a = h a" if "a \<notin> set (l # xs @ [x])" for a
    using that p(1) by (intro h'(8)) auto
  moreover have "list_push_back h l x = Inr h'"
    using n h'(1) by (simp add: list_push_back_def deref_def)
  ultimately show ?thesis using h'(9) by blast
qed
lemma list_remove_store:
  assumes "h x = Some nx" "prev nx = p" "next nx = n" "p \<in> dom h" "n \<in> dom h" "x \<noteq> p" "x \<noteq> n"
  shows "\<exists>h'. list_remove h x = Inr h'
    \<and> h' x = Some (nx\<lparr>prev := INVALID_POINTER, next := INVALID_POINTER\<rparr>)
    \<and> map_option next (h' p) = Some n \<and> map_option prev (h' n) = Some p
    \<and> (\<forall>a. a \<noteq> p \<longrightarrow> a \<noteq> x \<longrightarrow> map_option next (h' a) = map_option next (h a))
    \<and> (\<forall>a. a \<noteq> n \<longrightarrow> a \<noteq> x \<longrightarrow> map_option prev (h' a) = map_option prev (h a))
    \<and> (\<forall>a. a \<noteq> p \<longrightarrow> a \<noteq> n \<longrightarrow> a \<noteq> x \<longrightarrow> h' a = h a)
    \<and> dom h' = dom h"
proof -
  obtain np nn where "h p = Some np" "h n = Some nn" using assms by blast
  then show ?thesis using assms
    by (cases "p = n") (simp_all add: list_remove_def set_prev_def set_next_def deref_def dom_def, auto)
qed

text \<open>The neighbours of a linked node, as a splitting of the circular path around it.\<close>

lemma dlist_split:
  assumes d: "dlist h l (ys @ x # zs)"
  obtains as p n bs where "l # ys = as @ [p]" "zs @ [l] = n # bs"
    "linked h (as @ [p])" "linked h (p # x # [n])" "linked h (n # bs)"
    "distinct (as @ p # x # zs)" "distinct (ys @ x # n # bs)"
proof -
  obtain as p where as: "l # ys = as @ [p]" using rev_exhaust[of "l # ys"] by auto
  obtain n bs where bs: "zs @ [l] = n # bs" by (cases "zs @ [l]") auto
  have "l # (ys @ x # zs) @ [l] = as @ p # x # n # bs"
    using arg_cong[OF as, of "\<lambda>us. us @ x # zs @ [l]"] bs by simp
  then have "linked h (as @ p # x # n # bs)" using d by (simp add: dlist_def)
  then have links: "linked h (as @ [p])" "linked h (p # x # [n])" "linked h (n # bs)"
    by (simp_all add: linked_append[of h as p "x # n # bs"])
  have "as @ p # x # zs = l # ys @ x # zs"
    using arg_cong[OF as, of "\<lambda>us. us @ x # zs"] by simp
  then have d1: "distinct (as @ p # x # zs)" using d unfolding dlist_def by metis
  have "distinct (ys @ x # (zs @ [l]))" using d by (auto simp: dlist_def)
  then have d2: "distinct (ys @ x # n # bs)" unfolding bs .
  show thesis by (rule that[OF as bs links d1 d2])
qed

lemma linked_splice:
  assumes d: "dlist h l (ys @ x # zs)"
    and p: "p = last (l # ys)" and n: "n = hd (zs @ [l])"
    and links: "map_option next (h' p) = Some n" "map_option prev (h' n) = Some p"
    and nx: "\<And>a. a \<noteq> p \<Longrightarrow> a \<noteq> x \<Longrightarrow> map_option next (h' a) = map_option next (h a)"
    and pr: "\<And>a. a \<noteq> n \<Longrightarrow> a \<noteq> x \<Longrightarrow> map_option prev (h' a) = map_option prev (h a)"
  shows "dlist h' l (ys @ zs)"
proof -
  obtain as p' n' bs where s: "l # ys = as @ [p']" "zs @ [l] = n' # bs"
    "linked h (as @ [p'])" "linked h (p' # x # [n'])" "linked h (n' # bs)"
    "distinct (as @ p' # x # zs)" "distinct (ys @ x # n' # bs)"
    using dlist_split[OF d] by metis
  have eq: "p' = p" "n' = n" using p n s(1,2) by (metis last_snoc, metis list.sel(1))
  have sets: "tl (as @ [p]) = ys" "butlast (n # bs) = zs"
    using arg_cong[OF s(1), of tl] arg_cong[OF s(2), of butlast] eq by auto
  have "linked h' (as @ [p]) = linked h (as @ [p])"
    by (rule linked_cong) (use s(6,7) eq sets in \<open>auto intro!: nx pr\<close>)
  moreover have "linked h' (n # bs) = linked h (n # bs)"
    by (rule linked_cong) (use s(6,7) eq sets in \<open>auto intro!: nx pr\<close>)
  ultimately have "linked h' (as @ p # n # bs)"
    using s links eq by (simp add: linked_append[of h' as p "n # bs"])
  moreover have "l # (ys @ zs) @ [l] = as @ p # n # bs"
    using arg_cong[OF s(1), of "\<lambda>us. us @ zs @ [l]"] s(2) eq by simp
  ultimately show ?thesis using d by (auto simp: dlist_def)
qed

lemma dlist_neighbours:
  assumes "dlist h l (ys @ x # zs)"
  shows "\<exists>nx. h x = Some nx \<and> prev nx = last (l # ys) \<and> next nx = hd (zs @ [l])"
    "x \<noteq> last (l # ys)" "x \<noteq> hd (zs @ [l])"
    "last (l # ys) \<in> set (l # ys @ x # zs)" "hd (zs @ [l]) \<in> set (l # ys @ x # zs)"
proof -
  obtain as p n bs where s: "l # ys = as @ [p]" "zs @ [l] = n # bs" "linked h (p # x # [n])"
    "distinct (as @ p # x # zs)" "distinct (ys @ x # n # bs)"
    using dlist_split[OF assms] by metis
  have e: "last (l # ys) = p" "hd (zs @ [l]) = n" using s(1,2) by (metis last_snoc, metis list.sel(1))
  show "\<exists>nx. h x = Some nx \<and> prev nx = last (l # ys) \<and> next nx = hd (zs @ [l])"
    unfolding e using s(3) by auto
  show "x \<noteq> last (l # ys)" "x \<noteq> hd (zs @ [l])" unfolding e using s(4,5) by auto
  show "last (l # ys) \<in> set (l # ys @ x # zs)" by (cases ys rule: rev_cases) simp_all
  show "hd (zs @ [l]) \<in> set (l # ys @ x # zs)" by (cases zs) simp_all
qed
lemma list_remove_dlist:
  assumes d: "dlist h l (ys @ x # zs)"
  shows "\<exists>h'. list_remove h x = Inr h' \<and> dlist h' l (ys @ zs) \<and> dom h' = dom h
    \<and> map_option prev (h' x) = Some INVALID_POINTER \<and> map_option next (h' x) = Some INVALID_POINTER
    \<and> (\<forall>a. a \<notin> set (l # ys @ x # zs) \<longrightarrow> h' a = h a)"
proof -
  let ?p = "last (l # ys)" and ?n = "hd (zs @ [l])"
  note nb = dlist_neighbours[OF d]
  obtain nx where nx: "h x = Some nx" "prev nx = ?p" "next nx = ?n" using nb(1) by blast
  have "?p \<in> dom h" "?n \<in> dom h" using nb(4,5) dlist_in_dom[OF d] by auto
  from list_remove_store[OF nx this nb(2,3)] obtain h' where h':
    "list_remove h x = Inr h'" "h' x = Some (nx\<lparr>prev := INVALID_POINTER, next := INVALID_POINTER\<rparr>)"
    "map_option next (h' ?p) = Some ?n" "map_option prev (h' ?n) = Some ?p"
    "\<And>a. a \<noteq> ?p \<Longrightarrow> a \<noteq> x \<Longrightarrow> map_option next (h' a) = map_option next (h a)"
    "\<And>a. a \<noteq> ?n \<Longrightarrow> a \<noteq> x \<Longrightarrow> map_option prev (h' a) = map_option prev (h a)"
    "\<And>a. a \<noteq> ?p \<Longrightarrow> a \<noteq> ?n \<Longrightarrow> a \<noteq> x \<Longrightarrow> h' a = h a" "dom h' = dom h"
    by blast
  have "dlist h' l (ys @ zs)" by (rule linked_splice[OF d refl refl h'(3-6)])
  moreover have "h' a = h a" if "a \<notin> set (l # ys @ x # zs)" for a
    by (rule h'(7)) (use that nb(4,5) in auto)
  ultimately show ?thesis using h'(1,2,8) by auto
qed

lemma list_pop_front_dlist:
  assumes d: "dlist h l (x # zs)"
  shows "\<exists>h'. list_pop_front h l = Inr (Some x, h') \<and> dlist h' l zs \<and> dom h' = dom h
    \<and> (\<forall>a. a \<notin> set (l # zs) \<longrightarrow> h' a = h a)"
proof -
  let ?n = "hd (zs @ [l])"
  have "dlist h l ([] @ x # zs)" using d by simp
  note nb = dlist_neighbours[OF this]
  obtain nx where nx: "h x = Some nx" "next nx = ?n" using nb(1) by blast
  obtain nl where nl: "h l = Some nl" "next nl = x" using dlist_next[OF d] by auto
  obtain nn where nn: "h ?n = Some nn"
    using dlist_in_dom[OF d, of ?n] nb(5) by auto
  let ?h1 = "h(l \<mapsto> nl\<lparr>next := ?n\<rparr>)"
  obtain n1 where n1: "?h1 ?n = Some n1" using nn by (cases "?n = l") auto
  let ?h' = "?h1(?n \<mapsto> n1\<lparr>prev := l\<rparr>)"
  have run: "list_pop_front h l = Inr (Some x, ?h')"
    using nx nl n1 nb(2)
    by (simp add: list_pop_front_def set_next_def set_prev_def deref_def split: if_splits)
  have "dlist ?h' l ([] @ zs)"
    by (rule linked_splice[of h l "[]" x zs l ?n])
       (use d nl nn n1 in \<open>auto split: if_splits\<close>)
  moreover have "?h' a = h a" if "a \<notin> set (l # zs)" for a
    using that by (cases zs) auto
  moreover have "dom ?h' = dom h" using nl nn by auto
  ultimately show ?thesis using run by auto
qed

lemma list_pop_front_empty:
  "dlist h l [] \<Longrightarrow> list_pop_front h l = Inr (None, h)"
  using dlist_next[of h l "[]"] by (auto simp: list_pop_front_def deref_def)

text \<open>
  An element removed twice: its links are the invalid pointer, so that the second
  removal faults unless a node lives at that address.
\<close>

lemma list_remove_invalid:
  assumes "map_option prev (h x) = Some INVALID_POINTER" "INVALID_POINTER \<notin> dom h"
  shows "list_remove h x = Inl Fault"
  using assms by (auto simp: list_remove_def set_next_def deref_def domIff)

text \<open>Iterating over a list while the body unlinks the visited element.\<close>

lemma list_iterate_unlink:
  assumes "dlist h l xs" "length xs < fuel"
  shows "\<exists>h'. list_iterate fuel (\<lambda>x (h, seen). rmap (\<lambda>h. (h, seen @ [x])) (list_remove h x))
           l (hd (xs @ [l])) (h, seen) = Inr (h', seen @ xs) \<and> dlist h' l []
           \<and> dom h' = dom h \<and> (\<forall>a. a \<notin> set (l # xs) \<longrightarrow> h' a = h a)"
  using assms
proof (induction xs arbitrary: h fuel seen)
  case Nil
  then show ?case by (cases fuel) auto
next
  case (Cons x xs)
  obtain f where f: "fuel = Suc f" "length xs < f" using Cons.prems(2) by (cases fuel) auto
  obtain nx where nx: "h x = Some nx" "next nx = hd (xs @ [l])" "x \<noteq> l"
    using dlist_neighbours[of h l "[]" x xs] Cons.prems(1) by (auto simp: dlist_def)
  obtain h1 where h1: "list_remove h x = Inr h1" "dlist h1 l xs" "dom h1 = dom h"
    "\<forall>a. a \<notin> set (l # x # xs) \<longrightarrow> h1 a = h a"
    using list_remove_dlist[of h l "[]" x xs] Cons.prems(1) by auto
  from Cons.IH[OF h1(2) f(2), of "seen @ [x]"] show ?case
    using h1 nx by (auto simp: f(1) deref_def)
qed
section \<open>The queue interface\<close>

text \<open>
  What the kernel relies on when it uses a list as a queue of distinct nodes. The
  abstraction is relational, since a store may hold no well-formed list.
\<close>

fun push_all :: "('s \<Rightarrow> 'a \<Rightarrow> 's res) \<Rightarrow> 's \<Rightarrow> 'a list \<Rightarrow> 's res" where
  "push_all push s [] = Inr s"
| "push_all push s (x # xs) = rbind (push s x) (\<lambda>s. push_all push s xs)"

fun pop_n :: "('s \<Rightarrow> ('a option \<times> 's) res) \<Rightarrow> nat \<Rightarrow> 's \<Rightarrow> ('a option list \<times> 's) res" where
  "pop_n pop 0 s = Inr ([], s)"
| "pop_n pop (Suc k) s =
     rbind (pop s) (\<lambda>(r, s). rbind (pop_n pop k s) (\<lambda>(rs, s). Inr (r # rs, s)))"

locale node_queue =
  fixes push :: "'s \<Rightarrow> 'a \<Rightarrow> 's res"
    and pop :: "'s \<Rightarrow> ('a option \<times> 's) res"
    and holds :: "'s \<Rightarrow> 'a list \<Rightarrow> bool"
    and node :: "'s \<Rightarrow> 'a \<Rightarrow> bool"
  assumes push_law: "holds s xs \<Longrightarrow> node s x \<Longrightarrow> x \<notin> set xs \<Longrightarrow>
      \<exists>s'. push s x = Inr s' \<and> holds s' (xs @ [x]) \<and> node s' = node s"
    and pop_law: "holds s (x # xs) \<Longrightarrow> \<exists>s'. pop s = Inr (Some x, s') \<and> holds s' xs \<and> node s' = node s"
    and pop_empty: "holds s [] \<Longrightarrow> pop s = Inr (None, s)"
begin

lemma push_all_holds:
  "holds s xs \<Longrightarrow> distinct (xs @ ys) \<Longrightarrow> \<forall>y \<in> set ys. node s y \<Longrightarrow>
   \<exists>s'. push_all push s ys = Inr s' \<and> holds s' (xs @ ys) \<and> node s' = node s"
proof (induction ys arbitrary: s xs)
  case (Cons y ys)
  then obtain s1 where s1: "push s y = Inr s1" "holds s1 (xs @ [y])" "node s1 = node s"
    using push_law[of s xs y] by auto
  with Cons.IH[of s1 "xs @ [y]"] Cons.prems show ?case by auto
qed simp

lemma pop_n_holds:
  "holds s (xs @ ys) \<Longrightarrow>
   \<exists>s'. pop_n pop (length xs) s = Inr (map Some xs, s') \<and> holds s' ys \<and> node s' = node s"
proof (induction xs arbitrary: s)
  case (Cons x xs)
  then obtain s1 where s1: "pop s = Inr (Some x, s1)" "holds s1 (xs @ ys)" "node s1 = node s"
    using pop_law[of s x "xs @ ys"] by auto
  with Cons.IH[of s1] show ?case by auto
qed simp

lemma fifo_order:
  assumes "holds s []" "distinct xs" "\<forall>x \<in> set xs. node s x"
  shows "\<exists>s1 s2. push_all push s xs = Inr s1 \<and> pop_n pop (length xs) s1 = Inr (map Some xs, s2)
     \<and> holds s2 [] \<and> pop s2 = Inr (None, s2)"
proof -
  obtain s1 where s1: "push_all push s xs = Inr s1" "holds s1 (xs @ [])"
    using push_all_holds[of s "[]" xs] assms by auto
  with pop_n_holds[OF s1(2)] pop_empty show ?thesis by blast
qed

end

definition lq_push :: "lstore \<times> addr \<Rightarrow> addr \<Rightarrow> (lstore \<times> addr) res" where
  "lq_push s x = rmap (\<lambda>h. (h, snd s)) (list_push_back (fst s) (snd s) x)"

definition lq_pop :: "lstore \<times> addr \<Rightarrow> (addr option \<times> lstore \<times> addr) res" where
  "lq_pop s = rmap (\<lambda>(r, h). (r, h, snd s)) (list_pop_front (fst s) (snd s))"

definition lq_holds :: "lstore \<times> addr \<Rightarrow> addr list \<Rightarrow> bool" where
  "lq_holds s xs \<longleftrightarrow> dlist (fst s) (snd s) xs"

definition lq_node :: "lstore \<times> addr \<Rightarrow> addr \<Rightarrow> bool" where
  "lq_node s x \<longleftrightarrow> x \<in> dom (fst s) \<and> x \<noteq> snd s"

lemma lq_node_eq: "dom (fst s') = dom (fst s) \<Longrightarrow> snd s' = snd s \<Longrightarrow> lq_node s' = lq_node s"
  by (auto simp: lq_node_def fun_eq_iff)

interpretation lq: node_queue lq_push lq_pop lq_holds lq_node
proof unfold_locales
  fix s xs x
  assume "lq_holds s xs" "lq_node s x" "x \<notin> set xs"
  then obtain h' where "list_push_back (fst s) (snd s) x = Inr h'" "dlist h' (snd s) (xs @ [x])"
    "dom h' = dom (fst s)"
    using list_push_back_dlist[of "fst s" "snd s" xs x] by (auto simp: lq_holds_def lq_node_def)
  then show "\<exists>s'. lq_push s x = Inr s' \<and> lq_holds s' (xs @ [x]) \<and> lq_node s' = lq_node s"
    using lq_node_eq[of "(h', snd s)" s] by (simp add: lq_push_def lq_holds_def)
next
  fix s x xs
  assume "lq_holds s (x # xs)"
  then obtain h' where "list_pop_front (fst s) (snd s) = Inr (Some x, h')" "dlist h' (snd s) xs"
    "dom h' = dom (fst s)"
    using list_pop_front_dlist[of "fst s" "snd s" x xs] by (auto simp: lq_holds_def)
  then show "\<exists>s'. lq_pop s = Inr (Some x, s') \<and> lq_holds s' xs \<and> lq_node s' = lq_node s"
    using lq_node_eq[of "(h', snd s)" s] by (simp add: lq_pop_def lq_holds_def)
next
  fix s
  assume "lq_holds s []"
  then show "lq_pop s = Inr (None, s)"
    by (cases s) (simp add: lq_pop_def lq_holds_def list_pop_front_empty)
qed

section \<open>Lists with removal\<close>

text \<open>
  The lists of the kernel also lose elements in the middle (a thread that dies while
  it waits, a timer that expires). A program of pushes, pops and removals is compared
  with the same program on a HOL list: \<open>list_step\<close> is the specification, undefined
  (None) for a push of an element that is already there and for the removal of one
  that is not.
\<close>

datatype 'a list_op = PushOp 'a | PopOp | RemoveOp 'a

fun list_step :: "'a list_op \<Rightarrow> 'a list \<Rightarrow> ('a option \<times> 'a list) option" where
  "list_step (PushOp x) xs = (if x \<in> set xs then None else Some (None, xs @ [x]))"
| "list_step PopOp [] = Some (None, [])"
| "list_step PopOp (x # xs) = Some (Some x, xs)"
| "list_step (RemoveOp x) xs = (if x \<in> set xs then Some (None, remove1 x xs) else None)"

fun list_run :: "'a list_op list \<Rightarrow> 'a list \<Rightarrow> ('a option list \<times> 'a list) option" where
  "list_run [] xs = Some ([], xs)"
| "list_run (p # ps) xs =
     (case list_step p xs of
        None \<Rightarrow> None
      | Some (r, xs) \<Rightarrow> (case list_run ps xs of None \<Rightarrow> None | Some (rs, xs) \<Rightarrow> Some (r # rs, xs)))"

fun exec_op ::
  "('s \<Rightarrow> 'a \<Rightarrow> 's res) \<Rightarrow> ('s \<Rightarrow> ('a option \<times> 's) res) \<Rightarrow> ('s \<Rightarrow> 'a \<Rightarrow> 's res) \<Rightarrow> 'a list_op \<Rightarrow> 's \<Rightarrow> ('a option \<times> 's) res"
where
  "exec_op push pop unlink (PushOp x) s = rmap (Pair None) (push s x)"
| "exec_op push pop unlink PopOp s = pop s"
| "exec_op push pop unlink (RemoveOp x) s = rmap (Pair None) (unlink s x)"

fun exec_ops ::
  "('s \<Rightarrow> 'a \<Rightarrow> 's res) \<Rightarrow> ('s \<Rightarrow> ('a option \<times> 's) res) \<Rightarrow> ('s \<Rightarrow> 'a \<Rightarrow> 's res) \<Rightarrow> 'a list_op list \<Rightarrow> 's \<Rightarrow> ('a option list \<times> 's) res"
where
  "exec_ops push pop unlink [] s = Inr ([], s)"
| "exec_ops push pop unlink (p # ps) s =
     rbind (exec_op push pop unlink p s) (\<lambda>(r, s). rmap (\<lambda>(rs, s). (r # rs, s)) (exec_ops push pop unlink ps s))"

definition op_nodes :: "'a list_op list \<Rightarrow> 'a set" where
  "op_nodes ps = {x. PushOp x \<in> set ps}"

locale node_list = node_queue +
  fixes unlink :: "'s \<Rightarrow> 'a \<Rightarrow> 's res"
  assumes holds_distinct: "holds s xs \<Longrightarrow> distinct xs"
    and unlink_law: "holds s (ys @ x # zs) \<Longrightarrow> \<exists>s'. unlink s x = Inr s' \<and> holds s' (ys @ zs) \<and> node s' = node s"
begin

lemma exec_op_refines:
  assumes "holds s xs" "list_step p xs = Some (r, ys)" "\<forall>x \<in> op_nodes [p]. node s x"
  shows "\<exists>s'. exec_op push pop unlink p s = Inr (r, s') \<and> holds s' ys \<and> node s' = node s"
proof (cases p)
  case (PushOp x)
  then show ?thesis using assms push_law[OF assms(1), of x] by (auto simp: op_nodes_def split: if_splits)
next
  case PopOp
  then show ?thesis using assms pop_law pop_empty by (cases xs) fastforce+
next
  case (RemoveOp x)
  then have x: "x \<in> set xs" "ys = remove1 x xs" "r = None" using assms(2) by (auto split: if_splits)
  then obtain as bs where xs: "xs = as @ x # bs" "x \<notin> set as" using split_list_first[of x xs] by blast
  then show ?thesis using unlink_law[of s as x bs] assms(1) x RemoveOp by (auto simp: remove1_append)
qed

lemma exec_ops_refines:
  "holds s xs \<Longrightarrow> list_run ps xs = Some (rs, ys) \<Longrightarrow> \<forall>x \<in> op_nodes ps. node s x \<Longrightarrow>
   \<exists>s'. exec_ops push pop unlink ps s = Inr (rs, s') \<and> holds s' ys \<and> node s' = node s"
proof (induction ps arbitrary: s xs rs)
  case (Cons p ps)
  then obtain r xs1 rs1 where st: "list_step p xs = Some (r, xs1)" "list_run ps xs1 = Some (rs1, ys)" "rs = r # rs1"
    by (auto split: option.splits)
  have n: "\<forall>x \<in> op_nodes [p]. node s x" "\<forall>x \<in> op_nodes ps. node s x"
    using Cons.prems(3) by (auto simp: op_nodes_def)
  obtain s1 where s1: "exec_op push pop unlink p s = Inr (r, s1)" "holds s1 xs1" "node s1 = node s"
    using exec_op_refines[OF Cons.prems(1) st(1) n(1)] by blast
  then show ?case using Cons.IH[OF s1(2) st(2)] n(2) st(3) by fastforce
qed simp

end

definition lq_remove :: "lstore \<times> addr \<Rightarrow> addr \<Rightarrow> (lstore \<times> addr) res" where
  "lq_remove s x = rmap (\<lambda>h. (h, snd s)) (list_remove (fst s) x)"

interpretation lq: node_list lq_push lq_pop lq_holds lq_node lq_remove
proof unfold_locales
  fix s xs
  show "lq_holds s xs \<Longrightarrow> distinct xs" by (simp add: lq_holds_def dlist_def)
next
  fix s ys x zs
  assume "lq_holds s (ys @ x # zs)"
  then obtain h' where "list_remove (fst s) x = Inr h'" "dlist h' (snd s) (ys @ zs)" "dom h' = dom (fst s)"
    using list_remove_dlist[of "fst s" "snd s" ys x zs] by (auto simp: lq_holds_def)
  then show "\<exists>s'. lq_remove s x = Inr s' \<and> lq_holds s' (ys @ zs) \<and> lq_node s' = lq_node s"
    using lq_node_eq[of "(h', snd s)" s] by (simp add: lq_remove_def lq_holds_def)
qed

lemma lq_exec_head:
  "exec_ops lq_push lq_pop lq_remove ps s = Inr (rs, s') \<Longrightarrow> snd s' = snd s"
proof (induction ps arbitrary: s rs)
  case (Cons p ps)
  then obtain r s1 rs1 where e: "exec_op lq_push lq_pop lq_remove p s = Inr (r, s1)"
    "exec_ops lq_push lq_pop lq_remove ps s1 = Inr (rs1, s')" by (auto simp: rmap_def)
  have "snd s1 = snd s"
    using e(1) by (cases p) (auto simp: lq_push_def lq_pop_def lq_remove_def rmap_def)
  then show ?case using Cons.IH[OF e(2)] by simp
qed simp

section \<open>Properties\<close>

text \<open>Three nodes and a list head, for the instances below.\<close>

definition sample_store :: lstore where
  "sample_store = map_of (map (\<lambda>a. (a, \<lparr>prev = a, next = a\<rparr>)) [1, 2, 3, 4])"

lemma sample_store_dlist: "dlist sample_store 1 []"
  by (simp add: dlist_def sample_store_def)

text \<open>
  C4: the intrusive lists implement sequences. Any program of list_push_back,
  list_pop_front and list_remove that makes sense on a HOL list (no element pushed
  twice, none removed that is not there) runs on the linked nodes without touching an
  unmapped node, returns the same elements in the same order, and leaves a well-formed
  circular list with the same elements.
\<close>

theorem list_ops_refine:
  assumes "dlist h l xs" "list_run ps xs = Some (rs, ys)" "\<forall>x \<in> op_nodes ps. x \<in> dom h \<and> x \<noteq> l"
  shows "\<exists>h'. exec_ops lq_push lq_pop lq_remove ps (h, l) = Inr (rs, h', l) \<and> dlist h' l ys"
proof -
  have "lq_holds (h, l) xs" "\<forall>x \<in> op_nodes ps. lq_node (h, l) x"
    using assms by (auto simp: lq_holds_def lq_node_def)
  from lq.exec_ops_refines[OF this(1) assms(2) this(2)] obtain h' l' where
    r: "exec_ops lq_push lq_pop lq_remove ps (h, l) = Inr (rs, h', l')" "lq_holds (h', l') ys" by auto
  then show ?thesis using lq_exec_head[OF r(1)] by (auto simp: lq_holds_def)
qed

theorem list_ops_refine_witness:
  "\<exists>h'. exec_ops lq_push lq_pop lq_remove
      [PushOp 2, PushOp 3, PushOp 4, RemoveOp 3, PopOp, PushOp 3, PopOp] (sample_store, 1) =
        Inr ([None, None, None, None, Some 2, None, Some 4], h', 1) \<and> dlist h' 1 [3]"
  using list_ops_refine[OF sample_store_dlist,
      of "[PushOp 2, PushOp 3, PushOp 4, RemoveOp 3, PopOp, PushOp 3, PopOp]"
         "[None, None, None, None, Some 2, None, Some 4]" "[3]"]
  by (auto simp: op_nodes_def sample_store_def)

text \<open>
  LIST_FOR_EACH may remove the element that it visits. Over a well-formed list it
  visits every element once, in order, although the body unlinks it; afterwards the list
  is empty, all removed nodes carry invalid links, and no other node has changed.
\<close>

lemma list_for_each_unlink:
  assumes "dlist h l xs" "length xs < fuel"
  shows "\<exists>h'. LIST_FOR_EACH fuel (\<lambda>x (h, seen). rmap (\<lambda>h. (h, seen @ [x])) (list_remove h x)) l (h, []) =
      Inr (h', xs) \<and> dlist h' l [] \<and> (\<forall>a. a \<notin> set (l # xs) \<longrightarrow> h' a = h a)"
proof -
  obtain n where "h l = Some n" "next n = hd (xs @ [l])" using dlist_next[OF assms(1)] by blast
  then show ?thesis using list_iterate_unlink[OF assms, of "[]"] by (auto simp: LIST_FOR_EACH_def deref_def)
qed

end
