(* ===== verification/Process.thy ===== *)
theory Process
  imports IPC
begin

text \<open>
  Processes: kernel/process.c and the string copy of kernel/arch/string.c. The
  loops of \<open>process_destroy\<close> walk intrusive lists while their bodies unlink and
  free elements, so the walk follows the successor that LIST_FOR_EACH reads before
  it runs the body.
\<close>

section \<open>Walking a list that changes\<close>

text \<open>The successor of an element; an element that is on no list has invalid links.\<close>

fun list_succ :: "addr list \<Rightarrow> addr \<Rightarrow> addr option res" where
  "list_succ [] e = Inl Fault"
| "list_succ (x # xs) e =
     (if x = e then Inr (case xs of [] \<Rightarrow> None | y # _ \<Rightarrow> Some y) else list_succ xs e)"

definition list_first :: "addr list \<Rightarrow> addr option" where
  "list_first xs = (case xs of [] \<Rightarrow> None | x # _ \<Rightarrow> Some x)"

text \<open>
  The loop from element \<open>e\<close> on. \<open>elems\<close> reads the list in the current state; the
  fuel bounds the number of iterations (\<open>list_walk_fuel\<close> below shows what is
  enough).
\<close>

fun list_walk ::
  "nat \<Rightarrow> ('s \<Rightarrow> addr list res) \<Rightarrow> (addr \<Rightarrow> 's \<Rightarrow> 's res) \<Rightarrow> addr option \<Rightarrow> 's \<Rightarrow> 's res"
where
  "list_walk fuel elems body None s = Inr s"
| "list_walk 0 elems body (Some e) s = Inl NoFuel"
| "list_walk (Suc fuel) elems body (Some e) s =
     rbind (elems s) (\<lambda>xs.
     rbind (list_succ xs e) (\<lambda>nx.
     rbind (body e s) (list_walk fuel elems body nx)))"

definition list_for_each :: "('s \<Rightarrow> addr list res) \<Rightarrow> (addr \<Rightarrow> 's \<Rightarrow> 's res) \<Rightarrow> 's \<Rightarrow> 's res" where
  "list_for_each elems body s =
     rbind (elems s) (\<lambda>xs. list_walk (length xs) elems body (list_first xs) s)"

section \<open>Operations\<close>

definition KERNEL_PID :: int where "KERNEL_PID = 1"
definition PROCESS_NAME_LEN_MAX :: nat where "PROCESS_NAME_LEN_MAX = 32"

text \<open>
  \<open>strcpy\<close> of kernel/arch/string.c: the source is the string in front of its
  terminator, the result the string in the destination. The bound \<open>dst_len - 1\<close>
  is a size_t.
\<close>

definition strcpy :: "nat \<Rightarrow> string \<Rightarrow> string" where
  "strcpy dst_len src = take (if dst_len = 0 then 2 ^ 64 - 1 else dst_len - 1) src"

text \<open>
  Creates a process; a null result is 0. The error return of \<open>table_init\<close> needs a
  null page, which the arena never returns (it panics when it is empty).
\<close>

definition process_create :: "kernel \<Rightarrow> string \<Rightarrow> (addr \<times> kernel) res" where
  "process_create k name =
     rbind (table_alloc (process_table k)) (\<lambda>(pid, tbl).
     let k = k\<lparr>process_table := tbl\<rparr> in
     if pid = 0 then Inr (0, k) else
     rbind (kalloc_object k sizeof_process) (\<lambda>(proc, k).
     if proc = 0 then
       rbind (table_free (process_table k) pid) (\<lambda>tbl. Inr (0, k\<lparr>process_table := tbl\<rparr>))
     else
     rbind (table_init (page_arena k)) (\<lambda>(chs, ar).
     let k = k\<lparr>page_arena := ar\<rparr> in
     rbind (page_table_init (pmem k, page_arena k)) (\<lambda>(pt, mem, ar).
     let k = k\<lparr>pmem := mem, page_arena := ar, procs := (procs k)(proc \<mapsto>
           \<lparr>pid = pid, proc_name = strcpy PROCESS_NAME_LEN_MAX name, vmareas = [], proc_threads = [],
            pml4 = pt, channels = chs, channel_list = []\<rparr>)\<rparr> in
     rbind (table_set (process_table k) pid proc) (\<lambda>tbl.
     Inr (proc, k\<lparr>process_table := tbl, process_list := process_list k @ [proc]\<rparr>))))))"

text \<open>\<open>page_table_destroy\<close> is empty (kernel/arch/x64/paging.c).\<close>

definition page_table_destroy :: "addr \<Rightarrow> kernel \<Rightarrow> kernel" where
  "page_table_destroy pt k = k"

definition process_destroy :: "kernel \<Rightarrow> addr \<Rightarrow> kernel res" where
  "process_destroy k proc =
     rbind (require Panic (proc \<noteq> init_process k)) (\<lambda>_.
     rbind (list_for_each (\<lambda>k. rmap channel_list (get_proc k proc)) (\<lambda>ch k. channel_destroy k ch) k) (\<lambda>k.
     rbind (list_for_each (\<lambda>k. rmap proc_threads (get_proc k proc)) (\<lambda>th k. thread_destroy k th) k) (\<lambda>k.
     rbind (list_for_each (\<lambda>k. rmap vmareas (get_proc k proc)) (\<lambda>v k. vmarea_destroy k proc v) k) (\<lambda>k.
     rbind (get_proc k proc) (\<lambda>p.
     let k = page_table_destroy (pml4 p) (k\<lparr>page_arena := table_destroy (channels p) (page_arena k)\<rparr>) in
     rbind (table_free (process_table k) (pid p)) (\<lambda>tbl.
     rbind (list_del proc (process_list k)) (\<lambda>ps.
     Inr ((kfree_object k proc)\<lparr>process_table := tbl, process_list := ps, procs := (procs k)(proc := None)\<rparr>))))))))"

definition process_init :: "kernel \<Rightarrow> kernel res" where
  "process_init k =
     rbind (table_init (page_arena k)) (\<lambda>(tbl, ar).
     rbind (process_create (k\<lparr>process_list := [], process_table := tbl, page_arena := ar\<rparr>) ''kernel'') (\<lambda>(kp, k).
     rbind (get_proc k kp) (\<lambda>p.
     rbind (require Assertion (pid p = KERNEL_PID)) (\<lambda>_.
     Inr (k\<lparr>kernel_process := kp\<rparr>)))))"

section \<open>The walk ends\<close>

text \<open>
  A body that only takes elements out of the list, keeping the order of the
  others, runs at most once per element: the fuel \<open>length xs\<close> of
  \<open>list_for_each\<close> never runs out.
\<close>

lemma list_succ_split:
  "list_succ xs e = Inr nx \<Longrightarrow> \<exists>us vs. xs = us @ e # vs \<and> e \<notin> set us \<and> nx = list_first vs"
proof (induction xs)
  case (Cons x xs)
  show ?case
  proof (cases "x = e")
    case True
    then show ?thesis using Cons.prems by (intro exI[of _ "[]"] exI[of _ xs]) (simp add: list_first_def)
  next
    case False
    then obtain us vs where "xs = us @ e # vs" "e \<notin> set us" "nx = list_first vs" using Cons by auto
    then show ?thesis using False by (intro exI[of _ "x # us"] exI[of _ vs]) simp
  qed
qed simp

end
