(* ===== verification/Timer.thy ===== *)
theory Timer
  imports Process
begin

text \<open>
  Timers: kernel/timer.c, the handlers that the kernel installs
  (\<open>thread_switch_by_timeout\<close> of kernel/thread.c and \<open>user_timer_handler\<close> of
  kernel/server.c) and \<open>thread_first_switch\<close>. A timer that switches threads leaves
  the interrupt handler in the middle of its loop; the loop goes on when the
  interrupted thread is switched to again.
\<close>

section \<open>Creation and destruction\<close>

definition TICK_HZ :: int where "TICK_HZ = 1000"
definition THREAD_SWITCH_INTERVAL :: int where "THREAD_SWITCH_INTERVAL = (20 * 1000) div TICK_HZ"

definition get_timer :: "kernel \<Rightarrow> addr \<Rightarrow> timer res" where "get_timer k = deref (timer_objs k)"

definition upd_timer :: "kernel \<Rightarrow> addr \<Rightarrow> (timer \<Rightarrow> timer) \<Rightarrow> kernel res" where
  "upd_timer k t f = rbind (get_timer k t) (\<lambda>x. Inr (k\<lparr>timer_objs := (timer_objs k)(t \<mapsto> f x)\<rparr>))"

definition timer_create :: "kernel \<Rightarrow> int \<Rightarrow> int \<Rightarrow> timer_handler \<Rightarrow> addr \<Rightarrow> (addr \<times> kernel) res" where
  "timer_create k initial intvl h arg =
     rbind (table_alloc (timers k)) (\<lambda>(i, tbl).
     let k = k\<lparr>timers := tbl\<rparr> in
     if i = 0 then Inr (0, k) else
     rbind (kalloc_object k sizeof_timer) (\<lambda>(a, k).
     if a = 0 then rbind (table_free (timers k) i) (\<lambda>tbl. Inr (0, k\<lparr>timers := tbl\<rparr>))
     else
       let k = k\<lparr>timer_objs := (timer_objs k)(a \<mapsto>
                   \<lparr>timer_id = i, timer_current = initial, interval = intvl, handler = h, timer_arg = arg\<rparr>),
                 active_timers := active_timers k @ [a]\<rparr> in
       rbind (table_set (timers k) i a) (\<lambda>tbl. Inr (a, k\<lparr>timers := tbl\<rparr>))))"

definition timer_destroy :: "kernel \<Rightarrow> addr \<Rightarrow> kernel res" where
  "timer_destroy k a =
     rbind (get_timer k a) (\<lambda>t.
     rbind (table_free (timers k) (timer_id t)) (\<lambda>tbl.
     rbind (list_del a (active_timers k)) (\<lambda>ts.
     Inr ((kfree_object k a)\<lparr>timers := tbl, active_timers := ts, timer_objs := (timer_objs k)(a := None)\<rparr>))))"

definition timer_init :: "kernel \<Rightarrow> kernel res" where
  "timer_init k =
     rbind (table_init (page_arena k)) (\<lambda>(tbl, ar).
     Inr (k\<lparr>active_timers := [], timers := tbl, page_arena := ar\<rparr>))"

section \<open>The timer interrupt\<close>

text \<open>The handler of the scheduler's timer: what is left of the loop is its frame.\<close>

definition thread_switch_by_timeout :: "kernel \<Rightarrow> addr \<Rightarrow> addr option \<Rightarrow> (outcome \<times> kernel) res" where
  "thread_switch_by_timeout k e nx = suspend k (TimerLoop e nx)"

text \<open>The handler of user timers frees the slot of the timer in the wrong id space (\<open>timer->id\<close>).\<close>

definition user_timer_handler :: "kernel \<Rightarrow> addr \<Rightarrow> kernel res" where
  "user_timer_handler k a =
     rbind (get_timer k a) (\<lambda>t.
     rbind (channel_notify k (timer_arg t) NOTIFY_TIMER) (\<lambda>(_, k).
     if interval t = 0 then
       rbind (channel_decref CHAN_FUEL k (timer_arg t)) (\<lambda>k.
       rbind (table_free (user_timers k) (timer_id t)) (\<lambda>tbl. Inr (k\<lparr>user_timers := tbl\<rparr>)))
     else Inr k))"

text \<open>What happens to a timer after its handler has run.\<close>

definition timer_rearm :: "kernel \<Rightarrow> addr \<Rightarrow> kernel res" where
  "timer_rearm k a =
     rbind (get_timer k a) (\<lambda>t.
     if interval t \<noteq> 0 then upd_timer k a (\<lambda>t. t\<lparr>timer_current := interval t\<rparr>)
     else timer_destroy k a)"

text \<open>
  The loop over the active timers, from element \<open>e\<close> on. The counter \<open>current\<close> is an
  int, so that decrementing it wraps around at the minimum of the type.
\<close>

fun timer_loop :: "nat \<Rightarrow> int \<Rightarrow> kernel \<Rightarrow> addr option \<Rightarrow> (outcome \<times> kernel) res" where
  "timer_loop fuel ticks k None = Inr (Return RUnit, k)"
| "timer_loop 0 ticks k (Some e) = Inl NoFuel"
| "timer_loop (Suc fuel) ticks k (Some e) =
     rbind (list_succ (active_timers k) e) (\<lambda>nx.
     rbind (upd_timer k e (\<lambda>t. t\<lparr>timer_current := int32 (timer_current t - ticks)\<rparr>)) (\<lambda>k.
     rbind (get_timer k e) (\<lambda>t.
     if timer_current t < 0 then
       case handler t of
         ThreadSwitchByTimeout \<Rightarrow> thread_switch_by_timeout k e nx
       | UserTimerHandler \<Rightarrow>
           rbind (user_timer_handler k e) (\<lambda>k.
           rbind (timer_rearm k e) (\<lambda>k. timer_loop fuel ticks k nx))
     else timer_loop fuel ticks k nx)))"

definition timer_interrupt_handler :: "kernel \<Rightarrow> int \<Rightarrow> (outcome \<times> kernel) res" where
  "timer_interrupt_handler k ticks =
     timer_loop (length (active_timers k)) ticks k (list_first (active_timers k))"

text \<open>
  The loop after the context switch of \<open>thread_switch_by_timeout\<close>. The interrupt
  handler passes 1 tick.
\<close>

definition timer_resumed :: "kernel \<Rightarrow> addr \<Rightarrow> addr option \<Rightarrow> (outcome \<times> kernel) res" where
  "timer_resumed k e nx =
     rbind (timer_rearm k e) (\<lambda>k. timer_loop (length (active_timers k)) 1 k nx)"

definition thread_first_switch :: "kernel \<Rightarrow> kernel res" where
  "thread_first_switch k =
     rbind (timer_create (k\<lparr>current := idle_thread k\<rparr>) THREAD_SWITCH_INTERVAL THREAD_SWITCH_INTERVAL
              ThreadSwitchByTimeout 0) (\<lambda>(_, k).
     thread_switch k)"

end
