(* ===== verification/Server.thy ===== *)
theory Server
  imports Timer
begin

text \<open>
  The kernel server of kernel/server.c, the interrupt dispatcher of
  kernel/arch/x64/interrupt.c and the boot sequence of kernel/boot.c. The server
  is a kernel thread: each of its message handlers is an operation on the kernel
  state that reads the message from the kernel IPC buffer of the current thread and
  writes the reply there.
\<close>

section \<open>Parameters\<close>

text \<open>
  The message identifiers and payload accessors that the IDL compiler generates for
  the kernel server.
\<close>

record server_idl =
  pager_idl :: idl
  RUNTIME_EXIT_MSG :: u32
  RUNTIME_PRINTCHAR_MSG :: u32
  PROCESS_CREATE_MSG :: u32
  PROCESS_DESTROY_MSG :: u32
  PROCESS_ADD_PAGER_MSG :: u32
  PROCESS_SEND_CHANNEL_MSG :: u32
  THREAD_SPAWN_MSG :: u32
  THREAD_DESTROY_MSG :: u32
  IO_ALLOW_IOMAPPED_IO_MSG :: u32
  IO_LISTEN_IRQ_MSG :: u32
  TIMER_SET_MSG :: u32
  TIMER_CLEAR_MSG :: u32
  SERVER_CONNECT_MSG :: u32
  PROCESS_CREATE_REPLY_MSG :: u32
  THREAD_SPAWN_REPLY_MSG :: u32
  PROCESS_ADD_PAGER_REPLY_MSG :: u32
  SERVER_CONNECT_REPLY_MSG :: u32
  IO_LISTEN_IRQ_REPLY_MSG :: u32
  IO_ALLOW_IOMAPPED_IO_REPLY_MSG :: u32
  PROCESS_SEND_CHANNEL_REPLY_MSG :: u32
  TIMER_SET_REPLY_MSG :: u32
  TIMER_CLEAR_REPLY_MSG :: u32
  printchar_ch :: "message \<Rightarrow> u8"
  create_name :: "message \<Rightarrow> string"
  set_create_reply :: "int \<Rightarrow> int \<Rightarrow> message \<Rightarrow> message"
  spawn_pid :: "message \<Rightarrow> int"
  spawn_start :: "message \<Rightarrow> addr"
  spawn_stack :: "message \<Rightarrow> addr"
  spawn_buffer :: "message \<Rightarrow> addr"
  spawn_arg :: "message \<Rightarrow> u64"
  set_spawn_reply :: "int \<Rightarrow> message \<Rightarrow> message"
  add_pager_pid :: "message \<Rightarrow> int"
  add_pager_pager :: "message \<Rightarrow> int"
  add_pager_start :: "message \<Rightarrow> addr"
  add_pager_size :: "message \<Rightarrow> u64"
  add_pager_flags :: "message \<Rightarrow> u8"
  set_connect_reply :: "int \<Rightarrow> message \<Rightarrow> message"
  listen_irq_ch :: "message \<Rightarrow> int"
  listen_irq_irq :: "message \<Rightarrow> u8"
  send_channel_pid :: "message \<Rightarrow> int"
  send_channel_ch :: "message \<Rightarrow> int"
  timer_set_ch :: "message \<Rightarrow> int"
  timer_set_initial :: "message \<Rightarrow> int"
  timer_set_interval :: "message \<Rightarrow> int"
  set_timer_set_reply :: "int \<Rightarrow> message \<Rightarrow> message"
  timer_clear_timer :: "message \<Rightarrow> int"

section \<open>Message handlers\<close>

text \<open>The message buffer of the server and the update of it that is the reply.\<close>

definition server_msg :: "kernel \<Rightarrow> message res" where
  "server_msg k = rmap kernel_msg (get_thread k (current k))"

definition reply :: "kernel \<Rightarrow> (message \<Rightarrow> message) \<Rightarrow> (error_t \<times> kernel) res" where
  "reply k f = rbind (upd_thread k (current k) (upd_buf True f)) (\<lambda>k. Inr (OK, k))"

definition get_sender_process :: "kernel \<Rightarrow> int \<Rightarrow> addr res" where
  "get_sender_process k sender =
     rbind (get_proc k (kernel_process k)) (\<lambda>kp.
     rbind (table_ptr (channels kp) sender) (\<lambda>ch.
     rbind (require Assertion (ch \<noteq> 0)) (\<lambda>_.
     rbind (get_chan k ch) (\<lambda>c.
     rbind (get_chan k (linked_with c)) (\<lambda>l. Inr (ch_process l))))))"

text \<open>The serial line of \<open>arch_putchar\<close>; the screen is the theory Screen.\<close>

definition arch_putchar :: "kernel \<Rightarrow> u8 \<Rightarrow> kernel" where
  "arch_putchar k ch = k\<lparr>console := console k @ (if ch = 10 then [13, ch] else [ch])\<rparr>"

definition handle_runtime_printchar :: "server_idl \<Rightarrow> kernel \<Rightarrow> message \<Rightarrow> (error_t \<times> kernel) res" where
  "handle_runtime_printchar I k m = Inr (OK, arch_putchar k (printchar_ch I m))"

definition handle_runtime_exit :: "kernel \<Rightarrow> message \<Rightarrow> (error_t \<times> kernel) res" where
  "handle_runtime_exit k m =
     rbind (get_sender_process k (msg_from m)) (\<lambda>p.
     rbind (process_destroy k p) (\<lambda>k. Inr (DONT_REPLY, k)))"

definition handle_process_create :: "server_idl \<Rightarrow> kernel \<Rightarrow> message \<Rightarrow> (error_t \<times> kernel) res" where
  "handle_process_create I k m =
     rbind (process_create k (create_name I m)) (\<lambda>(proc, k).
     if proc = 0 then Inr (ERR_OUT_OF_RESOURCE, k) else
     rbind (channel_create k proc) (\<lambda>(user_ch, k).
     if user_ch = 0 then rbind (process_destroy k proc) (\<lambda>k. Inr (ERR_OUT_OF_RESOURCE, k)) else
     rbind (get_sender_process k (msg_from m)) (\<lambda>sender.
     rbind (channel_create k sender) (\<lambda>(pager_ch, k).
     if pager_ch = 0 then
       rbind (channel_destroy k pager_ch) (\<lambda>k.
       rbind (process_destroy k proc) (\<lambda>k. Inr (ERR_OUT_OF_RESOURCE, k)))
     else
       rbind (channel_link k user_ch pager_ch) (\<lambda>k.
       rbind (get_proc k proc) (\<lambda>p.
       rbind (get_chan k pager_ch) (\<lambda>pc.
       reply k (\<lambda>m. set_create_reply I (pid p) (cid pc) (m\<lparr>header := PROCESS_CREATE_REPLY_MSG I\<rparr>)))))))))"

definition handle_process_destroy :: "kernel \<Rightarrow> message \<Rightarrow> (error_t \<times> kernel) res" where
  "handle_process_destroy k m = Inl Unimplemented"

definition handle_thread_spawn :: "server_idl \<Rightarrow> kernel \<Rightarrow> message \<Rightarrow> (error_t \<times> kernel) res" where
  "handle_thread_spawn I k m =
     rbind (table_ptr (process_table k) (spawn_pid I m)) (\<lambda>proc.
     if proc = 0 then Inr (ERR_INVALID_MESSAGE, k) else
     rbind (thread_create k proc (spawn_start I m) (spawn_stack I m) (spawn_buffer I m) (spawn_arg I m) []) (\<lambda>(th, k).
     if th = 0 then Inr (ERR_OUT_OF_RESOURCE, k) else
     rbind (thread_resume k th) (\<lambda>k.
     rbind (get_thread k th) (\<lambda>t.
     reply k (\<lambda>m. set_spawn_reply I (tid t) (m\<lparr>header := THREAD_SPAWN_REPLY_MSG I\<rparr>))))))"

definition handle_thread_destroy :: "kernel \<Rightarrow> message \<Rightarrow> (error_t \<times> kernel) res" where
  "handle_thread_destroy k m = Inl Unimplemented"

definition handle_process_add_pager :: "server_idl \<Rightarrow> kernel \<Rightarrow> message \<Rightarrow> (error_t \<times> kernel) res" where
  "handle_process_add_pager I k m =
     rbind (table_ptr (process_table k) (add_pager_pid I m)) (\<lambda>proc.
     if proc = 0 then Inr (ERR_INVALID_MESSAGE, k) else
     rbind (get_proc k proc) (\<lambda>p.
     rbind (table_ptr (channels p) (add_pager_pager I m)) (\<lambda>pager_ch.
     if pager_ch = 0 then rbind (process_destroy k proc) (\<lambda>k. Inr (ERR_INVALID_MESSAGE, k)) else
     rbind (vmarea_create k proc (add_pager_start I m) (add_pager_start I m + add_pager_size I m) UserPager pager_ch
              (ucast (add_pager_flags I m) OR PAGE_USER)) (\<lambda>(err, k).
     if err \<noteq> OK then rbind (process_destroy k proc) (\<lambda>k. Inr (err, k)) else
     rbind (channel_incref k pager_ch) (\<lambda>k.
     reply k (\<lambda>m. m\<lparr>header := PROCESS_ADD_PAGER_REPLY_MSG I\<rparr>))))))"

definition handle_server_connect :: "server_idl \<Rightarrow> kernel \<Rightarrow> message \<Rightarrow> (error_t \<times> kernel) res" where
  "handle_server_connect I k m =
     rbind (channel_create k (kernel_process k)) (\<lambda>(ch, k).
     if ch = 0 then Inr (ERR_OUT_OF_MEMORY, k) else
     rbind (channel_transfer k ch (kernel_server_ch k)) (\<lambda>k.
     rbind (get_chan k ch) (\<lambda>c.
     reply k (\<lambda>m. set_connect_reply I (cid c) (m\<lparr>header := SERVER_CONNECT_REPLY_MSG I\<rparr>)))))"

text \<open>Listeners are never removed, so the loop over them runs over a fixed list.\<close>

fun deliver_loop :: "kernel \<Rightarrow> u8 \<Rightarrow> addr list \<Rightarrow> kernel res" where
  "deliver_loop k i [] = Inr k"
| "deliver_loop k i (l # ls) =
     rbind (deref (irq_objs k) l) (\<lambda>x.
     if irq x = i then rbind (channel_notify k (listener_ch x) NOTIFY_INTERRUPT) (\<lambda>(_, k). deliver_loop k i ls)
     else deliver_loop k i ls)"

definition deliver_interrupt :: "kernel \<Rightarrow> u8 \<Rightarrow> kernel res" where
  "deliver_interrupt k i = deliver_loop k i (active_irq_listeners k)"

text \<open>\<open>enable_irq\<close> programs the interrupt controller and leaves the kernel state alone.\<close>

definition handle_io_listen_irq :: "server_idl \<Rightarrow> kernel \<Rightarrow> message \<Rightarrow> (error_t \<times> kernel) res" where
  "handle_io_listen_irq I k m =
     rbind (current_channel k (listen_irq_ch I m)) (\<lambda>ch.
     rbind (require Assertion (ch \<noteq> 0)) (\<lambda>_.
     rbind (table_alloc (irq_listeners k)) (\<lambda>(i, tbl).
     let k = k\<lparr>irq_listeners := tbl\<rparr> in
     if i = 0 then Inr (ERR_OUT_OF_MEMORY, k) else
     rbind (kalloc_object k sizeof_irq_listener) (\<lambda>(a, k).
     if a = 0 then rbind (table_free (irq_listeners k) i) (\<lambda>tbl. Inr (ERR_OUT_OF_MEMORY, k\<lparr>irq_listeners := tbl\<rparr>))
     else
       let k = k\<lparr>irq_objs := (irq_objs k)(a \<mapsto> \<lparr>irq = listen_irq_irq I m, listener_ch = ch\<rparr>)\<rparr> in
       rbind (table_set (irq_listeners k) i a) (\<lambda>tbl.
       reply (k\<lparr>irq_listeners := tbl, active_irq_listeners := active_irq_listeners k @ [a]\<rparr>)
         (\<lambda>m. m\<lparr>header := IO_LISTEN_IRQ_REPLY_MSG I\<rparr>))))))"

fun allow_io_loop :: "kernel \<Rightarrow> addr list \<Rightarrow> kernel res" where
  "allow_io_loop k [] = Inr k"
| "allow_io_loop k (t # ts) = rbind (thread_allow_io k t) (\<lambda>k. allow_io_loop k ts)"

definition handle_io_allow_iomapped_io :: "server_idl \<Rightarrow> kernel \<Rightarrow> message \<Rightarrow> (error_t \<times> kernel) res" where
  "handle_io_allow_iomapped_io I k m =
     rbind (get_sender_process k (msg_from m)) (\<lambda>sender.
     rbind (get_proc k sender) (\<lambda>p.
     rbind (allow_io_loop k (proc_threads p)) (\<lambda>k.
     reply k (\<lambda>m. m\<lparr>header := IO_ALLOW_IOMAPPED_IO_REPLY_MSG I\<rparr>))))"

definition handle_process_send_channel :: "server_idl \<Rightarrow> kernel \<Rightarrow> message \<Rightarrow> (error_t \<times> kernel) res" where
  "handle_process_send_channel I k m =
     rbind (table_ptr (process_table k) (send_channel_pid I m)) (\<lambda>proc.
     if proc = 0 then Inr (ERR_INVALID_MESSAGE, k) else
     rbind (current_channel k (send_channel_ch I m)) (\<lambda>ch.
     rbind (require Assertion (ch \<noteq> 0)) (\<lambda>_.
     rbind (channel_create k proc) (\<lambda>(dst_ch, k).
     if dst_ch = 0 then rbind (channel_destroy k ch) (\<lambda>k. Inr (ERR_OUT_OF_MEMORY, k)) else
     rbind (get_chan k ch) (\<lambda>c.
     rbind (channel_link k (linked_with c) dst_ch) (\<lambda>k.
     rbind (channel_destroy k ch) (\<lambda>k.
     reply k (\<lambda>m. m\<lparr>header := PROCESS_SEND_CHANNEL_REPLY_MSG I\<rparr>))))))))"

text \<open>When no timer can be created, the reference on the channel is not dropped.\<close>

definition handle_timer_set :: "server_idl \<Rightarrow> kernel \<Rightarrow> message \<Rightarrow> (error_t \<times> kernel) res" where
  "handle_timer_set I k m =
     rbind (current_channel k (timer_set_ch I m)) (\<lambda>ch.
     rbind (require Assertion (ch \<noteq> 0)) (\<lambda>_.
     rbind (table_alloc (user_timers k)) (\<lambda>(i, tbl).
     let k = k\<lparr>user_timers := tbl\<rparr> in
     if i = 0 then Inr (ERR_OUT_OF_MEMORY, k) else
     rbind (channel_incref k ch) (\<lambda>k.
     rbind (timer_create k (timer_set_initial I m) (timer_set_interval I m) UserTimerHandler ch) (\<lambda>(a, k).
     if a = 0 then rbind (table_free (user_timers k) i) (\<lambda>tbl. Inr (ERR_OUT_OF_MEMORY, k\<lparr>user_timers := tbl\<rparr>))
     else
       rbind (table_set (user_timers k) i a) (\<lambda>tbl.
       reply (k\<lparr>user_timers := tbl\<rparr>) (\<lambda>m. set_timer_set_reply I i (m\<lparr>header := TIMER_SET_REPLY_MSG I\<rparr>))))))))"

text \<open>The slot that is freed is the one of the kernel timer id, not of the user timer id.\<close>

definition handle_timer_clear :: "server_idl \<Rightarrow> kernel \<Rightarrow> message \<Rightarrow> (error_t \<times> kernel) res" where
  "handle_timer_clear I k m =
     rbind (table_ptr (user_timers k) (timer_clear_timer I m)) (\<lambda>a.
     if a = 0 then Inr (ERR_INVALID_PAYLOAD, k) else
     rbind (get_timer k a) (\<lambda>t.
     rbind (channel_decref CHAN_FUEL k (timer_arg t)) (\<lambda>k.
     rbind (table_free (user_timers k) (timer_id t)) (\<lambda>tbl.
     rbind (timer_destroy (k\<lparr>user_timers := tbl\<rparr>) a) (\<lambda>k.
     reply k (\<lambda>m. m\<lparr>header := TIMER_CLEAR_REPLY_MSG I\<rparr>))))))"

definition process_message :: "server_idl \<Rightarrow> kernel \<Rightarrow> message \<Rightarrow> (error_t \<times> kernel) res" where
  "process_message I k m =
     (if header m = RUNTIME_EXIT_MSG I then handle_runtime_exit k m
      else if header m = RUNTIME_PRINTCHAR_MSG I then handle_runtime_printchar I k m
      else if header m = PROCESS_CREATE_MSG I then handle_process_create I k m
      else if header m = PROCESS_DESTROY_MSG I then handle_process_destroy k m
      else if header m = PROCESS_ADD_PAGER_MSG I then handle_process_add_pager I k m
      else if header m = PROCESS_SEND_CHANNEL_MSG I then handle_process_send_channel I k m
      else if header m = THREAD_SPAWN_MSG I then handle_thread_spawn I k m
      else if header m = THREAD_DESTROY_MSG I then handle_thread_destroy k m
      else if header m = IO_ALLOW_IOMAPPED_IO_MSG I then handle_io_allow_iomapped_io I k m
      else if header m = IO_LISTEN_IRQ_MSG I then handle_io_listen_irq I k m
      else if header m = TIMER_SET_MSG I then handle_timer_set I k m
      else if header m = TIMER_CLEAR_MSG I then handle_timer_clear I k m
      else if header m = SERVER_CONNECT_MSG I then handle_server_connect I k m
      else Inr (ERR_UNEXPECTED_MESSAGE, k))"

section \<open>The server loop\<close>

text \<open>The head of the loop: wait for a message.\<close>

definition mainloop :: "kernel \<Rightarrow> int \<Rightarrow> (outcome \<times> kernel) res" where
  "mainloop k server_ch = rbind (push_frame k (ServerRecv server_ch)) (\<lambda>k. kernel_ipc k server_ch IPC_RECV)"

text \<open>The body of the loop, once a message has been received; its result is ignored.\<close>

definition mainloop_body :: "server_idl \<Rightarrow> kernel \<Rightarrow> int \<Rightarrow> (outcome \<times> kernel) res" where
  "mainloop_body I k server_ch =
     rbind (server_msg k) (\<lambda>m.
     rbind (process_message I k m) (\<lambda>(err, k).
     if err = DONT_REPLY then mainloop k server_ch
     else
       rbind (if err \<noteq> OK then
                upd_thread k (current k) (upd_buf True (\<lambda>m. m\<lparr>header := ERROR_TO_HEADER False err\<rparr>))
              else Inr k) (\<lambda>k.
       rbind (server_msg k) (\<lambda>m.
       rbind (push_frame k (ServerReply server_ch)) (\<lambda>k. kernel_ipc k (msg_from m) IPC_SEND)))))"

definition kernel_server_main :: "kernel \<Rightarrow> (outcome \<times> kernel) res" where
  "kernel_server_main k =
     rbind (get_thread k (current k)) (\<lambda>th.
     rbind (require Assertion (th_process th = kernel_process k)) (\<lambda>_.
     rbind (table_init (page_arena k)) (\<lambda>(ut, ar).
     rbind (table_init ar) (\<lambda>(il, ar).
     let k = k\<lparr>page_arena := ar, user_timers := ut, irq_listeners := il, active_irq_listeners := []\<rparr> in
     rbind (get_chan k (kernel_server_ch k)) (\<lambda>c. mainloop k (cid c))))))"

text \<open>The entry point is passed as an address: it is part of the initial stack.\<close>

definition kernel_server_init :: "addr \<Rightarrow> kernel \<Rightarrow> kernel res" where
  "kernel_server_init entry k =
     rbind (channel_create k (kernel_process k)) (\<lambda>(ch, k).
     let k = k\<lparr>kernel_server_ch := ch\<rparr> in
     rbind (thread_create k (kernel_process k) entry 0 0 0 [ServerMain]) (\<lambda>(th, k).
     thread_resume k th))"

end
