(* ===== verification/Machine.thy ===== *)
theory Machine
  imports Server
begin

text \<open>
  The kernel as a whole: the interrupt dispatcher of kernel/arch/x64/interrupt.c,
  the boot sequence of kernel/boot.c, and the step relation of the machine, whose
  steps are the ways into the kernel (a system call, an interrupt, a write of the
  user to its thread information block) and the pieces of kernel code between two
  suspensions.
\<close>

section \<open>Interrupts\<close>

definition EXP_DEVICE_NOT_AVAILABLE :: u8 where "EXP_DEVICE_NOT_AVAILABLE = 7"
definition EXP_PAGE_FAULT :: u8 where "EXP_PAGE_FAULT = 14"
definition VECTOR_IRQ_BASE :: u8 where "VECTOR_IRQ_BASE = 32"
definition APIC_TIMER_VECTOR :: u8 where "APIC_TIMER_VECTOR = VECTOR_IRQ_BASE + 0"
definition SERIAL_IRQ :: u8 where "SERIAL_IRQ = 4"

text \<open>
  The handler of vector \<open>vec\<close>, with the faulting address of the CR2 register and
  the error code. The value that the page fault handler returns is dropped (the
  frame \<open>InterruptReturn\<close>). The floating point exception does not touch the kernel
  state modelled here: it is the theory Fpu. The debugger on the serial line is off in
  a release build.
\<close>

definition x64_handle_interrupt :: "idl \<Rightarrow> kernel \<Rightarrow> u8 \<Rightarrow> addr \<Rightarrow> u64 \<Rightarrow> (outcome \<times> kernel) res" where
  "x64_handle_interrupt I k vec cr2 err =
     rbind (push_frame k InterruptReturn) (\<lambda>k.
     if vec = EXP_PAGE_FAULT then
       rbind (require Panic (drop_bit 3 err AND 1 = 0)) (\<lambda>_. page_fault_handler I k cr2 err)
     else if vec = EXP_DEVICE_NOT_AVAILABLE then Inr (Return RUnit, k)
     else if vec = APIC_TIMER_VECTOR then timer_interrupt_handler k 1
     else if vec \<le> 20 then Inl Panic
     else if VECTOR_IRQ_BASE \<le> vec then
       let irq = vec - VECTOR_IRQ_BASE in
       if irq = SERIAL_IRQ then Inr (Return RUnit, k)
       else rbind (deliver_interrupt k irq) (\<lambda>k. Inr (Return RUnit, k))
     else Inl Panic)"

section \<open>Booting\<close>

definition INIT_ARGS_OFFSET :: addr where "INIT_ARGS_OFFSET = 256"
definition INITFS_END :: addr where "INITFS_END = 0x2000000"
definition STRAIGHT_MAP_ADDR :: addr where "STRAIGHT_MAP_ADDR = 0x3000000"
definition STRAIGHT_MAP_END :: addr where "STRAIGHT_MAP_END = 0xffff800000000000"
definition THREAD_INFO_ADDR :: addr where "THREAD_INFO_ADDR = 0xf1b000"

text \<open>The words of the boot arguments, copied to physical memory.\<close>

fun copy_words :: "addr \<Rightarrow> u64 list \<Rightarrow> pmem \<Rightarrow> pmem" where
  "copy_words a [] mem = mem"
| "copy_words a (w # ws) mem = copy_words (a + 8) ws (mem(a := w))"

definition userland :: "u64 list \<Rightarrow> kernel \<Rightarrow> kernel res" where
  "userland args k =
     rbind (process_create k ''memmgr'') (\<lambda>(p, k).
     let k = k\<lparr>init_process := p\<rparr> in
     rbind (require Assertion (init_process k \<noteq> 0)) (\<lambda>_.
     rbind (thread_create k (init_process k) INITFS_ADDR 0 THREAD_INFO_ADDR 0 []) (\<lambda>(th, k).
     rbind (require Assertion (th \<noteq> 0)) (\<lambda>_.
     rbind (channel_create k (kernel_process k)) (\<lambda>(kernel_ch, k).
     rbind (require Assertion (kernel_ch \<noteq> 0)) (\<lambda>_.
     rbind (channel_create k (init_process k)) (\<lambda>(user_ch, k).
     rbind (require Assertion (kernel_ch \<noteq> 0)) (\<lambda>_.
     rbind (channel_transfer k kernel_ch (kernel_server_ch k)) (\<lambda>k.
     rbind (channel_link k kernel_ch user_ch) (\<lambda>k.
     let flags = PAGE_WRITABLE OR PAGE_USER in
     rbind (vmarea_create k (init_process k) INITFS_ADDR INITFS_END InitfsPager 0 flags) (\<lambda>(err, k).
     rbind (require Assertion (err = OK)) (\<lambda>_.
     rbind (vmarea_create k (init_process k) STRAIGHT_MAP_ADDR STRAIGHT_MAP_END StraightMapPager 0 flags) (\<lambda>(err, k).
     rbind (require Assertion (err = OK)) (\<lambda>_.
     let k = k\<lparr>pmem := copy_words (into_paddr (initfs k + INIT_ARGS_OFFSET)) args (pmem k)\<rparr> in
     thread_resume k th))))))))))))))"

text \<open>
  \<open>arch_init\<close> is hardware setup; the memory map and the framebuffer that it finds
  are the boot arguments. The state \<open>k0\<close> holds the zeroed globals of the kernel
  image, the physical memory with the kernel page table, and the initfs image.
\<close>

definition boot :: "addr \<Rightarrow> u64 list \<Rightarrow> kernel \<Rightarrow> kernel res" where
  "boot server_entry args k0 =
     rbind memory_init (\<lambda>(obj, pages).
     rbind (timer_init (k0\<lparr>object_arena := obj, page_arena := pages\<rparr>)) (\<lambda>k.
     rbind (process_init k) (\<lambda>k.
     rbind (thread_init k) (\<lambda>k.
     rbind (kernel_server_init server_entry k) (\<lambda>k.
     rbind (userland args k) thread_first_switch)))))"

section \<open>The machine\<close>

text \<open>
  The machine is at rest when the current thread runs in user mode (it has no
  suspended frame) or waits for an interrupt in the idle loop; it is busy while
  kernel code is on the way.
\<close>

datatype config = Rest kernel | Busy outcome kernel | Failed kfail

fun settle :: "(outcome \<times> kernel) res \<Rightarrow> config" where
  "settle (Inl e) = Failed e"
| "settle (Inr (out, k)) = Busy out k"

text \<open>The current thread comes out of \<open>thread_switch\<close>.\<close>

definition switched_to :: "server_idl \<Rightarrow> kernel \<Rightarrow> frame \<Rightarrow> (outcome \<times> kernel) res" where
  "switched_to I k f =
     (case f of
        ServerMain \<Rightarrow> kernel_server_main k
      | TimerLoop e nx \<Rightarrow> timer_resumed k e nx
      | _ \<Rightarrow> after_switch (pager_idl I) k f)"

text \<open>A function has returned to frame \<open>f\<close> of the current thread.\<close>

definition returned_to :: "server_idl \<Rightarrow> kernel \<Rightarrow> frame \<Rightarrow> retval \<Rightarrow> (outcome \<times> kernel) res" where
  "returned_to I k f v =
     (case f of
        ServerRecv i \<Rightarrow> mainloop_body I k i
      | ServerReply i \<Rightarrow> mainloop k i
      | InterruptReturn \<Rightarrow> Inr (Return RUnit, k)
      | _ \<Rightarrow> after_call (pager_idl I) k f v)"

text \<open>The return value of a system call goes to the register of the thread; an interrupt has none.\<close>

definition leave :: "kernel \<Rightarrow> retval \<Rightarrow> kernel res" where
  "leave k v = (case v of RUnit \<Rightarrow> Inr k | _ \<Rightarrow> upd_thread k (current k) (\<lambda>th. th\<lparr>result := v\<rparr>))"

definition busy_step :: "server_idl \<Rightarrow> outcome \<Rightarrow> kernel \<Rightarrow> config" where
  "busy_step I out k =
     (case out of
        CallIpc i syscall \<Rightarrow> settle (sys_ipc (pager_idl I) k i syscall)
      | Switched \<Rightarrow>
          (case get_thread k (current k) of
             Inl e \<Rightarrow> Failed e
           | Inr th \<Rightarrow>
               (case frames th of
                  [] \<Rightarrow> Rest k
                | IdleLoop # _ \<Rightarrow> Rest k
                | f # _ \<Rightarrow> settle (rbind (pop_frame k) (\<lambda>k. switched_to I k f))))
      | Return v \<Rightarrow>
          (case get_thread k (current k) of
             Inl e \<Rightarrow> Failed e
           | Inr th \<Rightarrow>
               (case frames th of
                  [] \<Rightarrow> (case leave k v of Inl e \<Rightarrow> Failed e | Inr k \<Rightarrow> Rest k)
                | IdleLoop # _ \<Rightarrow> Rest k
                | f # _ \<Rightarrow> settle (rbind (pop_frame k) (\<lambda>k. returned_to I k f v)))))"

definition in_user_mode :: "kernel \<Rightarrow> bool" where
  "in_user_mode k \<longleftrightarrow> (case threads k (current k) of None \<Rightarrow> False | Some th \<Rightarrow> frames th = [])"

inductive mstep :: "server_idl \<Rightarrow> config \<Rightarrow> config \<Rightarrow> bool" for I where
  Syscall: "in_user_mode k \<Longrightarrow> mstep I (Rest k) (settle (syscall_handler (pager_idl I) k a0 a1 n))"
| UserWrite: "in_user_mode k \<Longrightarrow> length (payload_data m) = USER_DATA_ROOM \<Longrightarrow>
    upd_thread k (current k) (\<lambda>th. th\<lparr>user_msg := m, page_base := pb\<rparr>) = Inr k' \<Longrightarrow> mstep I (Rest k) (Rest k')"
| PageFault: "in_user_mode k \<Longrightarrow> mstep I (Rest k) (settle (x64_handle_interrupt (pager_idl I) k EXP_PAGE_FAULT a err))"
| Interrupt: "32 \<le> vec \<Longrightarrow> mstep I (Rest k) (settle (x64_handle_interrupt (pager_idl I) k vec 0 0))"
| Busy: "mstep I (Busy out k) (busy_step I out k)"

end
