(* ===== verification/CString.thy ===== *)
theory CString
  imports Prelude "HOL-Library.Log_Nat"
begin

text \<open>
  The arithmetic, string and memory functions of the user library: math.c and
  string.c of libs/libresea. A pointer into a buffer is the list of bytes from that
  position to the end of the object it points into, so that running off the end of
  an object is a \<open>Fault\<close>. Memory from malloc() has arbitrary contents: the
  operations that allocate take the contents as an argument.
\<close>

section \<open>Memory accesses\<close>

definition load :: "'a list \<Rightarrow> nat \<Rightarrow> 'a res" where
  "load xs i = (if i < length xs then Inr (xs ! i) else Inl Fault)"

definition store :: "'a list \<Rightarrow> nat \<Rightarrow> 'a \<Rightarrow> 'a list res" where
  "store xs i v = (if i < length xs then Inr (xs[i := v]) else Inl Fault)"

lemma load_in [simp]: "i < length xs \<Longrightarrow> load xs i = Inr (xs ! i)"
  by (simp add: load_def)

lemma store_in [simp]: "i < length xs \<Longrightarrow> store xs i v = Inr (xs[i := v])"
  by (simp add: store_def)

text \<open>A size_t subtraction of one.\<close>

definition size_pred :: "nat \<Rightarrow> nat" where
  "size_pred n = (if n = 0 then 2 ^ 64 - 1 else n - 1)"

section \<open>math.c\<close>

lemma unat_half [simp]: "unat (drop_bit (Suc 0) (x :: u64)) = unat x div 2"
proof -
  have "unat (drop_bit (Suc 0) x) = drop_bit (Suc 0) (unat x)" by (rule unat_drop_bit_eq)
  then show ?thesis by (simp add: drop_bit_eq_div)
qed

lemma unat_shift: "x \<noteq> 0 \<Longrightarrow> unat (drop_bit 1 (x :: u64)) < unat x"
  by (simp add: unat_gt_0)

function ulllog2_loop :: "u64 \<Rightarrow> u64 \<Rightarrow> u64" where
  "ulllog2_loop x ans = (if x \<noteq> 0 then ulllog2_loop (drop_bit 1 x) (ans + 1) else ans)"
  by pat_completeness auto
termination by (relation "measure (unat \<circ> fst)") (auto simp: unat_gt_0)

declare ulllog2_loop.simps [simp del]

definition ulllog2 :: "u64 \<Rightarrow> u64" where "ulllog2 x = ulllog2_loop x 0"

text \<open>The loop does not end when it starts at 0; the caller rules that out.\<close>

partial_function (option) power_of_two_loop :: "u64 \<Rightarrow> bool option" where
  "power_of_two_loop x =
     (if x \<noteq> 1 then (if x mod 2 \<noteq> 0 then Some False else power_of_two_loop (drop_bit 1 x)) else Some True)"

definition is_power_of_two :: "u64 \<Rightarrow> bool option" where
  "is_power_of_two x = (if x = 0 then Some True else power_of_two_loop x)"

lemma ulllog2_loop_eq: "ulllog2_loop x ans = ans + of_nat (floorlog 2 (unat x))"
proof (induction x ans rule: ulllog2_loop.induct)
  case (1 x ans)
  show ?case
  proof (cases "x = 0")
    case True
    then show ?thesis by (subst ulllog2_loop.simps) (simp add: floorlog_def)
  next
    case False
    have "floorlog 2 (unat x) = floorlog 2 (unat x div 2) + 1"
      using False by (subst compute_floorlog) (simp add: unat_gt_0)
    then show ?thesis using 1[OF False] False
      by (subst ulllog2_loop.simps) simp
  qed
qed

lemma power_of_two_loop_eq: "x \<noteq> 0 \<Longrightarrow> power_of_two_loop x = Some (\<exists>n. unat x = 2 ^ n)"
proof (induction "unat x" arbitrary: x rule: less_induct)
  case less
  show ?case
  proof (cases "x = 1")
    case True
    then show ?thesis by (subst power_of_two_loop.simps) (auto intro: exI[of _ 0])
  next
    case False
    have odd: "x mod 2 = 0 \<longleftrightarrow> even (unat x)"
      by (simp add: unat_eq_zero[symmetric] unat_mod even_iff_mod_2_eq_zero del: unat_eq_zero)
    have one: "unat x \<noteq> 1" using False by (metis unsigned_1 unsigned_word_eqI)
    show ?thesis
    proof (cases "x mod 2 = 0")
      case True
      have nz: "drop_bit 1 x \<noteq> 0"
        using less.prems one True odd unat_half[of x] unat_gt_0[of x]
        by (metis One_nat_def dvd_div_mult_self mult_0 unsigned_0 neq0_conv)
      have "(\<exists>n. unat x div 2 = 2 ^ n) \<longleftrightarrow> (\<exists>n. unat x = 2 ^ n)" (is "?L = ?R")
      proof
        assume ?L
        then obtain n where "unat x div 2 = 2 ^ n" by blast
        then have "unat x = 2 ^ Suc n" using True odd by (metis dvd_mult_div_cancel power_Suc)
        then show ?R by blast
      next
        assume ?R
        then obtain n where n: "unat x = 2 ^ n" by blast
        then obtain m where "n = Suc m" using one by (cases n) auto
        then show ?L using n by auto
      qed
      then show ?thesis
        using less.hyps[OF unat_shift[OF less.prems] nz] True False
        by (subst power_of_two_loop.simps) simp
    next
      case no: False
      have "\<not> (\<exists>n. unat x = 2 ^ n)"
      proof
        assume "\<exists>n. unat x = 2 ^ n"
        then obtain n where n: "unat x = 2 ^ n" by blast
        then obtain m where "n = Suc m" using one by (cases n) auto
        then show False using n no odd by simp
      qed
      then show ?thesis using no False by (subst power_of_two_loop.simps) simp
    qed
  qed
qed

section \<open>C strings\<close>

fun strlen :: "u8 list \<Rightarrow> nat res" where
  "strlen [] = Inl Fault"
| "strlen (c # s) = (if c \<noteq> 0 then rmap Suc (strlen s) else Inr 0)"

text \<open>A char is signed on x64.\<close>

fun strcmp :: "u8 list \<Rightarrow> u8 list \<Rightarrow> int res" where
  "strcmp (a # s1) (b # s2) =
     (if a \<noteq> 0 \<and> b \<noteq> 0 \<and> a = b then strcmp s1 s2 else Inr (sint a - sint b))"
| "strcmp _ _ = Inl Fault"

fun strncmp :: "u8 list \<Rightarrow> u8 list \<Rightarrow> nat \<Rightarrow> int res" where
  "strncmp s1 s2 0 = Inr 0"
| "strncmp (a # s1) (b # s2) (Suc len) =
     (if a \<noteq> 0 \<and> b \<noteq> 0 \<and> a = b then strncmp s1 s2 len else Inr (sint a - sint b))"
| "strncmp _ _ _ = Inl Fault"

text \<open>The copy loops from index \<open>i\<close> on; \<open>src\<close> is the source from that index.\<close>

fun strcpy_loop :: "nat \<Rightarrow> nat \<Rightarrow> u8 list \<Rightarrow> u8 list \<Rightarrow> u8 list res" where
  "strcpy_loop limit i [] dst = (if i < limit then Inl Fault else store dst i 0)"
| "strcpy_loop limit i (c # src) dst =
     (if i < limit \<and> c \<noteq> 0 then rbind (store dst i c) (strcpy_loop limit (Suc i) src) else store dst i 0)"

definition strcpy_s :: "u8 list \<Rightarrow> nat \<Rightarrow> u8 list \<Rightarrow> u8 list res" where
  "strcpy_s dst dst_len src = strcpy_loop (size_pred dst_len) 0 src dst"

fun strncpy_loop :: "nat \<Rightarrow> nat \<Rightarrow> u8 list \<Rightarrow> nat \<Rightarrow> u8 list \<Rightarrow> u8 list res" where
  "strncpy_loop limit i [] copy_len dst = (if i < limit then Inl Fault else store dst i 0)"
| "strncpy_loop limit i (c # src) copy_len dst =
     (if i < limit \<and> c \<noteq> 0 \<and> copy_len > 0
      then rbind (store dst i c) (strncpy_loop limit (Suc i) src (copy_len - 1)) else store dst i 0)"

definition strncpy_s :: "u8 list \<Rightarrow> nat \<Rightarrow> u8 list \<Rightarrow> nat \<Rightarrow> u8 list res" where
  "strncpy_s dst dst_len src copy_len = strncpy_loop (size_pred dst_len) 0 src copy_len dst"

fun memcmp :: "u8 list \<Rightarrow> u8 list \<Rightarrow> nat \<Rightarrow> int res" where
  "memcmp p q 0 = Inr 0"
| "memcmp (a # p) (b # q) (Suc len) = (if a = b then memcmp p q len else Inr (uint a - uint b))"
| "memcmp _ _ _ = Inl Fault"

fun memset_loop :: "u8 list \<Rightarrow> u8 \<Rightarrow> nat \<Rightarrow> nat \<Rightarrow> u8 list res" where
  "memset_loop dst ch i 0 = Inr dst"
| "memset_loop dst ch i (Suc n) = rbind (store dst i ch) (\<lambda>dst. memset_loop dst ch (Suc i) n)"

definition memset :: "u8 list \<Rightarrow> int \<Rightarrow> nat \<Rightarrow> u8 list res" where
  "memset dst ch len = memset_loop dst (word_of_int ch) 0 len"

text \<open>Copying between two distinct objects, of bytes or of larger units.\<close>

fun memcpy_loop :: "'a list \<Rightarrow> 'a list \<Rightarrow> nat \<Rightarrow> nat \<Rightarrow> 'a list res" where
  "memcpy_loop dst src i 0 = Inr dst"
| "memcpy_loop dst src i (Suc n) =
     rbind (load src i) (\<lambda>v. rbind (store dst i v) (\<lambda>dst. memcpy_loop dst src (Suc i) n))"

definition memcpy :: "'a list \<Rightarrow> 'a list \<Rightarrow> nat \<Rightarrow> 'a list res" where
  "memcpy dst src len = memcpy_loop dst src 0 len"

definition memcpy_s :: "'a list \<Rightarrow> nat \<Rightarrow> 'a list \<Rightarrow> nat \<Rightarrow> 'a list res" where
  "memcpy_s dst dst_len src copy_len =
     rbind (require Assertion (copy_len \<le> dst_len)) (\<lambda>_. memcpy dst src copy_len)"

text \<open>A buffer holds the C string \<open>s\<close>.\<close>

definition cstr :: "u8 list \<Rightarrow> u8 list \<Rightarrow> bool" where
  "cstr buf s \<longleftrightarrow> 0 \<notin> set s \<and> (\<exists>rest. buf = s @ 0 # rest)"

lemma cstrI [intro]: "0 \<notin> set s \<Longrightarrow> cstr (s @ 0 # rest) s"
  by (auto simp: cstr_def)

lemma cstrE:
  assumes "cstr buf s" obtains rest where "buf = s @ 0 # rest" "0 \<notin> set s"
  using assms by (auto simp: cstr_def)

lemma cstr_unique: "cstr buf s \<Longrightarrow> cstr buf t \<Longrightarrow> s = t"
proof (induction s arbitrary: buf t)
  case Nil
  then show ?case by (cases t) (auto simp: cstr_def)
next
  case (Cons c s)
  then show ?case by (cases t) (auto simp: cstr_def Cons_eq_append_conv)
qed

lemma strlen_cstr: "cstr buf s \<Longrightarrow> strlen buf = Inr (length s)"
proof -
  have "0 \<notin> set s \<Longrightarrow> strlen (s @ 0 # rest) = Inr (length s)" for rest by (induction s) auto
  then show "cstr buf s \<Longrightarrow> strlen buf = Inr (length s)" by (auto elim!: cstrE)
qed

lemma sint_zero_iff: "sint (a :: u8) = 0 \<longleftrightarrow> a = 0"
  by (metis signed_0 signed_word_eqI)

lemma strcmp_append:
  "0 \<notin> set s \<Longrightarrow> 0 \<notin> set t \<Longrightarrow> \<exists>d. strcmp (s @ 0 # r1) (t @ 0 # r2) = Inr d \<and> (d = 0 \<longleftrightarrow> s = t)"
proof (induction s arbitrary: t)
  case Nil
  then show ?case by (cases t) (auto simp: sint_zero_iff)
next
  case (Cons a s)
  then show ?case by (cases t) (auto simp: sint_zero_iff signed_word_eqI)
qed

lemma strcmp_cstr: "cstr a s \<Longrightarrow> cstr b t \<Longrightarrow> \<exists>d. strcmp a b = Inr d \<and> (d = 0 \<longleftrightarrow> s = t)"
  using strcmp_append by (auto elim!: cstrE)

lemma strncmp_append:
  "0 \<notin> set s \<Longrightarrow> 0 \<notin> set t \<Longrightarrow>
   \<exists>d. strncmp (s @ 0 # r1) (t @ 0 # r2) n = Inr d \<and> (d = 0 \<longleftrightarrow> take n s = take n t)"
proof (induction n arbitrary: s t)
  case (Suc n)
  show ?case
  proof (cases s)
    case Nil
    then show ?thesis using Suc.prems by (cases t) (auto simp: sint_zero_iff)
  next
    case (Cons a s')
    then show ?thesis using Suc by (cases t) (auto simp: sint_zero_iff signed_word_eqI)
  qed
qed auto

text \<open>The bounded copies write a prefix of the source and its terminator, and nothing else.\<close>

lemma update_at_length: "i = length xs \<Longrightarrow> (xs @ ys)[i := v] = xs @ ys[0 := v]"
  by (simp add: list_update_append)

lemma strcpy_loop_append:
  "0 \<notin> set s \<Longrightarrow> i = length pre \<Longrightarrow> i \<le> limit \<Longrightarrow> limit < i + length dst \<Longrightarrow>
   strcpy_loop limit i (s @ 0 # r) (pre @ dst) =
     Inr (pre @ take (limit - i) s @ 0 # drop (Suc (length (take (limit - i) s))) dst)"
proof (induction s arbitrary: i pre dst)
  case Nil
  then show ?case by (cases dst) auto
next
  case (Cons c s)
  show ?case
  proof (cases "i < limit")
    case True
    obtain d dst' where d: "dst = d # dst'" using Cons.prems(3,4) by (cases dst) auto
    obtain k where k: "limit = Suc i + k" using True by (metis less_iff_Suc_add add_Suc)
    have "strcpy_loop limit (Suc i) (s @ 0 # r) ((pre @ [c]) @ dst') =
        Inr ((pre @ [c]) @ take (limit - Suc i) s @ 0 # drop (Suc (length (take (limit - Suc i) s))) dst')"
      using Cons.prems True d by (intro Cons.IH) auto
    then have "strcpy_loop limit (Suc i) (s @ 0 # r) (pre @ c # dst') =
        Inr (pre @ c # take k s @ 0 # drop (Suc (length (take k s))) dst')"
      by (simp add: k)
    moreover have "limit - i = Suc k" using k by simp
    moreover have "(pre @ dst)[i := c] = pre @ c # dst'" using Cons.prems(2) d by simp
    ultimately show ?thesis using Cons.prems(1,2) True d by simp
  next
    case False
    then show ?thesis using Cons.prems by (cases dst) (auto simp: list_update_append)
  qed
qed

lemma strcpy_s_cstr:
  assumes "cstr src s" "0 < dst_len" "dst_len \<le> length dst"
  shows "strcpy_s dst dst_len src = Inr (take (dst_len - 1) s @ 0 # drop (Suc (length (take (dst_len - 1) s))) dst)"
  using assms strcpy_loop_append[of s 0 "[]" "dst_len - 1" dst]
  by (auto simp: strcpy_s_def size_pred_def elim!: cstrE)

lemma memcpy_loop_eq:
  "i + n \<le> length src \<Longrightarrow> i + n \<le> length dst \<Longrightarrow>
   memcpy_loop dst src i n = Inr (take i dst @ take n (drop i src) @ drop (i + n) dst)"
proof (induction n arbitrary: i dst)
  case (Suc n)
  have "take (Suc i) (dst[i := src ! i]) = take i dst @ [src ! i]"
    using Suc.prems by (simp add: take_Suc_conv_app_nth list_update_append)
  moreover have "take (Suc n) (drop i src) = src ! i # take n (drop (Suc i) src)"
  proof -
    have "i < length src" using Suc.prems by simp
    then have "drop i src = src ! i # drop (Suc i) src" by (rule Cons_nth_drop_Suc[symmetric])
    then show ?thesis by simp
  qed
  ultimately show ?case using Suc.prems Suc.IH[of "Suc i" "dst[i := src ! i]"] by simp
qed simp

lemma memcpy_eq:
  "n \<le> length src \<Longrightarrow> n \<le> length dst \<Longrightarrow> memcpy dst src n = Inr (take n src @ drop n dst)"
  using memcpy_loop_eq[of 0 n src dst] by (simp add: memcpy_def)

lemma memset_loop_eq:
  "i + n \<le> length dst \<Longrightarrow> memset_loop dst ch i n = Inr (take i dst @ replicate n ch @ drop (i + n) dst)"
proof (induction n arbitrary: i dst)
  case (Suc n)
  have "take (Suc i) (dst[i := ch]) = take i dst @ [ch]"
    using Suc.prems by (simp add: take_Suc_conv_app_nth list_update_append)
  then show ?case using Suc.prems Suc.IH[of "Suc i" "dst[i := ch]"] by simp
qed simp

lemma memcmp_eq:
  "n \<le> length p \<Longrightarrow> n \<le> length q \<Longrightarrow> \<exists>d. memcmp p q n = Inr d \<and> (d = 0 \<longleftrightarrow> take n p = take n q)"
proof (induction p q n rule: memcmp.induct)
  case (2 a p b q len)
  then show ?case by (auto simp: unsigned_word_eqI)
qed auto

section \<open>Properties\<close>

text \<open>
  C25: bounded copying. strcpy_s copies a C string into any buffer of at least dst_len
  bytes (dst_len not 0): the result is zero-terminated and holds the string cut to
  dst_len - 1 characters, no byte at or behind dst_len changes, and when nothing is cut
  off strcmp finds the copy equal to the source.
\<close>

theorem strcpy_s_copies:
  assumes "cstr src s" "0 < dst_len" "dst_len \<le> length dst"
  shows "\<exists>d. strcpy_s dst dst_len src = Inr d \<and> length d = length dst \<and> cstr d (take (dst_len - 1) s)
    \<and> drop dst_len d = drop dst_len dst \<and> (length s < dst_len \<longrightarrow> strcmp d src = Inr 0)"
proof -
  let ?t = "take (dst_len - 1) s"
  let ?d = "?t @ 0 # drop (Suc (length ?t)) dst"
  have run: "strcpy_s dst dst_len src = Inr ?d" by (rule strcpy_s_cstr[OF assms])
  have t: "Suc (length ?t) \<le> dst_len" using assms(2) by auto
  have len: "length ?d = length dst" using t assms(3) by simp
  have nz: "0 \<notin> set ?t" using assms(1) by (auto elim!: cstrE dest: in_set_takeD)
  have c: "cstr ?d ?t" using nz by (rule cstrI)
  have "drop dst_len ?d = drop dst_len dst" using t by (simp add: drop_Cons' le_diff_conv2)
  moreover have "strcmp ?d src = Inr 0" if "length s < dst_len"
    using strcmp_cstr[OF c assms(1)] that by auto
  ultimately show ?thesis using run len c by blast
qed

theorem strcpy_s_copies_witness:
  "\<exists>d. strcpy_s [9, 9, 9, 9, 9, 9] 4 [0x61, 0x62, 0] = Inr d \<and> length d = 6 \<and> strcmp d [0x61, 0x62, 0] = Inr 0"
proof -
  have "cstr [0x61, 0x62, 0] [0x61, 0x62]" by (simp add: cstr_def)
  from strcpy_s_copies[OF this, of 4 "[9, 9, 9, 9, 9, 9]"] show ?thesis by auto
qed

text \<open>
  The bit length. ulllog2 counts the bits of its argument: for a number x from
  2 ^ n up to 2 ^ (n + 1) - 1 it answers n + 1 (one more than the logarithm), and 0 for 0.
  is_power_of_two always returns, and its answer is true for the powers of two and for 0.
\<close>

lemma math_functions:
  "(\<forall>n. 2 ^ n \<le> unat x \<and> unat x < 2 ^ Suc n \<longrightarrow> unat (ulllog2 x) = Suc n) \<and> ulllog2 0 = 0
   \<and> is_power_of_two x = Some (x = 0 \<or> (\<exists>n. unat x = 2 ^ n))"
proof (intro conjI allI impI)
  fix n assume x: "2 ^ n \<le> unat x \<and> unat x < 2 ^ Suc n"
  then have "floorlog 2 (unat x) \<le> Suc n" "\<not> floorlog 2 (unat x) \<le> n" by (auto simp: floorlog_le_iff)
  then have "floorlog 2 (unat x) = Suc n" by simp
  moreover have "n < 64"
  proof (rule ccontr)
    assume "\<not> n < 64"
    then have "(2 :: nat) ^ 64 \<le> 2 ^ n" by (intro power_increasing) auto
    moreover have "unat x < 2 ^ 64" using unsigned_less[of x] by simp
    ultimately show False using x by linarith
  qed
  ultimately show "unat (ulllog2 x) = Suc n"
    by (simp add: ulllog2_def ulllog2_loop_eq unat_of_nat take_bit_nat_eq_self del: of_nat_Suc)
next
  show "ulllog2 0 = 0" by (simp add: ulllog2_def ulllog2_loop_eq floorlog_def)
  show "is_power_of_two x = Some (x = 0 \<or> (\<exists>n. unat x = 2 ^ n))"
    using power_of_two_loop_eq[of x] by (simp add: is_power_of_two_def)
qed

end
