(* ===== verification/Strings.thy ===== *)
theory Strings
  imports CString
begin

text \<open>
  The growable strings of libs/libresea/string.c. A \<open>string_t\<close> owns a heap buffer
  with the zero-terminated contents; buffers from malloc() have arbitrary initial
  contents, given by the argument \<open>fresh\<close>. Lengths are far below the range of an
  int: malloc() serves at most one megabyte.
\<close>

section \<open>Operations\<close>

definition STRING_INITIAL_CAPACITY :: nat where "STRING_INITIAL_CAPACITY = 8"

record string_t =
  data :: "u8 list"
  len :: nat
  capacity :: nat

definition string_new :: "(nat \<Rightarrow> u8 list) \<Rightarrow> string_t" where
  "string_new fresh = \<lparr>data = fresh STRING_INITIAL_CAPACITY, len = 0, capacity = STRING_INITIAL_CAPACITY\<rparr>"

definition string_len :: "string_t \<Rightarrow> nat" where "string_len s = len s"

definition string_cstr :: "string_t \<Rightarrow> u8 list" where "string_cstr s = data s"

text \<open>The index is an int that is compared with the length only.\<close>

definition string_get_char :: "string_t \<Rightarrow> int \<Rightarrow> u8 res" where
  "string_get_char s index =
     rbind (require Assertion (index < int (len s))) (\<lambda>_.
     rbind (require Fault (0 \<le> index)) (\<lambda>_. load (data s) (nat index)))"

definition string_set_char :: "string_t \<Rightarrow> int \<Rightarrow> u8 \<Rightarrow> string_t res" where
  "string_set_char s index ch =
     rbind (require Assertion (index < int (len s))) (\<lambda>_.
     rbind (require Fault (0 \<le> index)) (\<lambda>_.
     rbind (store (data s) (nat index) ch) (\<lambda>d. Inr (s\<lparr>data := d\<rparr>))))"

definition string_resize :: "(nat \<Rightarrow> u8 list) \<Rightarrow> string_t \<Rightarrow> nat \<Rightarrow> string_t res" where
  "string_resize fresh s new_capacity =
     rbind (require Assertion (new_capacity > capacity s)) (\<lambda>_.
     rbind (memcpy (fresh new_capacity) (data s) (len s + 1)) (\<lambda>d.
     Inr (s\<lparr>data := d, capacity := new_capacity\<rparr>)))"

fun append_loop :: "u8 list \<Rightarrow> string_t \<Rightarrow> string_t res" where
  "append_loop [] s = Inl Fault"
| "append_loop (c # cs) s =
     (if c \<noteq> 0 then
        rbind (store (data s) (len s) c) (\<lambda>d. append_loop cs (s\<lparr>data := d, len := len s + 1\<rparr>))
      else Inr s)"

definition string_append_cstr :: "(nat \<Rightarrow> u8 list) \<Rightarrow> string_t \<Rightarrow> u8 list \<Rightarrow> string_t res" where
  "string_append_cstr fresh s cs =
     rbind (strlen cs) (\<lambda>n.
     rbind (if capacity s < len s + n + 1 then string_resize fresh s ((len s + n + 1) * 2) else Inr s) (\<lambda>s.
     rbind (append_loop cs s) (\<lambda>s.
     rbind (store (data s) (len s) 0) (\<lambda>d. Inr (s\<lparr>data := d\<rparr>)))))"

definition string_append :: "(nat \<Rightarrow> u8 list) \<Rightarrow> string_t \<Rightarrow> string_t \<Rightarrow> string_t res" where
  "string_append fresh s other = string_append_cstr fresh s (data other)"

definition string_from :: "(nat \<Rightarrow> u8 list) \<Rightarrow> u8 list \<Rightarrow> string_t res" where
  "string_from fresh cs = string_append_cstr fresh (string_new fresh) cs"

text \<open>The inner loop of the search: it stops at the end of either string.\<close>

fun matches_at :: "u8 list \<Rightarrow> u8 list \<Rightarrow> bool res" where
  "matches_at (c # h) n =
     (if c \<noteq> 0 then
        (case n of [] \<Rightarrow> Inl Fault | d # n \<Rightarrow>
           if d \<noteq> 0 then (if c \<noteq> d then Inr False else matches_at h n) else Inr True)
      else Inr True)"
| "matches_at [] n = Inl Fault"

fun find_loop :: "u8 list \<Rightarrow> u8 list \<Rightarrow> int \<Rightarrow> int res" where
  "find_loop [] needle start = Inl Fault"
| "find_loop (c # h) needle start =
     (if c \<noteq> 0 then
        rbind (matches_at (c # h) needle) (\<lambda>m. if m then Inr start else find_loop h needle (start + 1))
      else Inr (- 1))"

definition string_find_cstr :: "string_t \<Rightarrow> u8 list \<Rightarrow> int res" where
  "string_find_cstr haystack needle = find_loop (data haystack) needle 0"

definition string_find :: "string_t \<Rightarrow> string_t \<Rightarrow> int res" where
  "string_find haystack needle = string_find_cstr haystack (data needle)"

definition string_startswith_cstr :: "string_t \<Rightarrow> u8 list \<Rightarrow> bool res" where
  "string_startswith_cstr s prefix = rmap (\<lambda>i. i = 0) (string_find_cstr s prefix)"

definition string_startswith :: "string_t \<Rightarrow> string_t \<Rightarrow> bool res" where
  "string_startswith s prefix = string_startswith_cstr s (data prefix)"

section \<open>Contents\<close>

text \<open>
  The buffer has the recorded capacity, with room for the terminator, and the
  contents are free of zeros. \<open>terminated\<close> adds that the terminator is there: a
  new string has none until something is appended.
\<close>

definition contents :: "string_t \<Rightarrow> u8 list" where
  "contents s = take (len s) (data s)"

definition string_ok :: "string_t \<Rightarrow> bool" where
  "string_ok s \<longleftrightarrow> length (data s) = capacity s \<and> len s < capacity s \<and> 0 \<notin> set (contents s)"

definition terminated :: "string_t \<Rightarrow> bool" where
  "terminated s \<longleftrightarrow> string_ok s \<and> data s ! len s = 0"

lemma terminated_cstr: "terminated s \<Longrightarrow> cstr (data s) (contents s)"
  unfolding cstr_def terminated_def string_ok_def contents_def
  by (metis id_take_nth_drop)

lemma append_loop_eq:
  "0 \<notin> set cs \<Longrightarrow> len s + length cs < length (data s) \<Longrightarrow>
   append_loop (cs @ 0 # r) s =
     Inr (s\<lparr>data := take (len s) (data s) @ cs @ drop (len s + length cs) (data s), len := len s + length cs\<rparr>)"
proof (induction cs arbitrary: s)
  case (Cons c cs)
  have "take (Suc (len s)) ((data s)[len s := c]) = take (len s) (data s) @ [c]"
    using Cons.prems by (simp add: take_Suc_conv_app_nth list_update_append)
  then show ?case using Cons.prems Cons.IH[of "s\<lparr>data := (data s)[len s := c], len := Suc (len s)\<rparr>"] by simp
qed simp

lemma string_resize_eq:
  assumes "string_ok s" "capacity s < n" "length (fresh n) = n"
  shows "string_resize fresh s n =
    Inr (s\<lparr>data := take (len s + 1) (data s) @ drop (len s + 1) (fresh n), capacity := n\<rparr>)"
  using assms by (simp add: string_resize_def string_ok_def memcpy_eq)

lemma string_append_cstr_ok:
  assumes s: "string_ok s" and cs: "cstr cs c" and fresh: "\<And>n. length (fresh n) = n"
  shows "\<exists>s'. string_append_cstr fresh s cs = Inr s' \<and> terminated s' \<and> contents s' = contents s @ c"
proof -
  obtain r where r: "cs = c @ 0 # r" "0 \<notin> set c" using cs by (rule cstrE)
  define s1 where "s1 = (if capacity s < len s + length c + 1
     then s\<lparr>data := take (len s + 1) (data s) @ drop (len s + 1) (fresh ((len s + length c + 1) * 2)),
            capacity := (len s + length c + 1) * 2\<rparr> else s)"
  have run: "(if capacity s < len s + length c + 1 then string_resize fresh s ((len s + length c + 1) * 2)
      else Inr s) = Inr s1"
    using string_resize_eq[of s "(len s + length c + 1) * 2" fresh] s fresh by (auto simp: s1_def)
  have s1: "len s1 = len s" "take (len s) (data s1) = contents s" "len s + length c < length (data s1)"
    "length (data s1) = capacity s1"
    using s fresh by (auto simp: s1_def contents_def string_ok_def)
  note al = append_loop_eq[OF r(2), of s1 r]
  let ?s2 = "s1\<lparr>data := contents s @ c @ drop (len s + length c) (data s1), len := len s + length c\<rparr>"
  have a: "append_loop cs s1 = Inr ?s2" using al s1 r by simp
  have ln: "length (contents s) = len s" using s by (simp add: contents_def string_ok_def)
  let ?s3 = "?s2\<lparr>data := (data ?s2)[len s + length c := 0]\<rparr>"
  have "string_append_cstr fresh s cs = Inr ?s3"
    unfolding string_append_cstr_def strlen_cstr[OF cs] rbind.simps run a using s1 ln by simp
  moreover have "terminated ?s3" "contents ?s3 = contents s @ c"
    using s1 ln s r(2) by (auto simp: terminated_def string_ok_def contents_def list_update_append nth_append
        split: nat_diff_split)
  ultimately show ?thesis by blast
qed

lemma string_new_ok: "(\<And>n. length (fresh n) = n) \<Longrightarrow> string_ok (string_new fresh) \<and> contents (string_new fresh) = []"
  by (simp add: string_new_def string_ok_def contents_def STRING_INITIAL_CAPACITY_def)

section \<open>Searching\<close>

text \<open>
  A position matches when the needle and the rest of the haystack agree as far as
  both go: near the end of the haystack a prefix of the needle is enough.
\<close>

definition agree :: "u8 list \<Rightarrow> u8 list \<Rightarrow> bool" where
  "agree h n \<longleftrightarrow> take (length n) h = take (length h) n"

lemma matches_at_eq:
  "0 \<notin> set h \<Longrightarrow> 0 \<notin> set n \<Longrightarrow> matches_at (h @ 0 # r) (n @ 0 # r') = Inr (agree h n)"
proof (induction h arbitrary: n)
  case (Cons c h)
  then show ?case by (cases n) (auto simp: agree_def)
qed (simp add: agree_def)

lemma find_loop_eq:
  assumes "0 \<notin> set h" "0 \<notin> set n"
  shows "find_loop (h @ 0 # r) (n @ 0 # r') start =
    Inr (case find (\<lambda>i. agree (drop i h) n) [0..<length h] of None \<Rightarrow> - 1 | Some i \<Rightarrow> start + int i)"
  using assms(1)
proof (induction h arbitrary: start)
  case (Cons c h)
  have shift: "find P [Suc 0..<Suc m] = map_option Suc (find (P \<circ> Suc) [0..<m])" for P m
  proof -
    have "[Suc 0..<Suc m] = map Suc [0..<m]" by (simp add: map_Suc_upt)
    moreover have "find P (map Suc xs) = map_option Suc (find (P \<circ> Suc) xs)" for xs by (induction xs) auto
    ultimately show ?thesis by simp
  qed
  have up: "[0..<length (c # h)] = 0 # [Suc 0..<Suc (length h)]" by (simp add: upt_conv_Cons del: upt_Suc)
  have comp: "(\<lambda>i. agree (drop i (c # h)) n) \<circ> Suc = (\<lambda>i. agree (drop i h) n)" by auto
  have m: "matches_at (c # h @ 0 # r) (n @ 0 # r') = Inr (agree (c # h) n)"
    using matches_at_eq[of "c # h" n r r'] Cons.prems assms(2) by simp
  have IH: "find_loop (h @ 0 # r) (n @ 0 # r') (start + 1) =
    Inr (case find (\<lambda>i. agree (drop i h) n) [0..<length h] of None \<Rightarrow> - 1 | Some i \<Rightarrow> start + 1 + int i)"
    using Cons by simp
  show ?case
    using Cons.prems IH m unfolding up
    by (simp add: shift comp del: upt_Suc matches_at.simps split: option.splits)
qed simp

section \<open>Properties\<close>

text \<open>Appending a list of zero-terminated strings one after the other.\<close>

fun append_cstrs :: "(nat \<Rightarrow> u8 list) \<Rightarrow> string_t \<Rightarrow> u8 list list \<Rightarrow> string_t res" where
  "append_cstrs fresh s [] = Inr s"
| "append_cstrs fresh s (cs # css) = rbind (string_append_cstr fresh s cs) (\<lambda>s. append_cstrs fresh s css)"

lemma append_cstrs_ok:
  assumes "\<And>n. length (fresh n) = n"
  shows "string_ok s \<Longrightarrow> list_all2 cstr css cs \<Longrightarrow>
    \<exists>s'. append_cstrs fresh s css = Inr s' \<and> string_ok s' \<and> (css \<noteq> [] \<longrightarrow> terminated s') \<and> contents s' = contents s @ concat cs"
proof (induction css arbitrary: s cs)
  case (Cons c css)
  from Cons.prems(2) obtain d ds where ds: "cs = d # ds" "cstr c d" "list_all2 cstr css ds" by (cases cs) auto
  obtain s1 where s1: "string_append_cstr fresh s c = Inr s1" "terminated s1" "contents s1 = contents s @ d"
    using string_append_cstr_ok[OF Cons.prems(1) ds(2) assms] by blast
  then have ok1: "string_ok s1" by (simp add: terminated_def)
  show ?case
  proof (cases css)
    case Nil
    then show ?thesis using s1 ok1 ds by simp
  next
    case (Cons c' css')
    then show ?thesis using Cons.IH[OF ok1 ds(3)] s1 ds(1) by auto
  qed
qed simp



lemma find_agree_eq: "i + length n \<le> length h \<Longrightarrow> agree (drop i h) n \<longleftrightarrow> take (length n) (drop i h) = n"
  by (simp add: agree_def)

lemma find_first:
  "find P [0..<m] = (if \<exists>i < m. P i then Some (LEAST i. P i) else None)"
proof (cases "\<exists>i < m. P i")
  case True
  define j where "j = (LEAST i. P i)"
  have j: "P j" "\<And>i. i < j \<Longrightarrow> \<not> P i" using True unfolding j_def by (auto intro: LeastI dest: not_less_Least)
  have lt: "j < m" using True unfolding j_def by (meson Least_le le_less_trans)
  have "find P [0..<m] = Some j"
    unfolding find_Some_iff by (rule exI[where x = j]) (use j lt in auto)
  then show ?thesis using True j_def by simp
next
  case False
  then show ?thesis by (auto simp: find_None_iff)
qed

text \<open>
  C24: searching in a string. string_find returns the least position at which the needle
  and the rest of the string agree as far as both go, and -1 when there is none. So it
  always returns, never beyond the first true occurrence; but it also answers with a
  position near the end at which only a prefix of the needle is found.
\<close>

theorem string_find_spec:
  assumes "terminated s" "cstr ns n"
  shows "string_find_cstr s ns =
    Inr (if \<exists>i < len s. agree (drop i (contents s)) n then int (LEAST i. agree (drop i (contents s)) n) else - 1)"
proof -
  obtain r where r: "data s = contents s @ 0 # r" "0 \<notin> set (contents s)" using terminated_cstr[OF assms(1)] by (rule cstrE)
  obtain r' where r': "ns = n @ 0 # r'" "0 \<notin> set n" using assms(2) by (rule cstrE)
  have "length (contents s) = len s" using assms(1) by (simp add: contents_def terminated_def string_ok_def)
  then show ?thesis unfolding string_find_cstr_def r(1) r'(1) find_loop_eq[OF r(2) r'(2)] find_first
    by simp
qed

theorem string_find_spec_witness:
  "string_find_cstr \<lparr>data = [0x61, 0x62, 0, 0], len = 2, capacity = 4\<rparr> [0x62, 0x63, 0] = Inr 1"
proof -
  let ?s = "\<lparr>data = [0x61, 0x62, 0, 0], len = 2, capacity = 4\<rparr> :: string_t"
  have t: "terminated ?s" "cstr [0x62, 0x63, 0] [0x62, 0x63]"
    by (simp_all add: terminated_def string_ok_def contents_def cstr_def)
  have a: "agree (drop i (contents ?s)) [0x62, 0x63] \<longleftrightarrow> i \<noteq> 0" for i
    by (cases i; cases "i - 1") (auto simp: agree_def contents_def)
  have "(LEAST i :: nat. i \<noteq> 0) = 1" by (rule Least_equality) auto
  moreover have "\<exists>i < len ?s. i \<noteq> 0" by (rule exI[where x = 1]) simp
  ultimately show ?thesis using string_find_spec[OF t] by (simp only: a if_True of_nat_1)
qed

end
