(* ===== verification/Vector.thy ===== *)
theory Vector
  imports CString
begin

text \<open>
  The growable arrays of libs/libresea/vector.c: a buffer of \<open>capacity\<close> elements of
  which the first \<open>size\<close> are in use. The unused part of a buffer from malloc() has
  arbitrary contents (the argument \<open>fresh\<close>, indexed by the number of elements).
  The functions that run over a vector to delete its elements are the ones of its
  trait, which the clients supply.
\<close>

section \<open>Operations\<close>

record 'a vector =
  buf :: "'a list"
  vsize :: int
  vcapacity :: int

definition vector_new :: "(nat \<Rightarrow> 'a list) \<Rightarrow> 'a vector" where
  "vector_new fresh = \<lparr>buf = fresh 1, vsize = 0, vcapacity = 1\<rparr>"

definition vector_size :: "'a vector \<Rightarrow> int" where "vector_size v = vsize v"

definition vector_is_empty :: "'a vector \<Rightarrow> bool" where "vector_is_empty v \<longleftrightarrow> vsize v = 0"

text \<open>The accesses check the upper bound at most; a negative index is out of the buffer.\<close>

definition vector_get :: "'a vector \<Rightarrow> int \<Rightarrow> 'a res" where
  "vector_get v index = rbind (require Fault (0 \<le> index)) (\<lambda>_. load (buf v) (nat index))"

definition vector_set :: "'a vector \<Rightarrow> int \<Rightarrow> 'a \<Rightarrow> 'a vector res" where
  "vector_set v index x =
     rbind (require Assertion (index < vsize v)) (\<lambda>_.
     rbind (require Fault (0 \<le> index)) (\<lambda>_.
     rbind (store (buf v) (nat index) x) (\<lambda>b. Inr (v\<lparr>buf := b\<rparr>))))"

definition vector_resize :: "(nat \<Rightarrow> 'a list) \<Rightarrow> 'a vector \<Rightarrow> int \<Rightarrow> 'a vector res" where
  "vector_resize fresh v new_capacity =
     rbind (require Assertion (new_capacity > vcapacity v)) (\<lambda>_.
     rbind (memcpy_s (fresh (nat new_capacity)) (nat new_capacity) (buf v) (nat (vcapacity v))) (\<lambda>b.
     Inr (v\<lparr>buf := b, vcapacity := new_capacity\<rparr>)))"

definition vector_append :: "(nat \<Rightarrow> 'a list) \<Rightarrow> 'a vector \<Rightarrow> 'a \<Rightarrow> 'a vector res" where
  "vector_append fresh v x =
     rbind (if vsize v = vcapacity v then vector_resize fresh v (vcapacity v * 2) else Inr v) (\<lambda>v.
     rbind (store (buf v) (nat (vsize v)) x) (\<lambda>b. Inr (v\<lparr>buf := b, vsize := vsize v + 1\<rparr>)))"

definition vector_pop :: "'a vector \<Rightarrow> ('a \<times> 'a vector) res" where
  "vector_pop v =
     rbind (require Assertion (vsize v > 0)) (\<lambda>_.
     rbind (load (buf v) (nat (vsize v - 1))) (\<lambda>x. Inr (x, v\<lparr>vsize := vsize v - 1\<rparr>)))"

text \<open>The loop of \<open>vector_delete\<close>: the delete function of the trait, if any, on every element.\<close>

fun vector_delete_loop :: "nat \<Rightarrow> ('a \<Rightarrow> 's \<Rightarrow> 's res) option \<Rightarrow> 'a vector \<Rightarrow> int \<Rightarrow> 's \<Rightarrow> 's res" where
  "vector_delete_loop 0 delete_func v i s = Inr s"
| "vector_delete_loop (Suc n) delete_func v i s =
     rbind (case delete_func of None \<Rightarrow> Inr s | Some f \<Rightarrow> rbind (vector_get v i) (\<lambda>x. f x s)) (\<lambda>s.
     vector_delete_loop n delete_func v (i + 1) s)"

definition vector_delete :: "('a \<Rightarrow> 's \<Rightarrow> 's res) option \<Rightarrow> 'a vector \<Rightarrow> 's \<Rightarrow> 's res" where
  "vector_delete delete_func v s = vector_delete_loop (nat (vsize v)) delete_func v 0 s"

section \<open>The interface of a sequence\<close>

text \<open>Filling and draining a sequence.\<close>

fun append_all :: "('v \<Rightarrow> 'a \<Rightarrow> 'v res) \<Rightarrow> 'v \<Rightarrow> 'a list \<Rightarrow> 'v res" where
  "append_all push v [] = Inr v"
| "append_all push v (x # xs) = rbind (push v x) (\<lambda>v. append_all push v xs)"

fun drain :: "nat \<Rightarrow> ('v \<Rightarrow> ('a \<times> 'v) res) \<Rightarrow> 'v \<Rightarrow> ('a list \<times> 'v) res" where
  "drain 0 pop v = Inr ([], v)"
| "drain (Suc n) pop v = rbind (pop v) (\<lambda>(x, v). rbind (drain n pop v) (\<lambda>(xs, v). Inr (x # xs, v)))"

locale sequence =
  fixes push :: "'v \<Rightarrow> 'a \<Rightarrow> 'v res"
    and pop :: "'v \<Rightarrow> ('a \<times> 'v) res"
    and get :: "'v \<Rightarrow> int \<Rightarrow> 'a res"
    and items :: "'v \<Rightarrow> 'a list"
    and ok :: "'v \<Rightarrow> bool"
  assumes append_law: "ok v \<Longrightarrow> \<exists>v'. push v x = Inr v' \<and> ok v' \<and> items v' = items v @ [x]"
    and pop_law: "ok v \<Longrightarrow> items v \<noteq> [] \<Longrightarrow>
      \<exists>v'. pop v = Inr (last (items v), v') \<and> ok v' \<and> items v' = butlast (items v)"
    and pop_empty: "ok v \<Longrightarrow> items v = [] \<Longrightarrow> pop v = Inl Assertion"
    and get_law: "ok v \<Longrightarrow> i < length (items v) \<Longrightarrow> get v (int i) = Inr (items v ! i)"
begin

lemma append_all_items:
  "ok v \<Longrightarrow> \<exists>v'. append_all push v xs = Inr v' \<and> ok v' \<and> items v' = items v @ xs"
proof (induction xs arbitrary: v)
  case (Cons x xs)
  obtain v1 where v1: "push v x = Inr v1" "ok v1" "items v1 = items v @ [x]"
    using append_law[OF Cons.prems] by blast
  then show ?case using Cons.IH[OF v1(2)] by auto
qed simp

lemma drain_items:
  "ok v \<Longrightarrow> n \<le> length (items v) \<Longrightarrow>
   \<exists>v'. drain n pop v = Inr (rev (drop (length (items v) - n) (items v)), v') \<and> ok v'
     \<and> items v' = take (length (items v) - n) (items v)"
proof (induction n arbitrary: v)
  case (Suc n)
  have ne: "items v \<noteq> []" using Suc.prems(2) by auto
  then obtain v1 where v1: "pop v = Inr (last (items v), v1)" "ok v1" "items v1 = butlast (items v)"
    using pop_law[OF Suc.prems(1)] by blast
  obtain ys y where ys: "items v = ys @ [y]" using ne by (metis append_butlast_last_id)
  have "n \<le> length (items v1)" using Suc.prems(2) v1(3) by simp
  from Suc.IH[OF v1(2) this] obtain v2 where v2:
    "drain n pop v1 = Inr (rev (drop (length ys - n) ys), v2)" "ok v2" "items v2 = take (length ys - n) ys"
    using v1(3) ys by auto
  then show ?case using v1 ys Suc.prems(2) by auto
qed simp

text \<open>What goes in comes out again, last in first out.\<close>

lemma fill_and_drain:
  assumes "ok v"
  shows "\<exists>v1 v2. append_all push v xs = Inr v1 \<and> drain (length xs) pop v1 = Inr (rev xs, v2)
    \<and> ok v2 \<and> items v2 = items v"
proof -
  obtain v1 where v1: "append_all push v xs = Inr v1" "ok v1" "items v1 = items v @ xs"
    using append_all_items[OF assms] by blast
  then show ?thesis using drain_items[of v1 "length xs"] by auto
qed

end

section \<open>Vectors are sequences\<close>

definition vector_ok :: "'a vector \<Rightarrow> bool" where
  "vector_ok v \<longleftrightarrow> 0 \<le> vsize v \<and> vsize v \<le> vcapacity v \<and> 0 < vcapacity v
     \<and> length (buf v) = nat (vcapacity v)"

definition elems :: "'a vector \<Rightarrow> 'a list" where
  "elems v = take (nat (vsize v)) (buf v)"

lemma vector_new_ok: "length (fresh 1) = 1 \<Longrightarrow> vector_ok (vector_new fresh) \<and> elems (vector_new fresh) = []"
  by (simp add: vector_new_def vector_ok_def elems_def)

lemma length_elems: "vector_ok v \<Longrightarrow> length (elems v) = nat (vsize v)"
  by (auto simp: vector_ok_def elems_def min_def)

lemma vector_append_eq:
  assumes v: "vector_ok v" and fresh: "\<And>n. length (fresh n) = n"
  shows "\<exists>v'. vector_append fresh v x = Inr v' \<and> vector_ok v' \<and> elems v' = elems v @ [x]
    \<and> vsize v' = vsize v + 1 \<and> vcapacity v' = (if vsize v = vcapacity v then 2 * vcapacity v else vcapacity v)"
proof (cases "vsize v = vcapacity v")
  case True
  let ?b = "buf v @ drop (nat (vcapacity v)) (fresh (nat (vcapacity v * 2)))"
  have "vector_resize fresh v (vcapacity v * 2) = Inr (v\<lparr>buf := ?b, vcapacity := vcapacity v * 2\<rparr>)"
    using v fresh by (simp add: vector_resize_def memcpy_s_def memcpy_eq vector_ok_def)
  then show ?thesis using True v fresh
    by (auto simp: vector_append_def vector_ok_def elems_def nat_mult_distrib nat_add_distrib list_update_append
        take_Suc_conv_app_nth nth_append)
next
  case False
  then show ?thesis using v
    by (auto simp: vector_append_def vector_ok_def elems_def nat_add_distrib take_Suc_conv_app_nth
        list_update_append)
qed

lemma vector_pop_eq:
  assumes "vector_ok v" "elems v \<noteq> []"
  shows "vector_pop v = Inr (last (elems v), v\<lparr>vsize := vsize v - 1\<rparr>)"
    "vector_ok (v\<lparr>vsize := vsize v - 1\<rparr>)" "elems (v\<lparr>vsize := vsize v - 1\<rparr>) = butlast (elems v)"
proof -
  have pos: "0 < vsize v" using assms by (auto simp: elems_def vector_ok_def)
  then obtain n where n: "vsize v = int (Suc n)" by (metis zero_less_imp_eq_int gr0_implies_Suc)
  then have "n < length (buf v)" using assms(1) by (auto simp: vector_ok_def)
  then show "vector_pop v = Inr (last (elems v), v\<lparr>vsize := vsize v - 1\<rparr>)"
    "vector_ok (v\<lparr>vsize := vsize v - 1\<rparr>)" "elems (v\<lparr>vsize := vsize v - 1\<rparr>) = butlast (elems v)"
    using n assms(1) by (auto simp: vector_pop_def elems_def vector_ok_def take_Suc_conv_app_nth butlast_append
        nat_add_distrib)
qed

text \<open>Any contents that malloc() leaves in a buffer of \<open>n\<close> elements.\<close>

definition junk :: "(nat \<Rightarrow> nat \<Rightarrow> 'a) \<Rightarrow> nat \<Rightarrow> 'a list" where "junk f n = map (f n) [0..<n]"

interpretation vec: sequence "vector_append (junk f)" vector_pop vector_get elems vector_ok for f :: "nat \<Rightarrow> nat \<Rightarrow> 'a"
proof
  fix v :: "'a vector" and x assume v: "vector_ok v"
  show "\<exists>v'. vector_append (junk f) v x = Inr v' \<and> vector_ok v' \<and> elems v' = elems v @ [x]"
    using vector_append_eq[OF v, of "junk f" x] by (auto simp: junk_def)
  show "\<exists>v'. vector_pop v = Inr (last (elems v), v') \<and> vector_ok v' \<and> elems v' = butlast (elems v)"
    if "elems v \<noteq> []" using vector_pop_eq[OF v that] by blast
  show "vector_pop v = Inl Assertion" if "elems v = []"
    using v that length_elems[OF v] by (simp add: vector_pop_def vector_ok_def)
  show "vector_get v (int i) = Inr (elems v ! i)" if "i < length (elems v)" for i
    using v that by (simp add: vector_get_def elems_def vector_ok_def)
qed

section \<open>Properties\<close>



end
