(* ===== verification/Hash.thy ===== *)
theory Hash
  imports Vector
begin

text \<open>
  The hash tables of libs/libresea/hash.c: an array of bins, each a vector of
  elements. The key trait (hash and equality function) is an argument; freeing
  elements through the traits has no effect on the table. A table grows by
  \<open>hash_rehash\<close>, which \<open>hash_set\<close> calls and which calls \<open>hash_set\<close>; the fuel bounds
  this recursion and the loop that drains a bin.
\<close>

section \<open>Operations\<close>

definition HASH_INITIAL_NUM_BINS :: int where "HASH_INITIAL_NUM_BINS = 8"
definition HASH_REHASH_THRESHOLD :: int where "HASH_REHASH_THRESHOLD = 4"

record 'k trait =
  hash_func :: "'k \<Rightarrow> int"
  equals_func :: "'k \<Rightarrow> 'k \<Rightarrow> bool"

record ('k, 'v) hash =
  bins :: "('k \<times> 'v) vector list"
  num_bins :: int
  hsize :: int

text \<open>The remainder of C has the sign of the dividend: a negative hash gives a negative index.\<close>

definition c_rem :: "int \<Rightarrow> int \<Rightarrow> int" where
  "c_rem a b = sgn a * (\<bar>a\<bar> mod \<bar>b\<bar>)"

definition bin_index :: "'k trait \<Rightarrow> ('k, 'v) hash \<Rightarrow> 'k \<Rightarrow> int" where
  "bin_index T h k = c_rem (hash_func T k) (num_bins h)"

definition get_bin :: "('k, 'v) hash \<Rightarrow> int \<Rightarrow> ('k \<times> 'v) vector res" where
  "get_bin h i = rbind (require Fault (0 \<le> i)) (\<lambda>_. load (bins h) (nat i))"

definition put_bin :: "('k, 'v) hash \<Rightarrow> int \<Rightarrow> ('k \<times> 'v) vector \<Rightarrow> ('k, 'v) hash res" where
  "put_bin h i b =
     rbind (require Fault (0 \<le> i)) (\<lambda>_. rbind (store (bins h) (nat i) b) (\<lambda>bs. Inr (h\<lparr>bins := bs\<rparr>)))"

text \<open>The loop over a bin: the index of the first element with the key.\<close>

fun find_in_bin :: "'k trait \<Rightarrow> ('k \<times> 'v) vector \<Rightarrow> 'k \<Rightarrow> nat \<Rightarrow> int \<Rightarrow> (int \<times> 'k \<times> 'v) option res" where
  "find_in_bin T b k 0 i = Inr None"
| "find_in_bin T b k (Suc n) i =
     rbind (vector_get b i) (\<lambda>e. if equals_func T k (fst e) then Inr (Some (i, e)) else find_in_bin T b k n (i + 1))"

definition search_bin :: "'k trait \<Rightarrow> ('k \<times> 'v) vector \<Rightarrow> 'k \<Rightarrow> (int \<times> 'k \<times> 'v) option res" where
  "search_bin T b k = find_in_bin T b k (nat (vsize b)) 0"

definition hash_lookup :: "'k trait \<Rightarrow> ('k, 'v) hash \<Rightarrow> 'k \<Rightarrow> ('k \<times> 'v) option res" where
  "hash_lookup T h k =
     rbind (get_bin h (bin_index T h k)) (\<lambda>b. rmap (map_option snd) (search_bin T b k))"

text \<open>The quotient of two non-negative ints.\<close>

definition hash_needs_rehash :: "('k, 'v) hash \<Rightarrow> bool" where
  "hash_needs_rehash h \<longleftrightarrow> hsize h div num_bins h \<ge> HASH_REHASH_THRESHOLD"

definition hash_new :: "(nat \<Rightarrow> ('k \<times> 'v) list) \<Rightarrow> ('k, 'v) hash" where
  "hash_new fresh =
     \<lparr>bins = replicate (nat HASH_INITIAL_NUM_BINS) (vector_new fresh), num_bins = HASH_INITIAL_NUM_BINS, hsize = 0\<rparr>"

definition hash_contains :: "'k trait \<Rightarrow> ('k, 'v) hash \<Rightarrow> 'k \<Rightarrow> bool res" where
  "hash_contains T h k = rmap (\<lambda>e. e \<noteq> None) (hash_lookup T h k)"

definition hash_get :: "'k trait \<Rightarrow> ('k, 'v) hash \<Rightarrow> 'k \<Rightarrow> 'v res" where
  "hash_get T h k =
     rbind (hash_lookup T h k) (\<lambda>e. case e of None \<Rightarrow> Inl Assertion | Some (_, v) \<Rightarrow> Inr v)"

text \<open>
  The array of new bins is allocated for \<open>num_bins\<close> pointers and filled with
  \<open>new_num_bins\<close> of them.
\<close>

definition new_bins :: "(nat \<Rightarrow> ('k \<times> 'v) list) \<Rightarrow> int \<Rightarrow> int \<Rightarrow> ('k \<times> 'v) vector list res" where
  "new_bins fresh room n =
     rbind (require Fault (n \<le> room)) (\<lambda>_. Inr (replicate (nat n) (vector_new fresh)))"

text \<open>
  \<open>hash_set\<close>, the loop over the old bins of \<open>hash_rehash\<close> (\<open>hash_drain\<close>, from bin
  \<open>i\<close> on) and \<open>hash_rehash\<close>. The elements go back into the old bins, since the
  fields are replaced after the loop only.
\<close>

fun hash_set :: "nat \<Rightarrow> (nat \<Rightarrow> ('k \<times> 'v) list) \<Rightarrow> 'k trait \<Rightarrow> ('k, 'v) hash \<Rightarrow> 'k \<Rightarrow> 'v \<Rightarrow> ('k, 'v) hash res"
  and hash_drain :: "nat \<Rightarrow> (nat \<Rightarrow> ('k \<times> 'v) list) \<Rightarrow> 'k trait \<Rightarrow> int \<Rightarrow> int \<Rightarrow> ('k, 'v) hash \<Rightarrow> ('k, 'v) hash res"
  and hash_rehash :: "nat \<Rightarrow> (nat \<Rightarrow> ('k \<times> 'v) list) \<Rightarrow> 'k trait \<Rightarrow> ('k, 'v) hash \<Rightarrow> int \<Rightarrow> ('k, 'v) hash res"
where
  "hash_set 0 fresh T h k v = Inl NoFuel"
| "hash_set (Suc fuel) fresh T h k v =
     (let i = bin_index T h k in
      rbind (get_bin h i) (\<lambda>b.
      rbind (search_bin T b k) (\<lambda>found.
      case found of
        Some (j, _) \<Rightarrow> rbind (vector_set b j (k, v)) (put_bin h i)
      | None \<Rightarrow>
          rbind (vector_append fresh b (k, v)) (\<lambda>b.
          rbind (put_bin h i b) (\<lambda>h.
          let h = h\<lparr>hsize := hsize h + 1\<rparr> in
          if hash_needs_rehash h then hash_rehash fuel fresh T h (num_bins h * 2) else Inr h)))))"
| "hash_drain 0 fresh T old_num_bins i h = Inl NoFuel"
| "hash_drain (Suc fuel) fresh T old_num_bins i h =
     (if i < old_num_bins then
        rbind (get_bin h i) (\<lambda>b.
        if vector_is_empty b then hash_drain fuel fresh T old_num_bins (i + 1) h
        else
          rbind (vector_pop b) (\<lambda>((k, v), b).
          rbind (put_bin h i b) (\<lambda>h.
          rbind (hash_set fuel fresh T h k v) (hash_drain fuel fresh T old_num_bins i))))
      else Inr h)"
| "hash_rehash 0 fresh T h n = Inl NoFuel"
| "hash_rehash (Suc fuel) fresh T h n =
     rbind (new_bins fresh (num_bins h) n) (\<lambda>nb.
     rbind (hash_drain fuel fresh T (num_bins h) 0 h) (\<lambda>h. Inr (h\<lparr>bins := nb, num_bins := n\<rparr>)))"

text \<open>
  Deleting a table. The functions that free a key and a value come from the two traits
  (none of them has to be given) and act on a state of the caller.
\<close>

definition hash_element_delete ::
  "('k \<Rightarrow> 's \<Rightarrow> 's res) option \<Rightarrow> ('v \<Rightarrow> 's \<Rightarrow> 's res) option \<Rightarrow> 'k \<times> 'v \<Rightarrow> 's \<Rightarrow> 's res"
where
  "hash_element_delete key_delete_func value_delete_func e s =
     rbind (case key_delete_func of None \<Rightarrow> Inr s | Some f \<Rightarrow> f (fst e) s) (\<lambda>s.
     case value_delete_func of None \<Rightarrow> Inr s | Some f \<Rightarrow> f (snd e) s)"

fun delete_bins :: "('k \<times> 'v \<Rightarrow> 's \<Rightarrow> 's res) \<Rightarrow> ('k \<times> 'v) vector list \<Rightarrow> 's \<Rightarrow> 's res" where
  "delete_bins f [] s = Inr s"
| "delete_bins f (b # bs) s = rbind (vector_delete (Some f) b s) (delete_bins f bs)"

definition hash_delete ::
  "('k \<Rightarrow> 's \<Rightarrow> 's res) option \<Rightarrow> ('v \<Rightarrow> 's \<Rightarrow> 's res) option \<Rightarrow> ('k, 'v) hash \<Rightarrow> 's \<Rightarrow> 's res"
where
  "hash_delete key_delete_func value_delete_func h s =
     rbind (require Fault (nat (num_bins h) \<le> length (bins h))) (\<lambda>_.
     delete_bins (hash_element_delete key_delete_func value_delete_func) (take (nat (num_bins h)) (bins h)) s)"

section \<open>Tables as maps\<close>

text \<open>
  The bins are well-formed vectors, every element lies in the bin of its key, keys
  are distinct, and the size field counts the elements.
\<close>

definition entries_of :: "('k, 'v) hash \<Rightarrow> ('k \<times> 'v) list" where
  "entries_of h = concat (map elems (bins h))"

definition hash_ok :: "'k trait \<Rightarrow> ('k, 'v) hash \<Rightarrow> bool" where
  "hash_ok T h \<longleftrightarrow> 0 < num_bins h \<and> length (bins h) = nat (num_bins h)
     \<and> (\<forall>b \<in> set (bins h). vector_ok b \<and> distinct (map fst (elems b)))
     \<and> (\<forall>i < length (bins h). \<forall>e \<in> set (elems (bins h ! i)). bin_index T h (fst e) = int i)
     \<and> hsize h = int (length (entries_of h))"

definition trait_ok :: "'k trait \<Rightarrow> bool" where
  "trait_ok T \<longleftrightarrow> (\<forall>a b. equals_func T a b \<longleftrightarrow> a = b) \<and> (\<forall>k. 0 \<le> hash_func T k)"

definition hash_map :: "'k trait \<Rightarrow> ('k, 'v) hash \<Rightarrow> 'k \<Rightarrow> 'v option" where
  "hash_map T h k = map_of (elems (bins h ! nat (bin_index T h k))) k"

lemma c_rem_nonneg: "0 \<le> a \<Longrightarrow> 0 < b \<Longrightarrow> c_rem a b = a mod b"
  by (cases "a = 0") (simp_all add: c_rem_def)

lemma bin_index_bounds:
  "trait_ok T \<Longrightarrow> 0 < num_bins h \<Longrightarrow> 0 \<le> bin_index T h k \<and> bin_index T h k < num_bins h"
  by (simp add: bin_index_def c_rem_nonneg trait_ok_def)

lemma find_in_bin_eq:
  assumes "trait_ok T" "vector_ok b"
  shows "n + i = length (elems b) \<Longrightarrow>
    find_in_bin T b k n (int i) =
      Inr (map_option (\<lambda>j. (int j, elems b ! j)) (find (\<lambda>j. fst (elems b ! j) = k) [i..<length (elems b)]))"
proof (induction n arbitrary: i)
  case (Suc n)
  have up: "[i..<length (elems b)] = i # [Suc i..<length (elems b)]" using Suc.prems by (simp add: upt_conv_Cons)
  have "find_in_bin T b k n (int i + 1) =
      Inr (map_option (\<lambda>j. (int j, elems b ! j)) (find (\<lambda>j. fst (elems b ! j) = k) [Suc i..<length (elems b)]))"
    using Suc.IH[of "Suc i"] Suc.prems by (simp add: add.commute)
  then show ?case using Suc.prems vec.get_law[OF assms(2), of i] assms(1)
    by (auto simp: up trait_ok_def)
qed simp

lemma find_nth_map_of:
  "map_option (\<lambda>j. snd (xs ! j)) (find (\<lambda>j. fst (xs ! j) = k) [0..<length xs]) = map_of xs k"
proof (induction xs)
  case (Cons x xs)
  have up: "[0..<length (x # xs)] = 0 # map Suc [0..<length xs]"
    by (simp add: upt_conv_Cons map_Suc_upt del: upt_Suc)
  have "find P (map Suc ys) = map_option Suc (find (P \<circ> Suc) ys)" for P ys by (induction ys) auto
  then show ?case using Cons unfolding up by (cases x) (auto simp: option.map_comp comp_def)
qed simp

lemma find_nth_Some:
  "find (\<lambda>j. fst (xs ! j) = k) [0..<length xs] = Some j \<Longrightarrow> j < length xs \<and> fst (xs ! j) = k"
  by (auto simp: find_Some_iff)

lemma search_bin_eq:
  assumes "trait_ok T" "vector_ok b"
  shows "search_bin T b k =
    Inr (map_option (\<lambda>j. (int j, elems b ! j)) (find (\<lambda>j. fst (elems b ! j) = k) [0..<length (elems b)]))"
  using find_in_bin_eq[OF assms, of "nat (vsize b)" 0 k] length_elems[OF assms(2)] by (simp add: search_bin_def)

lemma get_bin_eq:
  assumes "trait_ok T" "hash_ok T h"
  shows "get_bin h (bin_index T h k) = Inr (bins h ! nat (bin_index T h k))"
    "nat (bin_index T h k) < length (bins h)" "vector_ok (bins h ! nat (bin_index T h k))"
    "0 \<le> bin_index T h k"
proof -
  have pos: "0 < num_bins h" "length (bins h) = nat (num_bins h)" using assms(2) by (auto simp: hash_ok_def)
  note b = bin_index_bounds[OF assms(1) pos(1), of k]
  show lt: "nat (bin_index T h k) < length (bins h)" using b pos by (simp add: nat_less_iff zless_nat_conj)
  show "get_bin h (bin_index T h k) = Inr (bins h ! nat (bin_index T h k))" using b lt by (simp add: get_bin_def)
  show "vector_ok (bins h ! nat (bin_index T h k))" using assms(2) lt by (auto simp: hash_ok_def)
  show "0 \<le> bin_index T h k" using b by simp
qed

text \<open>Looking up a key is looking up the map.\<close>

lemma hash_lookup_map:
  assumes "trait_ok T" "hash_ok T h"
  shows "rmap (map_option snd) (hash_lookup T h k) = Inr (hash_map T h k)"
  using get_bin_eq[OF assms, of k]
  by (simp add: hash_lookup_def search_bin_eq[OF assms(1)] hash_map_def find_nth_map_of[symmetric] option.map_comp comp_def)

lemma hash_get_map:
  assumes "trait_ok T" "hash_ok T h"
  shows "hash_get T h k = (case hash_map T h k of None \<Rightarrow> Inl Assertion | Some v \<Rightarrow> Inr v)"
proof -
  obtain e where e: "hash_lookup T h k = Inr e" "map_option snd e = hash_map T h k"
    using hash_lookup_map[OF assms, of k] by (cases "hash_lookup T h k") auto
  from e(2)[symmetric] e(1) show ?thesis by (cases e) (auto simp: hash_get_def)
qed

section \<open>Inserting\<close>

text \<open>Replacing the bin of a key.\<close>

lemma hash_new_ok:
  assumes "length (fresh 1) = 1"
  shows "hash_ok T (hash_new fresh :: ('k, 'v) hash) \<and> hash_map T (hash_new fresh :: ('k, 'v) hash) = Map.empty"
proof -
  let ?h = "hash_new fresh :: ('k, 'v) hash"
  note v = vector_new_ok[of fresh, OF assms]
  have b: "b \<in> set (bins ?h) \<Longrightarrow> vector_ok b \<and> elems b = []" for b using v by (auto simp: hash_new_def)
  have e: "entries_of ?h = []" using v by (simp add: entries_of_def hash_new_def)
  have ln: "length (bins ?h) = 8" "num_bins ?h = 8" "hsize ?h = 0" by (simp_all add: hash_new_def HASH_INITIAL_NUM_BINS_def)
  have nth: "elems (bins ?h ! i) = []" if "i < 8" for i using b[OF nth_mem, of i] that ln(1) by simp
  have "hash_ok T ?h" unfolding hash_ok_def using b e ln nth by simp
  moreover have "hash_map T ?h k = None" for k
  proof -
    have "nat (bin_index T ?h k) < 8"
      using abs_mod_less[of 8 "\<bar>hash_func T k\<bar>"] ln(2)
      by (auto simp: bin_index_def c_rem_def sgn_if)
    then show ?thesis using b[of "bins ?h ! nat (bin_index T ?h k)"] ln(1) by (simp add: hash_map_def)
  qed
  ultimately show ?thesis by auto
qed

lemma replace_bin:
  fixes h :: "('k, 'v) hash"
  assumes T: "trait_ok T" and h: "hash_ok T h" and b: "vector_ok b" "distinct (map fst (elems b))"
    and keys: "\<And>e. e \<in> set (elems b) \<Longrightarrow> bin_index T h (fst e) = bin_index T h k"
  defines "i \<equiv> nat (bin_index T h k)"
  defines "h' \<equiv> h\<lparr>bins := (bins h)[i := b], hsize := hsize h + int (length (elems b)) - int (length (elems (bins h ! i)))\<rparr>"
  shows "hash_ok T h'" "hash_map T h' = (\<lambda>k'. if nat (bin_index T h k') = i then map_of (elems b) k' else hash_map T h k')"
proof -
  note g = get_bin_eq[OF T h, of k, folded i_def]
  have idx: "bin_index T h' = bin_index T h" by (auto simp: bin_index_def h'_def)
  have "length (entries_of h') + length (elems (bins h ! i)) = length (entries_of h) + length (elems b)"
  proof -
    have "sum_list (map (length \<circ> elems) ((bins h)[i := b])) =
        sum_list (map (length \<circ> elems) (bins h)) + length (elems b) - length (elems (bins h ! i))"
      using g(2) by (simp add: map_update sum_list_update)
    moreover have "length (elems (bins h ! i)) \<le> sum_list (map (length \<circ> elems) (bins h))"
      using g(2) member_le_sum_list[of "length (elems (bins h ! i))" "map (length \<circ> elems) (bins h)"]
      nth_mem[OF g(2)] by auto
    ultimately show ?thesis by (simp add: entries_of_def h'_def length_concat comp_def)
  qed
  then have sz: "hsize h' = int (length (entries_of h'))" using h by (simp add: h'_def hash_ok_def)
  have "\<forall>x \<in> set ((bins h)[i := b]). vector_ok x \<and> distinct (map fst (elems x))"
    using h b set_update_subset_insert[of "bins h" i b] unfolding hash_ok_def by blast
  moreover have "bin_index T h (fst e) = int j"
    if "j < length (bins h)" "e \<in> set (elems ((bins h)[i := b] ! j))" for j e
    using that h keys g(4) unfolding hash_ok_def i_def by (cases "j = i") (auto simp: nth_list_update i_def)
  ultimately show "hash_ok T h'"
    using h sz unfolding hash_ok_def idx by (simp add: h'_def)
  show "hash_map T h' = (\<lambda>k'. if nat (bin_index T h k') = i then map_of (elems b) k' else hash_map T h k')"
    using g(2) by (auto simp: fun_eq_iff hash_map_def idx) (auto simp: h'_def)
qed

lemma div_less_mult: "0 < (n :: int) \<Longrightarrow> a < m * n \<Longrightarrow> a div n < m"
  using pos_mod_sign[of n a] mult_div_mod_eq[of n a] by (smt (verit) mult.commute mult_right_less_imp_less)

lemma hash_map_upd:
  assumes "nat (bin_index T h k) = i" "map_of xs = (map_of (elems (bins h ! i)))(k \<mapsto> v)"
  shows "(\<lambda>k'. if nat (bin_index T h k') = i then map_of xs k' else hash_map T h k') = (hash_map T h)(k \<mapsto> v)"
  using assms by (auto simp: fun_eq_iff hash_map_def)

text \<open>Replacing the value at the position of a key in a list with distinct keys.\<close>

lemma map_of_update_at:
  "distinct (map fst xs) \<Longrightarrow> j < length xs \<Longrightarrow> fst (xs ! j) = k \<Longrightarrow> map_of (xs[j := (k, v)]) = (map_of xs)(k \<mapsto> v)"
proof (induction xs arbitrary: j)
  case (Cons x xs)
  show ?case
  proof (cases j)
    case 0
    then show ?thesis using Cons.prems by (cases x) auto
  next
    case (Suc n)
    then have "fst x \<noteq> k" using Cons.prems by (metis distinct.simps(2) in_set_conv_nth length_map list.simps(9) length_Cons nth_Cons_Suc nth_map Suc_less_eq)
    then show ?thesis using Suc Cons by (cases x) auto
  qed
qed simp

text \<open>
  Setting a key updates the map, as long as the table does not have to grow.
\<close>

lemma hash_set_map:
  assumes T: "trait_ok T" and h: "hash_ok T h" and fresh: "\<And>n. length (fresh n) = n"
    and room: "hash_map T h k = None \<Longrightarrow> hsize h + 1 < 4 * num_bins h"
  shows "\<exists>h'. hash_set (Suc fuel) fresh T h k v = Inr h' \<and> hash_ok T h' \<and> hash_map T h' = (hash_map T h)(k \<mapsto> v)
    \<and> num_bins h' = num_bins h \<and> hsize h' = (if hash_map T h k = None then hsize h + 1 else hsize h)"
proof -
  define i where "i = nat (bin_index T h k)"
  define b where "b = bins h ! i"
  note g = get_bin_eq[OF T h, of k, folded i_def, folded b_def]
  have pos: "0 < num_bins h" using h by (simp add: hash_ok_def)
  have dist: "distinct (map fst (elems b))" and own: "\<And>e. e \<in> set (elems b) \<Longrightarrow> bin_index T h (fst e) = int i"
    using h g(2) by (auto simp: hash_ok_def b_def)
  have bi: "bin_index T h k = int i" using g(4) by (simp add: i_def)
  have hm: "hash_map T h k = map_of (elems b) k" by (simp add: hash_map_def b_def i_def)
  show ?thesis
  proof (cases "find (\<lambda>j. fst (elems b ! j) = k) [0..<length (elems b)]")
    case None
    then have none: "map_of (elems b) k = None" using find_nth_map_of[of "elems b" k] by simp
    obtain b' where b': "vector_append fresh b (k, v) = Inr b'" "vector_ok b'" "elems b' = elems b @ [(k, v)]"
      using vector_append_eq[OF g(3) fresh] by blast
    have new: "k \<notin> fst ` set (elems b)" using none by (simp add: map_of_eq_None_iff)
    have d: "distinct (map fst (elems b'))" using dist new b'(3) by simp
    have o: "bin_index T h (fst e) = bin_index T h k" if "e \<in> set (elems b')" for e
      using that own[of e] bi b'(3) by auto
    note r = replace_bin[OF T h b'(2) d o, folded i_def, folded b_def]
    have up: "map_of (elems b') = (map_of (elems b))(k \<mapsto> v)"
      using new b'(3) by (auto simp: map_add_def fun_eq_iff map_of_eq_None_iff[symmetric] split: option.splits)
    have "\<not> hash_needs_rehash (h\<lparr>bins := (bins h)[i := b'], hsize := hsize h + 1\<rparr>)"
      using room none hm pos div_less_mult[OF pos, of "hsize h + 1" 4]
      by (simp add: hash_needs_rehash_def HASH_REHASH_THRESHOLD_def not_le)
    then have "hash_set (Suc fuel) fresh T h k v = Inr (h\<lparr>bins := (bins h)[i := b'], hsize := hsize h + 1\<rparr>)"
      using g b'(1) None by (simp add: Let_def bi search_bin_eq[OF T g(3)] put_bin_def)
    then show ?thesis using r b'(3) none hm hash_map_upd[of T h k i, OF i_def[symmetric] up[unfolded b_def]]
      by (auto simp: Let_def)
  next
    case (Some j)
    note j = find_nth_Some[OF Some]
    have some: "map_of (elems b) k \<noteq> None" using find_nth_map_of[of "elems b" k] Some by (metis option.simps(3,9))
    define b' where "b' = b\<lparr>buf := (buf b)[j := (k, v)]\<rparr>"
    have jn: "j < nat (vsize b)" "j < length (buf b)" using j length_elems[OF g(3)] by (auto simp: elems_def)
    have set: "vector_set b (int j) (k, v) = Inr b'"
      using jn by (simp add: vector_set_def b'_def zless_nat_eq_int_zless)
    have ok: "vector_ok b'" using g(3) by (simp add: vector_ok_def b'_def)
    have el: "elems b' = (elems b)[j := (k, v)]" using jn by (simp add: elems_def b'_def take_update_swap)
    have d: "distinct (map fst (elems b'))"
      using dist j el list_update_id[of "map fst (elems b)" j] by (simp add: map_update)
    have o: "bin_index T h (fst e) = bin_index T h k" if "e \<in> set (elems b')" for e
      using that own[of e] bi el set_update_subset_insert[of "elems b" j "(k, v)"] by auto
    note r = replace_bin[OF T h ok d o, folded i_def, folded b_def]
    note up = map_of_update_at[OF dist conjunct1[OF j] conjunct2[OF j], of v, folded el]
    have "hash_set (Suc fuel) fresh T h k v = Inr (h\<lparr>bins := (bins h)[i := b']\<rparr>)"
      using g set Some by (simp add: Let_def bi search_bin_eq[OF T g(3)] put_bin_def)
    moreover have "h\<lparr>bins := (bins h)[i := b'], hsize := hsize h + int (length (elems b')) - int (length (elems b))\<rparr> =
        h\<lparr>bins := (bins h)[i := b']\<rparr>"
      by (simp add: el)
    ultimately show ?thesis using r some hm hash_map_upd[of T h k i, OF i_def[symmetric] up[unfolded b_def]]
      by auto
  qed
qed

text \<open>The insertion that makes the table grow writes behind the array of new bins.\<close>

lemma hash_set_grow_faults:
  assumes T: "trait_ok T" and h: "hash_ok T h" and fresh: "\<And>n. length (fresh n) = n"
    and full: "hash_map T h k = None" "4 * num_bins h \<le> hsize h + 1"
  shows "hash_set (Suc (Suc fuel)) fresh T h k v = Inl Fault"
proof -
  note g = get_bin_eq[OF T h, of k]
  have pos: "0 < num_bins h" using h by (simp add: hash_ok_def)
  let ?b = "bins h ! nat (bin_index T h k)"
  have none: "find (\<lambda>j. fst (elems ?b ! j) = k) [0..<length (elems ?b)] = None"
    using full(1) find_nth_map_of[of "elems ?b" k] by (simp add: hash_map_def)
  obtain b' where b': "vector_append fresh ?b (k, v) = Inr b'" using vector_append_eq[OF g(3) fresh] by blast
  have "hash_needs_rehash (h\<lparr>bins := (bins h)[nat (bin_index T h k) := b'], hsize := hsize h + 1\<rparr>)"
    using zdiv_mono1[OF full(2) pos] pos by (simp add: hash_needs_rehash_def HASH_REHASH_THRESHOLD_def)
  then show ?thesis using g b' none pos
    by (simp add: Let_def search_bin_eq[OF T g(3)] put_bin_def new_bins_def)
qed

section \<open>Properties\<close>

fun hash_set_all :: "nat \<Rightarrow> (nat \<Rightarrow> ('k \<times> 'v) list) \<Rightarrow> 'k trait \<Rightarrow> ('k, 'v) hash \<Rightarrow> ('k \<times> 'v) list \<Rightarrow> ('k, 'v) hash res" where
  "hash_set_all fuel fresh T h [] = Inr h"
| "hash_set_all fuel fresh T h ((k, v) # kvs) =
     rbind (hash_set fuel fresh T h k v) (\<lambda>h. hash_set_all fuel fresh T h kvs)"

lemma card_dom_upd:
  "finite (dom m) \<Longrightarrow> card (dom (m(k \<mapsto> v))) = (if m k = None then Suc (card (dom m)) else card (dom m))"
  by (auto simp: card_insert_if insert_absorb domIff dom_def[symmetric])

lemma hash_set_all_map:
  assumes T: "trait_ok T" and fresh: "\<And>n. length (fresh n) = n"
  shows "hash_ok T h \<Longrightarrow> finite (dom (hash_map T h)) \<Longrightarrow> hsize h = int (card (dom (hash_map T h))) \<Longrightarrow>
    int (card (dom (hash_map T h ++ map_of (rev kvs)))) < 4 * num_bins h \<Longrightarrow>
    \<exists>h'. hash_set_all (Suc fuel) fresh T h kvs = Inr h' \<and> hash_ok T h' \<and> hash_map T h' = hash_map T h ++ map_of (rev kvs)
      \<and> num_bins h' = num_bins h \<and> hsize h' = int (card (dom (hash_map T h')))"
proof (induction kvs arbitrary: h)
  case (Cons kv kvs)
  obtain k v where kv: "kv = (k, v)" by force
  let ?m = "hash_map T h"
  have split: "?m ++ map_of (rev (kv # kvs)) = (?m(k \<mapsto> v)) ++ map_of (rev kvs)"
    by (auto simp: kv map_add_def fun_eq_iff split: option.splits)
  have fin: "finite (dom (?m(k \<mapsto> v)))" using Cons.prems(2) by simp
  have le: "card (dom (?m(k \<mapsto> v))) \<le> card (dom (?m ++ map_of (rev (kv # kvs))))"
    unfolding split by (rule card_mono) (use fin in \<open>auto simp: finite_dom_map_of\<close>)
  have room: "hsize h + 1 < 4 * num_bins h" if "?m k = None"
    using le Cons.prems(3,4) that card_dom_upd[OF Cons.prems(2), of k v] by simp
  obtain h1 where h1: "hash_set (Suc fuel) fresh T h k v = Inr h1" "hash_ok T h1" "hash_map T h1 = ?m(k \<mapsto> v)"
    "num_bins h1 = num_bins h" "hsize h1 = (if ?m k = None then hsize h + 1 else hsize h)"
    using hash_set_map[OF T Cons.prems(1) fresh room, of k fuel v] by blast
  have sz: "hsize h1 = int (card (dom (hash_map T h1)))"
    using h1(3,5) Cons.prems(3) card_dom_upd[OF Cons.prems(2), of k v] by simp
  have lt: "int (card (dom (hash_map T h1 ++ map_of (rev kvs)))) < 4 * num_bins h1"
    using Cons.prems(4) unfolding split h1(3,4) .
  obtain h2 where "hash_set_all (Suc fuel) fresh T h1 kvs = Inr h2" "hash_ok T h2"
    "hash_map T h2 = hash_map T h1 ++ map_of (rev kvs)" "num_bins h2 = num_bins h1"
    "hsize h2 = int (card (dom (hash_map T h2)))"
    using Cons.IH[OF h1(2) _ sz lt] fin unfolding h1(3) by blast
  then show ?case unfolding split using h1 by (simp add: kv del: hash_set.simps)
qed simp

text \<open>
  C8: the hash table implements a finite map. Setting any sequence of keys with at most
  31 different ones in a new table succeeds, and hash_get then answers with the value that
  was set last for a key and fails its assertion for a key that was never set;
  hash_contains tells which is the case. The key functions have to be an equality and a
  non-negative hash.
\<close>

theorem hash_is_map:
  assumes "trait_ok T" "\<And>n. length (fresh n) = n" "card (fst ` set kvs) \<le> 31"
  shows "\<exists>h. hash_set_all (Suc fuel) fresh T (hash_new fresh) kvs = Inr h
    \<and> (\<forall>k. hash_get T h k = (case map_of (rev kvs) k of None \<Rightarrow> Inl Assertion | Some v \<Rightarrow> Inr v))
    \<and> (\<forall>k. hash_contains T h k = Inr (k \<in> fst ` set kvs))"
proof -
  have new: "hash_ok T (hash_new fresh)" "hash_map T (hash_new fresh) = Map.empty" "num_bins (hash_new fresh) = 8"
    "hsize (hash_new fresh) = 0"
    using hash_new_ok[of fresh T] assms(2) by (auto simp: hash_new_def HASH_INITIAL_NUM_BINS_def)
  have dom: "dom (map_of (rev kvs)) = fst ` set kvs" by (simp add: dom_map_of_conv_image_fst)
  obtain h where h: "hash_set_all (Suc fuel) fresh T (hash_new fresh) kvs = Inr h" "hash_ok T h"
    "hash_map T h = map_of (rev kvs)"
    using hash_set_all_map[OF assms(1,2) new(1), of kvs fuel] new assms(3) dom by auto
  have c: "hash_contains T h k = Inr (k \<in> fst ` set kvs)" for k
  proof -
    obtain e where e: "hash_lookup T h k = Inr e" "map_option snd e = hash_map T h k"
      using hash_lookup_map[OF assms(1) h(2), of k] by (cases "hash_lookup T h k") auto
    have "e \<noteq> None \<longleftrightarrow> k \<in> dom (map_of (rev kvs))" using e(2)[symmetric] h(3) by (cases e) (auto simp: domIff)
    then show ?thesis using e(1) dom by (simp add: hash_contains_def)
  qed
  show ?thesis using h c hash_get_map[OF assms(1) h(2)] by auto
qed

definition sample_trait :: "nat trait" where
  "sample_trait = \<lparr>hash_func = int, equals_func = (=)\<rparr>"

lemma sample_trait_ok: "trait_ok sample_trait"
  by (simp add: trait_ok_def sample_trait_def)

theorem hash_is_map_witness:
  "\<exists>h. hash_set_all 1 (\<lambda>n. replicate n (0, True)) sample_trait (hash_new (\<lambda>n. replicate n (0, True)))
      [(3, True), (11, False), (3, False)] = Inr h
    \<and> hash_get sample_trait h 3 = Inr False \<and> hash_get sample_trait h 19 = Inl Assertion"
proof -
  have "card (fst ` set [(3 :: nat, True), (11, False), (3, False)]) \<le> 31" by (simp add: card_insert_if)
  from hash_is_map[OF sample_trait_ok _ this, of "\<lambda>n. replicate n (0, True)" 0] obtain h where
    "hash_set_all 1 (\<lambda>n. replicate n (0, True)) sample_trait (hash_new (\<lambda>n. replicate n (0, True)))
      [(3, True), (11, False), (3, False)] = Inr h"
    "\<forall>k. hash_get sample_trait h k = (case map_of (rev [(3, True), (11, False), (3, False)]) k of
        None \<Rightarrow> Inl Assertion | Some v \<Rightarrow> Inr v)" by auto
  then show ?thesis by (intro exI[where x = h]) simp
qed

text \<open>
  C26: the table cannot grow. Setting a new key in a table that is full (four elements
  for each bin, so the 32nd key of a new table) writes behind the array of new bins:
  hash_rehash allocates it for the old number of bins and fills it with twice as many.
\<close>

theorem hash_growth_overflows:
  assumes "trait_ok T" "\<And>n. length (fresh n) = n" "distinct (map fst kvs)" "length kvs = 31" "k \<notin> fst ` set kvs"
  shows "\<exists>h. hash_set_all (Suc (Suc fuel)) fresh T (hash_new fresh) kvs = Inr h
    \<and> hash_set (Suc (Suc fuel)) fresh T h k v = Inl Fault"
proof -
  have new: "hash_ok T (hash_new fresh)" "hash_map T (hash_new fresh) = Map.empty" "num_bins (hash_new fresh) = 8"
    "hsize (hash_new fresh) = 0"
    using hash_new_ok[of fresh T] assms(2) by (auto simp: hash_new_def HASH_INITIAL_NUM_BINS_def)
  have dom: "dom (map_of (rev kvs)) = fst ` set kvs" by (simp add: dom_map_of_conv_image_fst)
  have card: "card (fst ` set kvs) = 31" using distinct_card[OF assms(3)] assms(4) by simp
  obtain h where h: "hash_set_all (Suc (Suc fuel)) fresh T (hash_new fresh) kvs = Inr h" "hash_ok T h"
    "hash_map T h = map_of (rev kvs)" "num_bins h = 8" "hsize h = 31"
    using hash_set_all_map[OF assms(1,2) new(1), of kvs "Suc fuel"] new card dom by auto
  have "hash_map T h k = None" using assms(5) h(3) dom by (auto simp: domIff)
  from hash_set_grow_faults[OF assms(1) h(2) assms(2) this] h show ?thesis by auto
qed

theorem hash_growth_overflows_witness:
  "\<exists>h. hash_set_all 2 (\<lambda>n. replicate n (0, 0)) sample_trait (hash_new (\<lambda>n. replicate n (0, 0)))
      (map (\<lambda>i. (i, i)) [0..<31]) = Inr h
    \<and> hash_set 2 (\<lambda>n. replicate n (0, 0)) sample_trait h 31 0 = Inl Fault"
proof -
  have "distinct (map fst (map (\<lambda>i. (i, i)) [0..<31]))" "length (map (\<lambda>i. (i, i)) [0..<31]) = 31"
    "31 \<notin> fst ` set (map (\<lambda>i. (i, i)) [0..<31])"
    by (auto simp: comp_def)
  from hash_growth_overflows[OF sample_trait_ok _ this, of "\<lambda>n. replicate n (0, 0)" 0 0]
  show ?thesis by (simp add: numeral_2_eq_2 del: hash_set.simps hash_set_all.simps)
qed

end
