(* ===== verification/Malloc.thy ===== *)
theory Malloc
  imports CString
begin

text \<open>
  The user heap of libs/libresea/malloc.c: a list of chunks, each a 16-byte header
  followed by its data, searched first-fit. Addresses and sizes are natural numbers:
  the heap area lies below 0xa0000000 and no chunk is larger than a megabyte, so
  that neither pointers nor the 32-bit size field wrap around. The pages come from
  the memory manager through the generated stub \<open>call_memory_alloc_pages\<close>, a
  parameter that gets the order and the page base and returns the error code and the
  address of the pages.
\<close>

section \<open>Operations\<close>

type_synonym page_service = "nat \<Rightarrow> u64 \<Rightarrow> error_t \<times> nat"

definition MALLOC_PAGE_ORDER :: nat where "MALLOC_PAGE_ORDER = 8"
definition HEAP_AREA_START :: nat where "HEAP_AREA_START = 0x70000000"
definition HEAP_AREA_END :: nat where "HEAP_AREA_END = 0xa0000000"
definition VALLOC_AREA_START :: nat where "VALLOC_AREA_START = 0xa0000000"
definition VALLOC_AREA_END :: nat where "VALLOC_AREA_END = 0xc0000000"

text \<open>sizeof(struct chunk), and the 4-bit field that counts the bytes behind a chunk.\<close>

definition sizeof_chunk :: nat where "sizeof_chunk = 16"

record chunk =
  chunk_addr :: nat
  chunk_size :: nat
  in_use :: bool
  trailing :: nat

record heap =
  free_area :: "chunk list"
  heap_area_bottom :: nat
  valloc_area_bottom :: nat

definition heap_init :: heap where
  "heap_init = \<lparr>free_area = [], heap_area_bottom = HEAP_AREA_START, valloc_area_bottom = 0xa0000000\<rparr>"

definition PAGE_BASE :: "nat \<Rightarrow> nat \<Rightarrow> u64" where
  "PAGE_BASE a order = of_nat a OR of_nat order"

definition grow_heap_area :: "heap \<Rightarrow> nat \<Rightarrow> (nat \<times> heap) res" where
  "grow_heap_area h order =
     (let a = heap_area_bottom h; h = h\<lparr>heap_area_bottom := a + 2 ^ order * PAGE_SIZE\<rparr> in
      rbind (require Assertion (heap_area_bottom h < HEAP_AREA_END)) (\<lambda>_. Inr (a, h)))"

definition valloc :: "heap \<Rightarrow> nat \<Rightarrow> (u64 \<times> heap) res" where
  "valloc h num_pages =
     (let order = unat (ulllog2 (of_nat num_pages)); a = valloc_area_bottom h;
          h = h\<lparr>valloc_area_bottom := a + num_pages * PAGE_SIZE\<rparr> in
      rbind (require Assertion (valloc_area_bottom h < VALLOC_AREA_END)) (\<lambda>_. Inr (PAGE_BASE a order, h)))"

text \<open>The order goes into the page base; the request itself is for order 0.\<close>

definition sys_alloc_pages :: "page_service \<Rightarrow> heap \<Rightarrow> nat \<Rightarrow> (nat \<times> heap) res" where
  "sys_alloc_pages svc h order =
     rbind (grow_heap_area h order) (\<lambda>(a, h).
     case svc 0 (PAGE_BASE a order) of (err, page) \<Rightarrow>
       rbind (require Assertion (err = OK)) (\<lambda>_. Inr (page, h)))"

definition append_new_chunk :: "chunk list \<Rightarrow> nat \<Rightarrow> nat \<Rightarrow> chunk list" where
  "append_new_chunk cs a sz =
     cs @ [\<lparr>chunk_addr = a, chunk_size = sz - sizeof_chunk, in_use = False, trailing = 0\<rparr>]"

definition expand_arena :: "page_service \<Rightarrow> heap \<Rightarrow> heap res" where
  "expand_arena svc h =
     rbind (sys_alloc_pages svc h MALLOC_PAGE_ORDER) (\<lambda>(p, h).
     rbind (require Assertion (p \<noteq> 0)) (\<lambda>_.
     Inr (h\<lparr>free_area := append_new_chunk (free_area h) p (PAGE_SIZE * 2 ^ MALLOC_PAGE_ORDER)\<rparr>)))"

text \<open>The chunks that replace a chunk.\<close>

definition split_chunk :: "chunk \<Rightarrow> nat \<Rightarrow> chunk list" where
  "split_chunk c sz =
     (let remaining_size = chunk_size c - sz; c = c\<lparr>chunk_size := sz\<rparr> in
      if remaining_size \<le> sizeof_chunk then [c\<lparr>trailing := remaining_size mod 16\<rparr>]
      else [c\<lparr>trailing := 0\<rparr>,
            \<lparr>chunk_addr = chunk_addr c + sizeof_chunk + sz, chunk_size = remaining_size - sizeof_chunk,
             in_use = False, trailing = 0\<rparr>])"

fun chunk_loop :: "chunk list \<Rightarrow> nat \<Rightarrow> (nat \<times> chunk list) option" where
  "chunk_loop [] sz = None"
| "chunk_loop (c # cs) sz =
     (if \<not> in_use c \<and> sz \<le> chunk_size c then Some (chunk_addr c, split_chunk (c\<lparr>in_use := True\<rparr>) sz @ cs)
      else map_option (\<lambda>(a, cs). (a, c # cs)) (chunk_loop cs sz))"

text \<open>One retry after the arena has been expanded; 0 stands for NULL.\<close>

definition alloc_from_arena :: "page_service \<Rightarrow> heap \<Rightarrow> nat \<Rightarrow> (nat \<times> heap) res" where
  "alloc_from_arena svc h sz =
     (case chunk_loop (free_area h) sz of
        Some (a, cs) \<Rightarrow> Inr (a, h\<lparr>free_area := cs\<rparr>)
      | None \<Rightarrow>
          rbind (expand_arena svc h) (\<lambda>h.
          case chunk_loop (free_area h) sz of
            Some (a, cs) \<Rightarrow> Inr (a, h\<lparr>free_area := cs\<rparr>)
          | None \<Rightarrow> Inr (0, h)))"

definition malloc :: "page_service \<Rightarrow> heap \<Rightarrow> nat \<Rightarrow> (nat \<times> heap) res" where
  "malloc svc h sz =
     (let sz = (if sz = 0 then 1 else sz) in
      rbind (alloc_from_arena svc h sz) (\<lambda>(c, h).
      rbind (require Assertion (c \<noteq> 0)) (\<lambda>_. Inr (c + sizeof_chunk, h))))"

definition get_chunk_from_pointer :: "nat \<Rightarrow> nat" where
  "get_chunk_from_pointer p = p - sizeof_chunk"

text \<open>Clearing the flag of a chunk; a pointer that is not the data of a chunk is wild.\<close>

fun clear_in_use :: "chunk list \<Rightarrow> nat \<Rightarrow> chunk list res" where
  "clear_in_use [] a = Inl Fault"
| "clear_in_use (c # cs) a =
     (if chunk_addr c = a then Inr (c\<lparr>in_use := False\<rparr> # cs) else rmap ((#) c) (clear_in_use cs a))"

definition free_ptr :: "heap \<Rightarrow> nat \<Rightarrow> heap res" where
  "free_ptr h p =
     rbind (clear_in_use (free_area h) (get_chunk_from_pointer p)) (\<lambda>cs. Inr (h\<lparr>free_area := cs\<rparr>))"

section \<open>The heap invariant\<close>

text \<open>
  The extents of the chunks (header, data and trailing bytes) are pairwise disjoint
  and lie between the start and the bottom of the heap area.
\<close>

definition extent :: "chunk \<Rightarrow> nat set" where
  "extent c = {chunk_addr c ..< chunk_addr c + sizeof_chunk + chunk_size c + trailing c}"

definition block :: "chunk \<Rightarrow> nat set" where
  "block c = {chunk_addr c + sizeof_chunk ..< chunk_addr c + sizeof_chunk + chunk_size c}"

fun disjoint_extents :: "chunk list \<Rightarrow> bool" where
  "disjoint_extents [] \<longleftrightarrow> True"
| "disjoint_extents (c # cs) \<longleftrightarrow> (\<forall>d \<in> set cs. extent c \<inter> extent d = {}) \<and> disjoint_extents cs"

definition heap_ok :: "heap \<Rightarrow> bool" where
  "heap_ok h \<longleftrightarrow> disjoint_extents (free_area h)
     \<and> (\<forall>c \<in> set (free_area h). HEAP_AREA_START \<le> chunk_addr c \<and> extent c \<subseteq> {..<heap_area_bottom h})
     \<and> HEAP_AREA_START \<le> heap_area_bottom h \<and> PAGE_SIZE dvd heap_area_bottom h
     \<and> heap_area_bottom h < HEAP_AREA_END"

text \<open>The blocks in use, by the address of their data.\<close>

definition live :: "heap \<Rightarrow> nat \<Rightarrow> nat option" where
  "live h = map_of (map (\<lambda>c. (chunk_addr c + sizeof_chunk, chunk_size c)) (filter in_use (free_area h)))"

lemma disjoint_extents_append:
  "disjoint_extents (xs @ ys) \<longleftrightarrow> disjoint_extents xs \<and> disjoint_extents ys
     \<and> (\<forall>x \<in> set xs. \<forall>y \<in> set ys. extent x \<inter> extent y = {})"
  by (induction xs) auto

lemma chunk_loop_Some:
  "chunk_loop cs sz = Some (a, cs') \<Longrightarrow>
   \<exists>us c vs. cs = us @ c # vs \<and> \<not> in_use c \<and> sz \<le> chunk_size c \<and> a = chunk_addr c
     \<and> cs' = us @ split_chunk (c\<lparr>in_use := True\<rparr>) sz @ vs"
proof (induction cs arbitrary: cs')
  case (Cons c cs)
  show ?case
  proof (cases "\<not> in_use c \<and> sz \<le> chunk_size c")
    case True
    then show ?thesis using Cons.prems by (intro exI[of _ "[]"]) auto
  next
    case False
    then obtain cs1 where "chunk_loop cs sz = Some (a, cs1)" "cs' = c # cs1"
      using Cons.prems by (auto split: if_splits)
    then show ?thesis using Cons.IH[of cs1] by (metis append_Cons)
  qed
qed simp

lemma chunk_loop_None: "chunk_loop cs sz = None \<longleftrightarrow> (\<forall>c \<in> set cs. in_use c \<or> chunk_size c < sz)"
  by (induction cs) auto

text \<open>Splitting a chunk: the parts are disjoint and within the chunk.\<close>

lemma split_chunk_parts:
  assumes "sz \<le> chunk_size c"
  shows "\<forall>d \<in> set (split_chunk c sz). extent d \<subseteq> extent c \<and> chunk_addr c \<le> chunk_addr d"
    "disjoint_extents (split_chunk c sz)"
    "split_chunk c sz = c\<lparr>chunk_size := sz, trailing := trailing (hd (split_chunk c sz))\<rparr> # tl (split_chunk c sz)"
    "\<forall>d \<in> set (tl (split_chunk c sz)). \<not> in_use d"
  using assms by (auto simp: split_chunk_def Let_def extent_def sizeof_chunk_def)


lemma block_extent: "block c \<subseteq> extent c"
  by (auto simp: block_def extent_def)

lemma extent_same [simp]: "extent (c\<lparr>in_use := b\<rparr>) = extent c" "block (c\<lparr>in_use := b\<rparr>) = block c"
  by (simp_all add: extent_def block_def)

lemma disjoint_addrs: "disjoint_extents cs \<Longrightarrow> distinct (map chunk_addr cs)"
proof (induction cs)
  case (Cons c cs)
  have "chunk_addr c \<noteq> chunk_addr d" if "d \<in> set cs" for d
  proof
    assume "chunk_addr c = chunk_addr d"
    then have "chunk_addr c \<in> extent c \<inter> extent d" by (simp add: extent_def sizeof_chunk_def)
    then show False using Cons.prems that by auto
  qed
  then show ?case using Cons by auto
qed simp

text \<open>Replacing a chunk by parts of it keeps the heap well-formed.\<close>

lemma heap_ok_replace:
  assumes h: "heap_ok h" "free_area h = us @ c # vs"
    and ds: "\<forall>d \<in> set ds. extent d \<subseteq> extent c \<and> chunk_addr c \<le> chunk_addr d" "disjoint_extents ds"
  shows "heap_ok (h\<lparr>free_area := us @ ds @ vs\<rparr>)"
proof -
  have dj: "disjoint_extents us" "disjoint_extents vs" "\<forall>x \<in> set us. \<forall>y \<in> set vs. extent x \<inter> extent y = {}"
    "\<forall>x \<in> set us. extent x \<inter> extent c = {}" "\<forall>y \<in> set vs. extent c \<inter> extent y = {}"
    using h by (auto simp: heap_ok_def disjoint_extents_append)
  have "disjoint_extents (us @ ds @ vs)"
    unfolding disjoint_extents_append using dj ds by fastforce
  moreover have "HEAP_AREA_START \<le> chunk_addr d \<and> extent d \<subseteq> {..<heap_area_bottom h}" if "d \<in> set ds" for d
    using h ds(1) that unfolding heap_ok_def by fastforce
  ultimately show ?thesis using h unfolding heap_ok_def by auto
qed

lemma live_iff:
  assumes "heap_ok h"
  shows "live h p = Some n \<longleftrightarrow> (\<exists>c \<in> set (free_area h). in_use c \<and> p = chunk_addr c + sizeof_chunk \<and> n = chunk_size c)"
proof -
  have "distinct (map chunk_addr (filter in_use (free_area h)))"
    using disjoint_addrs assms by (auto simp: heap_ok_def distinct_map_filter)
  then have "distinct (map fst (map (\<lambda>c. (chunk_addr c + sizeof_chunk, chunk_size c)) (filter in_use (free_area h))))"
    by (auto simp: distinct_map inj_on_def)
  then show ?thesis unfolding live_def by (subst map_of_eq_Some_iff) auto
qed

text \<open>Blocks in use do not overlap.\<close>

lemma live_disjoint:
  assumes "heap_ok h" "live h p = Some m" "live h q = Some n" "p \<noteq> q"
  shows "{p..<p + m} \<inter> {q..<q + n} = {}"
proof -
  obtain c d where c: "c \<in> set (free_area h)" "{p..<p + m} = block c" "p = chunk_addr c + sizeof_chunk"
    and d: "d \<in> set (free_area h)" "{q..<q + n} = block d" "q = chunk_addr d + sizeof_chunk"
    using assms(2,3) unfolding live_iff[OF assms(1)] block_def by blast
  have "extent x \<inter> extent y = {}" if "x \<in> set cs" "y \<in> set cs" "x \<noteq> y" "disjoint_extents cs" for x y cs
    using that by (induction cs) auto
  then have "extent c \<inter> extent d = {}" using c d assms(1,4) by (auto simp: heap_ok_def)
  then show ?thesis unfolding c(2) d(2) using block_extent by blast
qed

text \<open>Serving a request from a free chunk.\<close>

lemma alloc_step:
  assumes h: "heap_ok h" and run: "chunk_loop (free_area h) sz = Some (a, cs)" and h': "h' = h\<lparr>free_area := cs\<rparr>"
  shows "heap_ok h'" "live h (a + sizeof_chunk) = None" "live h' = (live h)(a + sizeof_chunk \<mapsto> sz)"
    "HEAP_AREA_START \<le> a" "{a + sizeof_chunk..<a + sizeof_chunk + sz} \<subseteq> {..<heap_area_bottom h}"
proof -
  obtain us c vs where c: "free_area h = us @ c # vs" "\<not> in_use c" "sz \<le> chunk_size c" "a = chunk_addr c"
    "cs = us @ split_chunk (c\<lparr>in_use := True\<rparr>) sz @ vs"
    using chunk_loop_Some[OF run] by blast
  let ?c = "c\<lparr>in_use := True\<rparr>"
  note sp = split_chunk_parts[of sz ?c]
  show ok: "heap_ok h'" unfolding h' c(5)
    by (rule heap_ok_replace[OF h c(1)]) (use sp c(3) in auto)
  have addrs: "distinct (map chunk_addr (free_area h))" using disjoint_addrs h by (auto simp: heap_ok_def)
  show none: "live h (a + sizeof_chunk) = None"
    using live_iff[OF h, of "a + sizeof_chunk"] addrs c(1,2,4) by (cases "live h (a + sizeof_chunk)") (auto)
  have hd: "split_chunk ?c sz = ?c\<lparr>chunk_size := sz, trailing := trailing (hd (split_chunk ?c sz))\<rparr> # tl (split_chunk ?c sz)"
    "filter in_use (tl (split_chunk ?c sz)) = []"
    using sp(3,4) c(3) by auto
  have f: "filter in_use cs = filter in_use us @ ?c\<lparr>chunk_size := sz, trailing := trailing (hd (split_chunk ?c sz))\<rparr> # filter in_use vs"
    unfolding c(5) by (subst hd(1)) (simp add: hd(2))
  have notin: "a + sizeof_chunk \<notin> (\<lambda>x. chunk_addr x + sizeof_chunk) ` set (filter in_use us)"
    using addrs c(1,4) by auto
  show "live h' = (live h)(a + sizeof_chunk \<mapsto> sz)"
    unfolding live_def h' using f notin c(1,2,4) by (simp add: map_add_upd_left dom_map_of_conv_image_fst image_image)
  show "HEAP_AREA_START \<le> a" using h c by (auto simp: heap_ok_def)
  have "extent c \<subseteq> {..<heap_area_bottom h}" using h c by (auto simp: heap_ok_def)
  moreover have "{a + sizeof_chunk..<a + sizeof_chunk + sz} \<subseteq> extent c"
    using c(3,4) by (auto simp: extent_def)
  ultimately show "{a + sizeof_chunk..<a + sizeof_chunk + sz} \<subseteq> {..<heap_area_bottom h}" by blast
qed

text \<open>
  What the heap relies on: a page request with a page base is answered with the
  pages mapped at that base.
\<close>

definition maps_at_base :: "page_service \<Rightarrow> bool" where
  "maps_at_base svc \<longleftrightarrow> (\<forall>a < HEAP_AREA_END. PAGE_SIZE dvd a \<longrightarrow> svc 0 (PAGE_BASE a MALLOC_PAGE_ORDER) = (OK, a))"

definition expanded :: "heap \<Rightarrow> heap" where
  "expanded h = h\<lparr>free_area := append_new_chunk (free_area h) (heap_area_bottom h) (PAGE_SIZE * 2 ^ MALLOC_PAGE_ORDER),
     heap_area_bottom := heap_area_bottom h + 0x100000\<rparr>"

lemma expand_arena_eq:
  assumes "heap_ok h" "maps_at_base svc"
  shows "expand_arena svc h = (if heap_area_bottom h + 0x100000 < HEAP_AREA_END then Inr (expanded h) else Inl Assertion)"
  using assms
  by (auto simp: expand_arena_def sys_alloc_pages_def grow_heap_area_def Let_def maps_at_base_def heap_ok_def
      MALLOC_PAGE_ORDER_def PAGE_SIZE_def HEAP_AREA_START_def expanded_def)

lemma heap_ok_expanded:
  assumes h: "heap_ok h" and room: "heap_area_bottom h + 0x100000 < HEAP_AREA_END"
  shows "heap_ok (expanded h)"
proof -
  let ?c = "\<lparr>chunk_addr = heap_area_bottom h, chunk_size = 0x100000 - 16, in_use = False, trailing = 0\<rparr>"
  have c: "free_area (expanded h) = free_area h @ [?c]"
    by (simp add: expanded_def append_new_chunk_def PAGE_SIZE_def MALLOC_PAGE_ORDER_def sizeof_chunk_def)
  have e: "extent ?c = {heap_area_bottom h..<heap_area_bottom h + 0x100000}"
    by (auto simp: extent_def sizeof_chunk_def)
  have old: "extent d \<subseteq> {..<heap_area_bottom h}" if "d \<in> set (free_area h)" for d
    using h that by (auto simp: heap_ok_def)
  have "extent d \<inter> extent ?c = {}" if "d \<in> set (free_area h)" for d using old[OF that] e by auto
  then have "disjoint_extents (free_area (expanded h))" using h c by (simp add: disjoint_extents_append heap_ok_def)
  moreover have "extent d \<subseteq> {..<heap_area_bottom (expanded h)}" if "d \<in> set (free_area (expanded h))" for d
    using that old e c by (force simp: expanded_def)
  moreover have "PAGE_SIZE dvd heap_area_bottom (expanded h)"
  proof -
    have "4096 dvd (0x100000 :: nat)" by simp
    then show ?thesis using h dvd_add unfolding heap_ok_def expanded_def PAGE_SIZE_def by auto
  qed
  ultimately show ?thesis using h room c unfolding heap_ok_def by (auto simp: expanded_def)
qed

lemma live_expanded [simp]: "live (expanded h) = live h"
  by (simp add: live_def expanded_def append_new_chunk_def)

lemma alloc_expanded:
  "sz \<le> 0x100000 - 16 \<Longrightarrow> chunk_loop (free_area (expanded h)) sz \<noteq> None"
  by (auto simp: chunk_loop_None expanded_def append_new_chunk_def PAGE_SIZE_def MALLOC_PAGE_ORDER_def sizeof_chunk_def)

text \<open>The block comes from the heap as it is, or from the heap after an expansion.\<close>

lemma malloc_cases:
  assumes h: "heap_ok h" and svc: "maps_at_base svc" and run: "malloc svc h sz = Inr (p, h')"
  obtains g a cs where "heap_ok g" "live g = live h" "chunk_loop (free_area g) (max 1 sz) = Some (a, cs)"
    "h' = g\<lparr>free_area := cs\<rparr>" "p = a + sizeof_chunk"
proof -
  have sz: "(if sz = 0 then 1 else sz) = max 1 sz" by simp
  obtain a where a: "alloc_from_arena svc h (max 1 sz) = Inr (a, h')" "p = a + sizeof_chunk" "a \<noteq> 0"
    using run unfolding malloc_def Let_def sz by auto
  show thesis
  proof (cases "chunk_loop (free_area h) (max 1 sz)")
    case (Some r)
    then show thesis using that[OF h] a by (cases r) (auto simp: alloc_from_arena_def)
  next
    case None
    then have room: "heap_area_bottom h + 0x100000 < HEAP_AREA_END"
      and r: "(case chunk_loop (free_area (expanded h)) (max 1 sz) of Some (a, cs) \<Rightarrow> Inr (a, (expanded h)\<lparr>free_area := cs\<rparr>)
        | None \<Rightarrow> Inr (0, expanded h)) = (Inr (a, h') :: (nat \<times> heap) res)"
      using a(1) expand_arena_eq[OF h svc] by (auto simp: alloc_from_arena_def split: if_splits)
    then show thesis using that[OF heap_ok_expanded[OF h room]] a(2,3)
      by (auto split: option.splits)
  qed
qed

lemma malloc_sound:
  assumes h: "heap_ok h" and svc: "maps_at_base svc" and run: "malloc svc h sz = Inr (p, h')"
  shows "heap_ok h'" "live h p = None" "live h' = (live h)(p \<mapsto> max 1 sz)"
    "HEAP_AREA_START \<le> p" "p + max 1 sz \<le> HEAP_AREA_END"
proof -
  obtain g a cs where g: "heap_ok g" "live g = live h" "chunk_loop (free_area g) (max 1 sz) = Some (a, cs)"
    "h' = g\<lparr>free_area := cs\<rparr>" "p = a + sizeof_chunk"
    by (rule malloc_cases[OF assms])
  note st = alloc_step[OF g(1,3,4)]
  show "heap_ok h'" "live h p = None" "live h' = (live h)(p \<mapsto> max 1 sz)" "HEAP_AREA_START \<le> p"
    using st g(2,5) by auto
  have "a + sizeof_chunk + max 1 sz \<le> heap_area_bottom g"
    using st(5) by (metis atLeastLessThan_subset_iff ivl_subset lessThan_atLeast0 less_add_same_cancel1 max.strict_coboundedI1 zero_less_one not_le)
  then show "p + max 1 sz \<le> HEAP_AREA_END" using g(1,5) by (simp add: heap_ok_def)
qed

lemma malloc_succeeds:
  assumes h: "heap_ok h" and svc: "maps_at_base svc" and sz: "sz \<le> 0x100000 - 16"
    and room: "heap_area_bottom h + 0x100000 < HEAP_AREA_END"
  shows "\<exists>p h'. malloc svc h sz = Inr (p, h')"
proof -
  have eq: "(if sz = 0 then 1 else sz) = max 1 sz" by simp
  have nz: "a \<noteq> 0" if "heap_ok g" "chunk_loop (free_area g) n = Some (a, cs)" for g n a cs
    using alloc_step(4)[OF that refl] by (simp add: HEAP_AREA_START_def)
  show ?thesis
  proof (cases "chunk_loop (free_area h) (max 1 sz)")
    case (Some r)
    then show ?thesis using nz[OF h] unfolding malloc_def Let_def eq
      by (cases r) (auto simp: alloc_from_arena_def)
  next
    case None
    obtain a cs where "chunk_loop (free_area (expanded h)) (max 1 sz) = Some (a, cs)"
      using alloc_expanded[of "max 1 sz" h] sz by auto
    then show ?thesis using None nz[OF heap_ok_expanded[OF h room]] room unfolding malloc_def Let_def eq
      by (auto simp: alloc_from_arena_def expand_arena_eq[OF h svc])
  qed
qed

section \<open>Freeing\<close>

lemma clear_in_use_split:
  "distinct (map chunk_addr (us @ c # vs)) \<Longrightarrow>
   clear_in_use (us @ c # vs) (chunk_addr c) = Inr (us @ c\<lparr>in_use := False\<rparr> # vs)"
  by (induction us) auto

lemma free_sound:
  assumes h: "heap_ok h" and p: "live h p = Some n"
  shows "\<exists>h'. free_ptr h p = Inr h' \<and> heap_ok h' \<and> live h' = (live h)(p := None)"
proof -
  obtain c where c: "c \<in> set (free_area h)" "in_use c" "p = chunk_addr c + sizeof_chunk"
    using p live_iff[OF h] by auto
  obtain us vs where s: "free_area h = us @ c # vs" using c(1) by (auto simp: in_set_conv_decomp)
  have d: "distinct (map chunk_addr (us @ c # vs))" using disjoint_addrs[of "free_area h"] h s by (simp add: heap_ok_def)
  let ?h = "h\<lparr>free_area := us @ [c\<lparr>in_use := False\<rparr>] @ vs\<rparr>"
  have "free_ptr h p = Inr ?h"
    using clear_in_use_split[OF d] c(3) s by (simp add: free_ptr_def get_chunk_from_pointer_def)
  moreover have "heap_ok ?h" by (rule heap_ok_replace[OF h s]) simp_all
  moreover have "live ?h = (live h)(p := None)"
  proof -
    let ?m = "\<lambda>cs. map_of (map (\<lambda>c. (chunk_addr c + sizeof_chunk, chunk_size c)) (filter in_use cs))"
    have none: "?m us p = None" "?m vs p = None"
      using d c(3) by (auto simp: map_of_eq_None_iff)
    have "live h = (?m vs ++ ?m us)(p \<mapsto> chunk_size c)"
      using s c(2,3) none by (simp add: live_def map_add_upd_left domIff)
    moreover have "live ?h = ?m vs ++ ?m us" by (simp add: live_def)
    ultimately show ?thesis using none by (auto simp: fun_eq_iff map_add_def)
  qed
  ultimately show ?thesis by blast
qed

section \<open>Properties\<close>

text \<open>
  A program of allocations and frees. Freeing a pointer that is not live is an error of
  the caller.
\<close>

datatype heap_op = Malloc nat | Dispose nat

fun heap_run :: "page_service \<Rightarrow> heap_op list \<Rightarrow> heap \<Rightarrow> (nat list \<times> heap) res" where
  "heap_run svc [] h = Inr ([], h)"
| "heap_run svc (Malloc sz # ops) h =
     rbind (malloc svc h sz) (\<lambda>(p, h). rmap (\<lambda>(ps, h). (p # ps, h)) (heap_run svc ops h))"
| "heap_run svc (Dispose p # ops) h =
     (if live h p = None then Inl Fault else rbind (free_ptr h p) (heap_run svc ops))"

text \<open>The blocks that a program leaves behind, given the addresses that it got.\<close>

fun heap_spec :: "heap_op list \<Rightarrow> nat list \<Rightarrow> (nat \<Rightarrow> nat option) \<Rightarrow> nat \<Rightarrow> nat option" where
  "heap_spec (Malloc sz # ops) (p # ps) m = heap_spec ops ps (m(p \<mapsto> max 1 sz))"
| "heap_spec (Dispose p # ops) ps m = heap_spec ops ps (m(p := None))"
| "heap_spec _ _ m = m"

lemma heap_run_sound:
  assumes svc: "maps_at_base svc"
  shows "heap_ok h \<Longrightarrow> heap_run svc ops h = Inr (ps, h') \<Longrightarrow> heap_ok h' \<and> live h' = heap_spec ops ps (live h)"
proof (induction ops arbitrary: h ps)
  case (Cons op ops)
  show ?case
  proof (cases op)
    case (Malloc sz)
    then obtain p h1 ps1 where r: "malloc svc h sz = Inr (p, h1)" "heap_run svc ops h1 = Inr (ps1, h')" "ps = p # ps1"
      using Cons.prems(2) by (auto simp: rmap_def)
    note m = malloc_sound[OF Cons.prems(1) svc r(1)]
    then show ?thesis using Cons.IH[OF m(1) r(2)] unfolding r(3) Malloc m(3) heap_spec.simps by blast
  next
    case (Dispose p)
    then obtain n h1 where r: "live h p = Some n" "free_ptr h p = Inr h1" "heap_run svc ops h1 = Inr (ps, h')"
      using Cons.prems(2) by (auto split: if_splits)
    then have f: "heap_ok h1" "live h1 = (live h)(p := None)" using free_sound[OF Cons.prems(1) r(1)] by auto
    show ?thesis using Cons.IH[OF f(1) r(3)] unfolding Dispose heap_spec.simps f(2) .
  qed
qed simp

lemma heap_init_ok: "heap_ok heap_init" "live heap_init = Map.empty"
  by (simp_all add: heap_ok_def heap_init_def live_def HEAP_AREA_START_def HEAP_AREA_END_def PAGE_SIZE_def)

lemma live_in_area:
  assumes "heap_ok h" "live h p = Some n"
  shows "HEAP_AREA_START \<le> p \<and> p + n \<le> HEAP_AREA_END"
proof -
  obtain c where c: "c \<in> set (free_area h)" "p = chunk_addr c + sizeof_chunk" "n = chunk_size c"
    using assms live_iff[OF assms(1)] by auto
  have "extent c \<subseteq> {..<heap_area_bottom h}" "HEAP_AREA_START \<le> chunk_addr c" "heap_area_bottom h < HEAP_AREA_END"
    using assms(1) c(1) by (auto simp: heap_ok_def)
  moreover have "p + n - 1 \<in> extent c" using c(2,3) by (auto simp: extent_def sizeof_chunk_def)
  ultimately show ?thesis using c(2) by (auto simp: lessThan_def)
qed

text \<open>
  C5: the heap hands out disjoint blocks. After any program of malloc and free calls on
  a fresh heap (frees of live pointers only) the live blocks are exactly the ones that
  were allocated and not freed, each with its requested size (at least 1); they lie in
  the heap area and no two of them overlap. It relies on the memory manager mapping the
  pages at the requested address.
\<close>

theorem heap_blocks_disjoint:
  assumes "maps_at_base svc" "heap_run svc ops heap_init = Inr (ps, h)"
  shows "live h = heap_spec ops ps Map.empty
    \<and> (\<forall>p m. live h p = Some m \<longrightarrow> HEAP_AREA_START \<le> p \<and> p + m \<le> HEAP_AREA_END)
    \<and> (\<forall>p q m n. live h p = Some m \<longrightarrow> live h q = Some n \<longrightarrow> p \<noteq> q \<longrightarrow> {p..<p + m} \<inter> {q..<q + n} = {})"
proof -
  have "heap_ok h" "live h = heap_spec ops ps Map.empty"
    using heap_run_sound[OF assms(1) heap_init_ok(1) assms(2)] heap_init_ok(2) by auto
  then show ?thesis using live_in_area live_disjoint by blast
qed

text \<open>A memory manager that maps every request where it is asked to.\<close>

definition sample_service :: page_service where
  "sample_service order page_base = (OK, unat (drop_bit 12 page_base) * 4096)"

lemma sample_service_maps: "maps_at_base sample_service"
proof -
  have "unat (drop_bit 12 (of_nat a OR 8 :: u64)) * 4096 = a" if "a < 0xa0000000" "4096 dvd a" for a
  proof -
    have "unat (of_nat a OR 8 :: u64) = a OR 8"
      using that(1) by (simp add: unsigned_or_eq unat_of_nat take_bit_nat_eq_self)
    then have "unat (drop_bit 12 (of_nat a OR 8 :: u64)) = drop_bit 12 (a OR 8)" by (simp only: unat_drop_bit_eq)
    also have "\<dots> = a div 4096" by (simp add: drop_bit_or) (simp add: drop_bit_eq_div)
    finally show ?thesis using that(2) by simp
  qed
  then show ?thesis
    by (simp add: maps_at_base_def sample_service_def PAGE_BASE_def MALLOC_PAGE_ORDER_def PAGE_SIZE_def HEAP_AREA_END_def)
qed

lemma malloc_bottom:
  assumes "heap_ok h" "maps_at_base svc" "malloc svc h sz = Inr (p, h')"
  shows "heap_area_bottom h' \<le> heap_area_bottom h + 0x100000"
proof -
  define n where "n = (if sz = 0 then 1 else sz)"
  obtain a where a: "alloc_from_arena svc h n = Inr (a, h')"
    using assms(3) unfolding malloc_def Let_def n_def by (elim rbind_eq_Inr[THEN iffD1, elim_format]) auto
  show ?thesis
  proof (cases "chunk_loop (free_area h) n")
    case None
    then obtain g where g: "expand_arena svc h = Inr g"
      and r: "(case chunk_loop (free_area g) n of Some (a, cs) \<Rightarrow> Inr (a, g\<lparr>free_area := cs\<rparr>) | None \<Rightarrow> Inr (0, g)) = (Inr (a, h') :: (nat \<times> heap) res)"
      using a by (auto simp: alloc_from_arena_def)
    have "heap_area_bottom g = heap_area_bottom h + 0x100000"
      using g expand_arena_eq[OF assms(1,2)] by (auto simp: expanded_def split: if_splits)
    moreover have "heap_area_bottom h' = heap_area_bottom g" using r by (cases "chunk_loop (free_area g) n") auto
    ultimately show ?thesis by simp
  next
    case (Some c)
    then show ?thesis using a by (cases c) (auto simp: alloc_from_arena_def)
  qed
qed

lemma mallocs_succeed:
  assumes svc: "maps_at_base svc"
  shows "heap_ok h \<Longrightarrow> \<forall>sz \<in> set szs. sz \<le> 0xffff0 \<Longrightarrow>
    heap_area_bottom h + length szs * 0x100000 < HEAP_AREA_END \<Longrightarrow>
    \<exists>ps h'. heap_run svc (map Malloc szs) h = Inr (ps, h') \<and> length ps = length szs"
proof (induction szs arbitrary: h)
  case (Cons sz szs)
  obtain p h1 where m: "malloc svc h sz = Inr (p, h1)"
    using malloc_succeeds[OF Cons.prems(1) svc, of sz] Cons.prems(2,3) by auto
  have b: "heap_area_bottom h1 + length szs * 0x100000 < HEAP_AREA_END"
    using malloc_bottom[OF Cons.prems(1) svc m] Cons.prems(3) by simp
  obtain ps h2 where "heap_run svc (map Malloc szs) h1 = Inr (ps, h2)" "length ps = length szs"
    using Cons.IH[OF malloc_sound(1)[OF Cons.prems(1) svc m] _ b] Cons.prems(2) by auto
  then show ?case using m by simp
qed simp

theorem heap_blocks_disjoint_witness:
  "\<exists>ps h. heap_run sample_service [Malloc 100, Malloc 0, Malloc 5000] heap_init = Inr (ps, h)
     \<and> live h = heap_spec [Malloc 100, Malloc 0, Malloc 5000] ps Map.empty"
proof -
  obtain ps h where r: "heap_run sample_service (map Malloc [100, 0, 5000]) heap_init = Inr (ps, h)"
    using mallocs_succeed[OF sample_service_maps heap_init_ok(1), of "[100, 0, 5000]"]
    by (auto simp: heap_init_def HEAP_AREA_START_def HEAP_AREA_END_def simp del: heap_run.simps list.map)
  then show ?thesis using conjunct1[OF heap_blocks_disjoint[OF sample_service_maps r]]
    unfolding list.map by blast
qed



text \<open>
  The heap uses memory that it did not ask for. An expansion asks the memory manager
  for pages of order 0, a single page (the hypothesis says what it answers to such
  requests), but adds a chunk of 256 pages. So on a fresh heap every block of more than
  4080 bytes reaches beyond the page that was requested.
\<close>

lemma malloc_exceeds_request:
  assumes "maps_at_base svc" "4080 < sz" "sz \<le> 0xffff0"
  shows "\<exists>h. malloc svc heap_init sz = Inr (HEAP_AREA_START + sizeof_chunk, h)
    \<and> HEAP_AREA_START + sizeof_chunk + sz > HEAP_AREA_START + 2 ^ 0 * PAGE_SIZE"
proof -
  have room: "heap_area_bottom heap_init + 0x100000 < HEAP_AREA_END"
    by (simp add: heap_init_def HEAP_AREA_START_def HEAP_AREA_END_def)
  have e: "expand_arena svc heap_init = Inr (expanded heap_init)"
    using expand_arena_eq[OF heap_init_ok(1) assms(1)] room by simp
  have f: "free_area heap_init = []" by (simp add: heap_init_def)
  obtain cs where c: "chunk_loop (free_area (expanded heap_init)) sz = Some (HEAP_AREA_START, cs)"
    using assms(3) by (simp add: expanded_def append_new_chunk_def f heap_init_def PAGE_SIZE_def MALLOC_PAGE_ORDER_def sizeof_chunk_def)
  have "malloc svc heap_init sz = Inr (HEAP_AREA_START + sizeof_chunk, (expanded heap_init)\<lparr>free_area := cs\<rparr>)"
    using e c assms(2) f by (simp add: malloc_def alloc_from_arena_def HEAP_AREA_START_def)
  moreover have "HEAP_AREA_START + sizeof_chunk + sz > HEAP_AREA_START + 2 ^ 0 * PAGE_SIZE"
    using assms(2) by (simp add: sizeof_chunk_def PAGE_SIZE_def)
  ultimately show ?thesis by blast
qed

end
