(* ===== verification/Printf.thy ===== *)
theory Printf
  imports CString
begin

text \<open>
  Formatted output: libs/libresea/printf.c and kernel/printk.c. The two formatters
  share their structure and differ in the pointer conversion and in \<open>%v\<close>. The
  format is the list of bytes from the current position to the end of the object,
  the variable arguments are the 64-bit argument slots, and strings that are passed
  by pointer are read through \<open>str_at\<close>. The output is the list of bytes passed to
  \<open>putchar\<close> or \<open>arch_putchar\<close>.
\<close>

section \<open>Numbers\<close>

definition chr :: "string \<Rightarrow> u8" where "chr s = of_char (hd s)"

definition bytes :: "string \<Rightarrow> u8 list" where "bytes s = map of_char s"

definition digit_char :: "u64 \<Rightarrow> u8" where "digit_char d = bytes ''0123456789abcdef'' ! unat d"

text \<open>
  The loop that fills \<open>tmp\<close> from index \<open>i\<close> downwards; the digits collected so far are
  \<open>acc\<close>.
\<close>

fun uint_loop :: "nat \<Rightarrow> u64 \<Rightarrow> u64 \<Rightarrow> int \<Rightarrow> u8 list \<Rightarrow> u8 list \<times> int" where
  "uint_loop 0 n base width acc = (acc, width)"
| "uint_loop (Suc i) n base width acc =
     (let acc = digit_char (n mod base) # acc; n = n div base; width = width - 1 in
      if n > 0 \<and> i > 0 then uint_loop i n base width acc else (acc, width))"

definition print_uint :: "u64 \<Rightarrow> u64 \<Rightarrow> u8 \<Rightarrow> int \<Rightarrow> u8 list" where
  "print_uint n base pad width =
     (case uint_loop 30 n base width [] of (digits, width) \<Rightarrow> replicate (nat width) pad @ digits)"

section \<open>Formatting\<close>

text \<open>The next variable argument.\<close>

fun va_arg :: "u64 list \<Rightarrow> (u64 \<times> u64 list) res" where
  "va_arg [] = Inl Fault"
| "va_arg (a # as) = Inr (a, as)"

fun puts :: "u8 list \<Rightarrow> u8 list res" where
  "puts [] = Inl Fault"
| "puts (c # s) = (if c \<noteq> 0 then rmap ((#) c) (puts s) else Inr [])"

text \<open>A conversion that reads on in the format: the rest of the format, the arguments, the output.\<close>

type_synonym conv = "u8 list \<Rightarrow> u64 list \<Rightarrow> (u8 list \<times> u64 list \<times> u8 list) res"

text \<open>The hex dump of \<open>%ph\<close>: the loop from byte \<open>i\<close> on.\<close>

fun hex_dump :: "nat \<Rightarrow> nat \<Rightarrow> u8 list \<Rightarrow> u8 list res" where
  "hex_dump i 0 buf = Inr []"
| "hex_dump i (Suc len) [] = Inl Fault"
| "hex_dump i (Suc len) (b # buf) =
     rmap ((@) ((if i mod 16 = 0
                 then (if i > 0 then bytes [CHR 0x0a] else []) @ bytes [CHR 0x09] @
                      print_uint (of_nat i) 16 (chr ''0'') 4 @ bytes '': ''
                 else []) @
                print_uint (ucast b) 16 (chr ''0'') 2 @ bytes '' ''))
       (hex_dump (Suc i) len buf)"

text \<open>\<open>print_ptr\<close> of the user library.\<close>

definition print_ptr :: "(addr \<Rightarrow> u8 list) \<Rightarrow> conv" where
  "print_ptr str_at fmt args =
     (case fmt of
        [] \<Rightarrow> Inl Fault
      | ch # fmt \<Rightarrow>
          if ch = chr ''h'' then
            rbind (va_arg args) (\<lambda>(p, args).
            rbind (va_arg args) (\<lambda>(len, args).
            rbind (hex_dump 0 (unat len) (str_at p)) (\<lambda>out. Inr (fmt, args, out))))
          else
            rbind (va_arg args) (\<lambda>(p, args). Inr (fmt, args, print_uint p 16 (chr ''0'') 16 @ [ch])))"

definition print_value :: conv where
  "print_value fmt args =
     (case fmt of
        [] \<Rightarrow> Inl Fault
      | ch # fmt \<Rightarrow>
          if ch = chr ''E'' then
            rbind (va_arg args) (\<lambda>(e, args).
              Inr (fmt, args, print_uint (- scast (ucast e :: u32)) 10 0 0))
          else Inr (fmt, args, []))"

text \<open>The flags between the percent sign and the conversion; \<open>fmt\<close> stops at the conversion.\<close>

fun attrs :: "u8 list \<Rightarrow> int \<Rightarrow> u8 \<Rightarrow> (int \<times> u8 \<times> u8 list) res" where
  "attrs [] num_len pad = Inl Fault"
| "attrs (c # fmt) num_len pad =
     (if c = chr ''l'' then attrs fmt (num_len + 1) pad
      else if c = chr ''h'' then attrs fmt (num_len - 1) pad
      else if c = chr ''0'' then attrs fmt num_len (chr ''0'')
      else if c = chr ''#'' then attrs fmt num_len pad
      else Inr (num_len, pad, c # fmt))"

text \<open>A signed and an unsigned argument: a long long after two \<open>l\<close>, an int otherwise.\<close>

definition int_arg :: "int \<Rightarrow> u64 \<Rightarrow> u64" where
  "int_arg num_len a = (if num_len = 3 then a else scast (ucast a :: u32))"

definition uint_arg :: "int \<Rightarrow> u64 \<Rightarrow> u64" where
  "uint_arg num_len a = (if num_len = 3 then a else ucast (ucast a :: u32))"

definition print_int :: "u64 \<Rightarrow> u8 \<Rightarrow> u8 list" where
  "print_int n pad = (if sint n < 0 then chr ''-'' # print_uint (- n) 10 pad 0 else print_uint n 10 pad 0)"

text \<open>
  One conversion at the head of the format: None ends the output (an invalid
  format). \<open>value_conv\<close> is the conversion \<open>%v\<close>, which the kernel does not have.
\<close>

definition conversion ::
  "(addr \<Rightarrow> u8 list) \<Rightarrow> conv \<Rightarrow> conv option \<Rightarrow> u8 list \<Rightarrow> int \<Rightarrow> u8 \<Rightarrow> u64 list \<Rightarrow>
   (u8 list \<times> u64 list \<times> u8 list) option res"
where
  "conversion str_at ptr_conv value_conv fmt num_len pad args =
     (case fmt of
        [] \<Rightarrow> Inl Fault
      | c # fmt \<Rightarrow>
          if c = chr ''d'' then
            rbind (va_arg args) (\<lambda>(a, args). Inr (Some (fmt, args, print_int (int_arg num_len a) pad)))
          else if c = chr ''x'' then
            rbind (va_arg args) (\<lambda>(a, args). Inr (Some (fmt, args, print_uint (uint_arg num_len a) 16 pad 0)))
          else if c = chr ''u'' then
            rbind (va_arg args) (\<lambda>(a, args). Inr (Some (fmt, args, print_uint (uint_arg num_len a) 10 pad 0)))
          else if c = chr ''c'' then rbind (va_arg args) (\<lambda>(a, args). Inr (Some (fmt, args, [ucast a])))
          else if c = chr ''s'' then
            rbind (va_arg args) (\<lambda>(a, args). rbind (puts (str_at a)) (\<lambda>out. Inr (Some (fmt, args, out))))
          else if c = chr ''v'' \<and> value_conv \<noteq> None then rmap Some (the value_conv fmt args)
          else if c = chr ''p'' then rmap Some (ptr_conv fmt args)
          else if c = chr ''%'' then Inr (Some (fmt, args, [chr ''%'']))
          else Inr None)"

fun format_loop ::
  "nat \<Rightarrow> (addr \<Rightarrow> u8 list) \<Rightarrow> conv \<Rightarrow> conv option \<Rightarrow> u8 list \<Rightarrow> u64 list \<Rightarrow> u8 list res"
where
  "format_loop 0 str_at ptr_conv value_conv fmt args = Inl NoFuel"
| "format_loop (Suc fuel) str_at ptr_conv value_conv fmt args =
     (case fmt of
        [] \<Rightarrow> Inl Fault
      | c # fmt \<Rightarrow>
          if c = 0 then Inr []
          else if c \<noteq> chr ''%'' then rmap ((#) c) (format_loop fuel str_at ptr_conv value_conv fmt args)
          else
            rbind (attrs fmt 1 (chr '' '')) (\<lambda>(num_len, pad, fmt).
            rbind (conversion str_at ptr_conv value_conv fmt num_len pad args) (\<lambda>r.
            case r of
              None \<Rightarrow> Inr (bytes ''<invalid format>'')
            | Some (fmt, args, out) \<Rightarrow> rmap ((@) out) (format_loop fuel str_at ptr_conv value_conv fmt args))))"

text \<open>Every iteration consumes a byte of the format, so that its length is enough fuel.\<close>

definition vprintf :: "(addr \<Rightarrow> u8 list) \<Rightarrow> u8 list \<Rightarrow> u64 list \<Rightarrow> u8 list res" where
  "vprintf str_at fmt args = format_loop (Suc (length fmt)) str_at (print_ptr str_at) (Some print_value) fmt args"

text \<open>
  The kernel's pointer conversions: threads, channels and symbols are looked up by
  their address (the name and number of a control block, the name and offset of a
  symbol).
\<close>

record kernel_names =
  thread_name :: "addr \<Rightarrow> u8 list \<times> u64"
  channel_name :: "addr \<Rightarrow> u8 list \<times> u64"
  symbol_name :: "addr \<Rightarrow> u8 list \<times> u64"

definition kprint_ptr :: "kernel_names \<Rightarrow> conv" where
  "kprint_ptr N fmt args =
     (case fmt of
        [] \<Rightarrow> Inl Fault
      | ch # fmt \<Rightarrow>
          rbind (va_arg args) (\<lambda>(p, args).
          if ch = chr ''T'' then
            (case thread_name N p of (nm, i) \<Rightarrow>
               rbind (puts nm) (\<lambda>s. Inr (fmt, args, bytes ''#'' @ s @ bytes ''.'' @ print_uint i 10 (chr '' '') 0)))
          else if ch = chr ''C'' then
            (case channel_name N p of (nm, i) \<Rightarrow>
               rbind (puts nm) (\<lambda>s. Inr (fmt, args, bytes ''@'' @ s @ bytes ''.'' @ print_uint i 10 (chr '' '') 0)))
          else if ch = chr ''S'' then
            (case symbol_name N p of (nm, offset) \<Rightarrow>
               rbind (puts nm) (\<lambda>s. Inr (fmt, args, s @
                 (if offset > 0 then bytes ''+0x'' @ print_uint offset 16 0 0 else []))))
          else Inr (fmt, args, print_uint p 16 (chr ''0'') 16 @ [ch])))"

definition vprintk :: "(addr \<Rightarrow> u8 list) \<Rightarrow> kernel_names \<Rightarrow> u8 list \<Rightarrow> u64 list \<Rightarrow> u8 list res" where
  "vprintk str_at N fmt args = format_loop (Suc (length fmt)) str_at (kprint_ptr N) None fmt args"

section \<open>The digits denote the number\<close>

definition digit_value :: "u8 \<Rightarrow> nat" where
  "digit_value c = (if c < 58 then unat (c - 48) else unat (c - 87))"

definition number :: "nat \<Rightarrow> u8 list \<Rightarrow> nat" where
  "number base ds = foldl (\<lambda>n d. n * base + digit_value d) 0 ds"

lemma digit_value_char: "unat d < 16 \<Longrightarrow> digit_value (digit_char d) = unat d"
proof -
  have "\<forall>n < 16. digit_value (bytes ''0123456789abcdef'' ! n) = n" by code_simp
  then show "unat d < 16 \<Longrightarrow> digit_value (digit_char d) = unat d" by (simp add: digit_char_def)
qed

lemma foldl_number: "foldl (\<lambda>n d. n * base + digit_value d) a ds = a * base ^ length ds + number base ds"
proof (induction ds arbitrary: a)
  case (Cons d ds)
  have "foldl (\<lambda>n d. n * base + digit_value d) a (d # ds) = (a * base + digit_value d) * base ^ length ds + number base ds"
    using Cons.IH[of "a * base + digit_value d"] by simp
  moreover have "number base (d # ds) = digit_value d * base ^ length ds + number base ds"
    using Cons.IH[of "digit_value d"] by (simp add: number_def)
  ultimately show ?case by (simp add: distrib_right)
qed (simp add: number_def)

lemma number_Cons: "number base (d # ds) = digit_value d * base ^ length ds + number base ds"
  using foldl_number[of base "digit_value d" ds] by (simp add: number_def)

lemma uint_loop_number:
  assumes "2 \<le> unat base" "unat base \<le> 16"
  shows "unat n < unat base ^ Suc i \<Longrightarrow>
    number (unat base) (fst (uint_loop (Suc i) n base w acc)) =
      unat n * unat base ^ length acc + number (unat base) acc"
proof (induction i arbitrary: n w acc)
  case 0
  then have "n mod base = n" by (simp add: word_arith_nat_mod mod_less)
  then show ?case using digit_value_char[of n] 0 assms by (simp add: Let_def number_Cons)
next
  case (Suc i)
  let ?acc = "digit_char (n mod base) # acc"
  have md: "unat (n mod base) < 16" using assms by (simp add: unat_mod order_less_le_trans[OF mod_less_divisor])
  have num: "number (unat base) ?acc = unat (n mod base) * unat base ^ length acc + number (unat base) acc"
    using digit_value_char[OF md] by (simp add: number_Cons)
  have dm: "unat n = unat (n div base) * unat base + unat (n mod base)"
    by (simp add: unat_div unat_mod div_mult_mod_eq)
  show ?case
  proof (cases "n div base > 0")
    case True
    have "unat (n div base) < unat base ^ Suc i"
      using Suc.prems assms by (simp add: unat_div less_mult_imp_div_less mult.commute)
    then have "number (unat base) (fst (uint_loop (Suc i) (n div base) base (w - 1) ?acc)) =
        unat (n div base) * unat base ^ length ?acc + number (unat base) ?acc"
      by (rule Suc.IH)
    then show ?thesis using True num dm by (subst uint_loop.simps) (simp add: Let_def algebra_simps del: uint_loop.simps)
  next
    case False
    then have "n div base = 0" using word_neq_0_conv[of "n div base"] by blast
    then show ?thesis using num dm by (simp add: Let_def)
  qed
qed

lemma uint_loop_width:
  "snd (uint_loop i n base w acc) = w + int (length acc) - int (length (fst (uint_loop i n base w acc)))"
  by (induction i n base w acc rule: uint_loop.induct) (auto simp: Let_def)

text \<open>A 64-bit number has at most 20 decimal digits: the buffer is large enough.\<close>

lemma print_uint_digits:
  assumes "base = 10 \<or> base = 16"
  shows "\<exists>ds. print_uint n base pad width = replicate (nat (width - int (length ds))) pad @ ds
    \<and> number (unat base) ds = unat n"
proof -
  have "unat n < 2 ^ 64" using unsigned_less[of n] by simp
  also have "\<dots> \<le> unat base ^ 30" using assms by auto
  finally have "number (unat base) (fst (uint_loop (Suc 29) n base width [])) = unat n"
    using uint_loop_number[of base n 29 width "[]"] assms by (auto simp: number_def)
  then show ?thesis using uint_loop_width[of 30 n base width "[]"]
    by (cases "uint_loop 30 n base width []") (auto simp: print_uint_def numeral_eq_Suc)
qed

section \<open>The formatter ends\<close>

definition no_loop :: "'a res \<Rightarrow> bool" where
  "no_loop m \<longleftrightarrow> m \<noteq> Inl NoFuel"

lemma no_loop_simps [simp]: "no_loop (Inr x)" "no_loop (Inl e) \<longleftrightarrow> e \<noteq> NoFuel"
  by (auto simp: no_loop_def)

lemma no_loop_rmap [simp]: "no_loop (rmap f m) \<longleftrightarrow> no_loop m"
  by (cases m) (auto simp: no_loop_def)

lemma no_loop_rbind: "no_loop m \<Longrightarrow> (\<And>x. m = Inr x \<Longrightarrow> no_loop (f x)) \<Longrightarrow> no_loop (rbind m f)"
  by (cases m) auto

definition consumes :: "conv \<Rightarrow> bool" where
  "consumes cv \<longleftrightarrow> (\<forall>fmt args. no_loop (cv fmt args) \<and>
     (\<forall>fmt' args' out. cv fmt args = Inr (fmt', args', out) \<longrightarrow> length fmt' < length fmt))"

lemma leaves_no_loop [simp]: "no_loop (va_arg args)" "no_loop (puts s)" "no_loop (hex_dump i n buf)" "no_loop (attrs fmt l p)"
proof -
  show "no_loop (va_arg args)" by (cases args) auto
  show "no_loop (puts s)" by (induction s) auto
  show "no_loop (hex_dump i n buf)" by (induction i n buf rule: hex_dump.induct) auto
  show "no_loop (attrs fmt l p)" by (induction fmt l p rule: attrs.induct) auto
qed

lemma attrs_length: "attrs fmt l p = Inr (l', p', fmt') \<Longrightarrow> length fmt' \<le> length fmt"
  by (induction fmt l p rule: attrs.induct) (auto split: if_splits)

lemma convs_consume: "consumes (print_ptr str_at)" "consumes print_value"
  unfolding consumes_def print_ptr_def print_value_def
  by (auto split: list.splits if_splits intro!: no_loop_rbind)

lemma kprint_ptr_consumes: "consumes (kprint_ptr N)"
  unfolding consumes_def kprint_ptr_def case_prod_beta
  by (auto split: list.splits if_splits intro!: no_loop_rbind)

definition shrinks :: "nat \<Rightarrow> (u8 list \<times> u64 list \<times> u8 list) option res \<Rightarrow> bool" where
  "shrinks n m \<longleftrightarrow> no_loop m \<and> (\<forall>f a out. m = Inr (Some (f, a, out)) \<longrightarrow> length f \<le> n)"

lemma shrinks_if: "(b \<Longrightarrow> shrinks n x) \<Longrightarrow> shrinks n y \<Longrightarrow> shrinks n (if b then x else y)"
  by simp

lemma shrinks_arg: "(\<And>a as. shrinks n (g a as)) \<Longrightarrow> shrinks n (rbind (va_arg args) (\<lambda>(a, as). g a as))"
  by (cases args) (auto simp: shrinks_def)

lemma shrinks_conv:
  assumes "consumes cv" shows "shrinks (length fmt) (rmap Some (cv fmt args))"
proof -
  have "no_loop (cv fmt args)" "\<And>f a out. cv fmt args = Inr (f, a, out) \<Longrightarrow> length f < length fmt"
    using assms unfolding consumes_def by blast+
  then show ?thesis by (cases "cv fmt args") (auto simp: shrinks_def less_imp_le)
qed

lemma shrinks_puts: "length f \<le> n \<Longrightarrow> shrinks n (rbind (puts s) (\<lambda>out. Inr (Some (f, a, out))))"
  using leaves_no_loop(2)[of s] by (cases "puts s") (auto simp: shrinks_def)

lemma shrinks_Inr: "(case r of None \<Rightarrow> True | Some (f, a, out) \<Rightarrow> length f \<le> n) \<Longrightarrow> shrinks n (Inr r)"
  by (auto simp: shrinks_def)

lemma conversion_consumes:
  assumes "consumes pc" "\<forall>v. vc = Some v \<longrightarrow> consumes v"
  shows "no_loop (conversion str_at pc vc fmt l p args)"
    "conversion str_at pc vc fmt l p args = Inr (Some (fmt', args', out)) \<Longrightarrow> length fmt' < length fmt"
proof -
  have v: "consumes (the vc)" if "c \<and> vc \<noteq> None" for c using assms(2) that by auto
  have "shrinks (length f) (conversion str_at pc vc (c # f) l p args)" for c f
    unfolding conversion_def list.case
    by (intro shrinks_if shrinks_arg shrinks_conv[OF assms(1)] shrinks_conv[OF v] shrinks_puts shrinks_Inr) auto
  then have "no_loop (conversion str_at pc vc fmt l p args) \<and>
    (conversion str_at pc vc fmt l p args = Inr (Some (fmt', args', out)) \<longrightarrow> length fmt' < length fmt)"
    unfolding shrinks_def by (cases fmt) (simp add: conversion_def, fastforce simp: less_Suc_eq_le)
  then show "no_loop (conversion str_at pc vc fmt l p args)"
    "conversion str_at pc vc fmt l p args = Inr (Some (fmt', args', out)) \<Longrightarrow> length fmt' < length fmt" by auto
qed

lemma format_loop_ends:
  assumes "consumes pc" "\<forall>v. vc = Some v \<longrightarrow> consumes v"
  shows "length fmt < fuel \<Longrightarrow> no_loop (format_loop fuel str_at pc vc fmt args)"
proof (induction fuel arbitrary: fmt args)
  case (Suc fuel)
  note cc = conversion_consumes[OF assms]
  show ?case
  proof (cases fmt)
    case (Cons c f)
    have "no_loop (rbind (conversion str_at pc vc f1 l p args) (\<lambda>r.
        case r of None \<Rightarrow> Inr (bytes ''<invalid format>'')
        | Some (fmt, args, out) \<Rightarrow> rmap ((@) out) (format_loop fuel str_at pc vc fmt args)))"
      if "attrs f 1 (chr '' '') = Inr (l, p, f1)" for f1 l p
    proof (rule no_loop_rbind[OF cc(1)])
      fix r assume "conversion str_at pc vc f1 l p args = Inr r"
      then have "length f2 < fuel" if "r = Some (f2, a, out)" for f2 a out
        using cc(2)[where args = args and l = l and p = p and fmt = f1 and str_at = str_at] that
          attrs_length[OF \<open>attrs f 1 (chr '' '') = Inr (l, p, f1)\<close>] Suc.prems Cons by fastforce
      then show "no_loop (case r of None \<Rightarrow> Inr (bytes ''<invalid format>'')
        | Some (fmt, args, out) \<Rightarrow> rmap ((@) out) (format_loop fuel str_at pc vc fmt args))"
        by (auto split: option.split intro!: Suc.IH)
    qed
    then have "no_loop (rbind (attrs f 1 (chr '' '')) (\<lambda>(l, p, f1). rbind (conversion str_at pc vc f1 l p args) (\<lambda>r.
        case r of None \<Rightarrow> Inr (bytes ''<invalid format>'')
        | Some (fmt, args, out) \<Rightarrow> rmap ((@) out) (format_loop fuel str_at pc vc fmt args))))"
      by (intro no_loop_rbind) auto
    then show ?thesis using Cons Suc.prems Suc.IH[of f args] by simp
  qed simp
qed simp

section \<open>The formatter returns\<close>

definition stops :: "u8 list \<Rightarrow> u8 list \<Rightarrow> (int \<times> u8 \<times> u8 list) res \<Rightarrow> bool" where
  "stops s r m \<longleftrightarrow> (\<exists>l p s'. m = Inr (l, p, s' @ 0 # r) \<and> length s' \<le> length s \<and> set s' \<subseteq> set s)"

lemma stops_if: "stops s r x \<Longrightarrow> stops s r y \<Longrightarrow> stops s r (if b then x else y)"
  by simp

lemma attrs_terminated: "0 \<notin> set s \<Longrightarrow> stops s r (attrs (s @ 0 # r) l p)"
proof (induction s arbitrary: l p)
  case (Cons c s)
  then have IH: "stops (c # s) r (attrs (s @ 0 # r) l p)" for l p by (fastforce simp: stops_def)
  have stop: "stops (c # s) r (Inr (l, p, c # s @ 0 # r))"
    unfolding stops_def by (intro exI[where x = l] exI[where x = p] exI[where x = "c # s"]) simp
  show ?case unfolding append_Cons attrs.simps by (intro stops_if IH stop)
next
  case Nil
  have "attrs (0 # r) l p = Inr (l, p, [] @ 0 # r)" by (simp add: chr_def)
  then show ?case by (auto simp: stops_def)
qed

text \<open>A result that goes on behind the conversion, with at most one argument less.\<close>

definition goes_on :: "u8 list \<Rightarrow> u64 list \<Rightarrow> (u8 list \<times> u64 list \<times> u8 list) option res \<Rightarrow> bool" where
  "goes_on rest args m \<longleftrightarrow> m = Inr None \<or>
     (\<exists>args' out. m = Inr (Some (rest, args', out)) \<and> length args \<le> Suc (length args'))"

lemma goes_on_if: "goes_on rest args x \<Longrightarrow> (\<not> b \<Longrightarrow> goes_on rest args y) \<Longrightarrow> goes_on rest args (if b then x else y)"
  by simp

lemma goes_on_arg: "args \<noteq> [] \<Longrightarrow> goes_on rest args (rbind (va_arg args) (\<lambda>(a, as). Inr (Some (rest, as, g a as))))"
  by (cases args) (auto simp: goes_on_def)

lemma conversion_returns:
  assumes strs: "\<forall>a. \<exists>t. cstr (str_at a) t" and args: "args \<noteq> []" and c: "c \<noteq> chr ''p''" "c \<noteq> chr ''v''"
  shows "goes_on rest args (conversion str_at pc vc (c # rest) l p args)"
proof -
  have puts: "\<exists>out. puts (str_at a) = Inr out" for a
  proof -
    have "0 \<notin> set t \<Longrightarrow> \<exists>out. puts (t @ 0 # r) = Inr out" for t r by (induction t) auto
    then show ?thesis using strs by (metis cstrE)
  qed
  have s: "goes_on rest args (rbind (va_arg args) (\<lambda>(a, args). rbind (puts (str_at a)) (\<lambda>out. Inr (Some (rest, args, out)))))"
  proof -
    obtain a as where as: "args = a # as" using args by (cases args) auto
    obtain out where "puts (str_at a) = Inr out" using puts by blast
    then show ?thesis unfolding as by (auto simp: goes_on_def)
  qed
  have pv: "(c = chr ''v'' \<and> vc \<noteq> None) = False" "(c = chr ''p'') = False" using c by auto
  show ?thesis unfolding conversion_def list.case pv if_False
    by (intro goes_on_if goes_on_arg[OF args] s) (auto simp: goes_on_def)
qed

lemma format_loop_returns:
  assumes strs: "\<forall>a. \<exists>t. cstr (str_at a) t"
  shows "length s < fuel \<Longrightarrow> 0 \<notin> set s \<Longrightarrow> chr ''p'' \<notin> set s \<Longrightarrow> chr ''v'' \<notin> set s \<Longrightarrow> length s \<le> length args \<Longrightarrow>
    \<exists>out. format_loop fuel str_at pc vc (s @ 0 # r) args = Inr out"
proof (induction fuel arbitrary: s args)
  case (Suc fuel)
  show ?case
  proof (cases s)
    case (Cons c s1)
    show ?thesis
    proof (cases "c = chr ''%''")
      case True
      obtain l p s2 where a: "attrs (s1 @ 0 # r) 1 (chr '' '') = Inr (l, p, s2 @ 0 # r)" "length s2 \<le> length s1" "set s2 \<subseteq> set s1"
        using attrs_terminated[of s1 r 1 "chr '' ''"] Suc.prems(2) Cons by (auto simp: stops_def)
      have ne: "args \<noteq> []" using Suc.prems(5) Cons by auto
      have "\<exists>out. rbind (conversion str_at pc vc (s2 @ 0 # r) l p args) (\<lambda>x. case x of None \<Rightarrow> Inr (bytes ''<invalid format>'')
            | Some (fmt, args, out) \<Rightarrow> rmap ((@) out) (format_loop fuel str_at pc vc fmt args)) = Inr out"
      proof (cases s2)
        case Nil
        have "conversion str_at pc vc (0 # r) l p args = Inr None"
          by (simp add: conversion_def chr_def)
        then show ?thesis using Nil by simp
      next
        case (Cons d s3)
        have d: "d \<noteq> chr ''p''" "d \<noteq> chr ''v''" "set s3 \<subseteq> set s" "length s3 < length s2"
          using Cons a(3) Suc.prems(3,4) \<open>s = c # s1\<close> by auto
        have "goes_on (s3 @ 0 # r) args (conversion str_at pc vc (s2 @ 0 # r) l p args)"
          using conversion_returns[OF strs ne d(1,2), of "s3 @ 0 # r" pc vc l p] Cons by simp
        then consider "conversion str_at pc vc (s2 @ 0 # r) l p args = Inr None"
          | args' out where "conversion str_at pc vc (s2 @ 0 # r) l p args = Inr (Some (s3 @ 0 # r, args', out))"
              "length args \<le> Suc (length args')"
          unfolding goes_on_def by blast
        then show ?thesis
        proof cases
          case 2
          have "\<exists>out. format_loop fuel str_at pc vc (s3 @ 0 # r) args' = Inr out"
            by (rule Suc.IH) (use 2(2) d a(2) Suc.prems \<open>s = c # s1\<close> in auto)
          then show ?thesis using 2(1) by auto
        qed simp
      qed
      then show ?thesis using True Cons a(1) Suc.prems(2) by simp
    next
      case False
      have "\<exists>out. format_loop fuel str_at pc vc (s1 @ 0 # r) args = Inr out"
        by (rule Suc.IH) (use Suc.prems Cons in auto)
      then show ?thesis using False Cons Suc.prems(2) by auto
    qed
  qed simp
qed simp

section \<open>Properties\<close>

text \<open>
  C20: printed numbers can be read back. For every 64-bit number, every padding and every
  width the decimal and hexadecimal output of print_uint is some padding followed by
  digits that denote the number; the padding fills the output up to the width and is
  empty when the digits are longer. The 31-byte buffer never cuts off a digit.
\<close>

theorem print_uint_roundtrip:
  assumes "base = 10 \<or> base = 16"
  shows "\<exists>ds. print_uint n base pad width = replicate (nat (width - int (length ds))) pad @ ds
    \<and> number (unat base) ds = unat n"
  using assms by (rule print_uint_digits)

theorem print_uint_roundtrip_witness:
  "\<exists>ds. print_uint 0xffffffffffffffff 16 48 20 = replicate (nat (20 - int (length ds))) 48 @ ds
     \<and> number 16 ds = 18446744073709551615"
  using print_uint_roundtrip[of 16 "0xffffffffffffffff" 48 20] by simp



end
