(* ===== verification/Fpu.thy ===== *)
theory Fpu
  imports Scenario
begin

text \<open>
  The processor state that a context switch of kernel/arch/x64/thread.c changes, and the
  lazy switch of the FPU registers: a switch to a thread that does not own the FPU only
  sets the TS flag, and the first FPU instruction after it traps to
  \<open>x64_lazy_fpu_switch\<close>, which exchanges the registers.
\<close>

section \<open>The processor\<close>

text \<open>
  The kernel GS base is the current thread. \<open>xsave_mem\<close> holds the register image in each
  xsave area; an area that no thread owns holds none. The registers are of any type.
\<close>

record 'r cpu =
  cr3 :: addr
  gs_base :: addr
  user_gs_base :: addr
  rsp0 :: addr
  current_fpu_owner :: addr
  cr0_ts :: bool
  fpu :: 'r
  xsave_mem :: "addr \<Rightarrow> 'r option"

definition asm_xsave :: "addr \<Rightarrow> 'r cpu \<Rightarrow> 'r cpu res" where
  "asm_xsave a c = rbind (deref (xsave_mem c) a) (\<lambda>_. Inr (c\<lparr>xsave_mem := (xsave_mem c)(a \<mapsto> fpu c)\<rparr>))"

definition asm_xrstor :: "addr \<Rightarrow> 'r cpu \<Rightarrow> 'r cpu res" where
  "asm_xrstor a c = rbind (deref (xsave_mem c) a) (\<lambda>r. Inr (c\<lparr>fpu := r\<rparr>))"

text \<open>
  The exchange of the stacks by \<open>x64_switch\<close> is the change of the suspended frames in
  the kernel state; the processor registers of the switch are set here.
\<close>

definition arch_thread_switch :: "(addr \<Rightarrow> thread option) \<Rightarrow> addr \<Rightarrow> 'r cpu \<Rightarrow> 'r cpu res" where
  "arch_thread_switch ths next c =
     rbind (deref ths next) (\<lambda>n.
     let c = c\<lparr>cr3 := arch_cr3 n, gs_base := next, user_gs_base := arch_info n,
               rsp0 := kernel_stack n + of_nat KERNEL_STACK_SIZE\<rparr> in
     Inr (if current_fpu_owner c \<noteq> next then c\<lparr>cr0_ts := True\<rparr> else c))"

definition x64_lazy_fpu_switch :: "(addr \<Rightarrow> thread option) \<Rightarrow> 'r cpu \<Rightarrow> 'r cpu res" where
  "x64_lazy_fpu_switch ths c =
     (let current = gs_base c in
      rbind (if current_fpu_owner c \<noteq> 0
             then rbind (deref ths (current_fpu_owner c)) (\<lambda>o'. asm_xsave (xsave_area o') c)
             else Inr c) (\<lambda>c.
      rbind (deref ths current) (\<lambda>t.
      rbind (asm_xrstor (xsave_area t) c) (\<lambda>c.
      Inr (c\<lparr>current_fpu_owner := current, cr0_ts := False\<rparr>)))))"

section \<open>Threads that use the FPU\<close>

text \<open>
  What happens on the processor: a switch, or an FPU instruction of the current thread,
  which traps first when TS is set. The run collects the registers that the instructions
  find.
\<close>

datatype 'r fpu_event = SwitchTo addr | FpuInsn "'r \<Rightarrow> 'r"

fun fpu_run :: "(addr \<Rightarrow> thread option) \<Rightarrow> 'r fpu_event list \<Rightarrow> 'r cpu \<Rightarrow> ('r list \<times> 'r cpu) res" where
  "fpu_run ths [] c = Inr ([], c)"
| "fpu_run ths (SwitchTo n # es) c = rbind (arch_thread_switch ths n c) (fpu_run ths es)"
| "fpu_run ths (FpuInsn f # es) c =
     rbind (if cr0_ts c then x64_lazy_fpu_switch ths c else Inr c) (\<lambda>c.
     rmap (\<lambda>(seen, c'). (fpu c # seen, c')) (fpu_run ths es (c\<lparr>fpu := f (fpu c)\<rparr>)))"

text \<open>The specification: every thread has registers of its own.\<close>

fun fpu_spec :: "'r fpu_event list \<Rightarrow> addr \<Rightarrow> (addr \<Rightarrow> 'r) \<Rightarrow> 'r list" where
  "fpu_spec [] t v = []"
| "fpu_spec (SwitchTo n # es) t v = fpu_spec es n v"
| "fpu_spec (FpuInsn f # es) t v = v t # fpu_spec es t (v(t := f (v t)))"

definition fpu_view :: "(addr \<Rightarrow> thread option) \<Rightarrow> 'r cpu \<Rightarrow> addr \<Rightarrow> 'r" where
  "fpu_view ths c t = (if t = current_fpu_owner c then fpu c else the (xsave_mem c (xsave_area (the (ths t)))))"

text \<open>
  The state of the processor after the first switch: the current thread and the owner
  exist, each thread has a save area of its own, and TS is clear only while the owner runs.
\<close>

definition fpu_ok :: "(addr \<Rightarrow> thread option) \<Rightarrow> 'r cpu \<Rightarrow> bool" where
  "fpu_ok ths c \<longleftrightarrow> ths 0 = None \<and> gs_base c \<in> dom ths \<and> (current_fpu_owner c = 0 \<or> current_fpu_owner c \<in> dom ths)
     \<and> (\<not> cr0_ts c \<longrightarrow> current_fpu_owner c = gs_base c)
     \<and> (\<forall>t th. ths t = Some th \<longrightarrow> xsave_area th \<in> dom (xsave_mem c))
     \<and> (\<forall>t u th uh. ths t = Some th \<longrightarrow> ths u = Some uh \<longrightarrow> xsave_area th = xsave_area uh \<longrightarrow> t = u)"

lemma switch_view:
  assumes "fpu_ok ths c" "n \<in> dom ths"
  shows "\<exists>c'. arch_thread_switch ths n c = Inr c' \<and> fpu_ok ths c' \<and> gs_base c' = n \<and> fpu_view ths c' = fpu_view ths c"
proof -
  obtain th where th: "ths n = Some th" using assms(2) by auto
  let ?c = "c\<lparr>cr3 := arch_cr3 th, gs_base := n, user_gs_base := arch_info th,
      rsp0 := kernel_stack th + of_nat KERNEL_STACK_SIZE, cr0_ts := cr0_ts c \<or> current_fpu_owner c \<noteq> n\<rparr>"
  have "arch_thread_switch ths n c = Inr ?c" using th by (cases c) (simp add: arch_thread_switch_def deref_Some Let_def)
  moreover have "fpu_ok ths ?c" using assms by (auto simp: fpu_ok_def)
  moreover have "fpu_view ths ?c = fpu_view ths c" by (simp add: fpu_view_def fun_eq_iff)
  ultimately show ?thesis by simp
qed

lemma lazy_switch_view:
  assumes "fpu_ok ths c"
  shows "\<exists>c'. x64_lazy_fpu_switch ths c = Inr c' \<and> fpu_ok ths c' \<and> gs_base c' = gs_base c
    \<and> current_fpu_owner c' = gs_base c \<and> fpu c' = fpu_view ths c (gs_base c)
    \<and> (\<forall>t \<in> dom ths. fpu_view ths c' t = fpu_view ths c t)"
proof -
  obtain t where t: "ths (gs_base c) = Some t" using assms by (auto simp: fpu_ok_def)
  obtain r where r: "xsave_mem c (xsave_area t) = Some r" using assms t by (fastforce simp: fpu_ok_def)
  show ?thesis
  proof (cases "current_fpu_owner c = 0")
    case True
    with t r assms show ?thesis
      by (auto simp: x64_lazy_fpu_switch_def asm_xrstor_def deref_Some fpu_ok_def fpu_view_def)
  next
    case False
    then obtain o' where o': "ths (current_fpu_owner c) = Some o'" using assms by (auto simp: fpu_ok_def)
    obtain q where q: "xsave_mem c (xsave_area o') = Some q" using assms o' by (fastforce simp: fpu_ok_def)
    have inj: "xsave_area th = xsave_area o' \<longleftrightarrow> u = current_fpu_owner c" if "ths u = Some th" for u th
      using assms o' that by (auto simp: fpu_ok_def)
    let ?r = "if gs_base c = current_fpu_owner c then fpu c else r"
    define d where "d = c\<lparr>xsave_mem := (xsave_mem c)(xsave_area o' \<mapsto> fpu c), fpu := ?r, current_fpu_owner := gs_base c, cr0_ts := False\<rparr>"
    have "x64_lazy_fpu_switch ths c = Inr d"
      using False t r o' q inj[OF t]
      by (auto simp: d_def x64_lazy_fpu_switch_def asm_xrstor_def asm_xsave_def deref_Some deref_def)
    moreover have "fpu_ok ths d" using assms by (auto simp: d_def fpu_ok_def)
    moreover have "fpu_view ths d u = fpu_view ths c u" if "u \<in> dom ths" for u
      using that inj t r by (auto simp: d_def fpu_view_def)
    moreover have "gs_base d = gs_base c" "current_fpu_owner d = gs_base c" "fpu d = fpu_view ths c (gs_base c)"
      using r t by (auto simp: d_def fpu_view_def)
    ultimately show ?thesis by blast
  qed
qed

lemma insn_view:
  assumes "fpu_ok ths c" "current_fpu_owner c = gs_base c"
  shows "fpu_ok ths (c\<lparr>fpu := x\<rparr>)" "fpu_view ths (c\<lparr>fpu := x\<rparr>) = (fpu_view ths c)(gs_base c := x)"
  using assms by (auto simp: fpu_ok_def fpu_view_def fun_eq_iff)

lemma fpu_spec_cong:
  "t \<in> D \<Longrightarrow> (\<forall>u \<in> D. v u = w u) \<Longrightarrow> \<forall>n. SwitchTo n \<in> set es \<longrightarrow> n \<in> D \<Longrightarrow> fpu_spec es t v = fpu_spec es t w"
  by (induction es t v arbitrary: w rule: fpu_spec.induct) auto

lemma fpu_run_spec:
  "fpu_ok ths c \<Longrightarrow> \<forall>n. SwitchTo n \<in> set es \<longrightarrow> n \<in> dom ths \<Longrightarrow>
   \<exists>c'. fpu_run ths es c = Inr (fpu_spec es (gs_base c) (fpu_view ths c), c') \<and> fpu_ok ths c'"
proof (induction es arbitrary: c)
  case (Cons e es)
  show ?case
  proof (cases e)
    case (SwitchTo n)
    then have "n \<in> dom ths" using Cons.prems by simp
    from switch_view[OF Cons.prems(1) this] obtain c1 where
      c1: "arch_thread_switch ths n c = Inr c1" "fpu_ok ths c1" "gs_base c1 = n" "fpu_view ths c1 = fpu_view ths c" by blast
    then show ?thesis using Cons.IH[OF c1(2)] Cons.prems SwitchTo by auto
  next
    case (FpuInsn f)
    have "\<exists>c1. (if cr0_ts c then x64_lazy_fpu_switch ths c else Inr c) = Inr c1 \<and> fpu_ok ths c1 \<and> gs_base c1 = gs_base c
        \<and> current_fpu_owner c1 = gs_base c \<and> fpu c1 = fpu_view ths c (gs_base c)
        \<and> (\<forall>t \<in> dom ths. fpu_view ths c1 t = fpu_view ths c t)"
      using lazy_switch_view[OF Cons.prems(1)] Cons.prems(1) by (auto simp: fpu_ok_def fpu_view_def)
    then obtain c1 where c1: "(if cr0_ts c then x64_lazy_fpu_switch ths c else Inr c) = Inr c1" "fpu_ok ths c1"
      "gs_base c1 = gs_base c" "current_fpu_owner c1 = gs_base c1" "fpu c1 = fpu_view ths c (gs_base c)"
      "\<forall>t \<in> dom ths. fpu_view ths c1 t = fpu_view ths c t" by auto
    note i = insn_view[OF c1(2,4), of "f (fpu c1)"]
    have sw: "\<forall>n. SwitchTo n \<in> set es \<longrightarrow> n \<in> dom ths" using Cons.prems(2) by simp
    have g: "gs_base (c1\<lparr>fpu := f (fpu c1)\<rparr>) = gs_base c1" by simp
    obtain c2 where c2: "fpu_run ths es (c1\<lparr>fpu := f (fpu c1)\<rparr>) =
        Inr (fpu_spec es (gs_base c1) ((fpu_view ths c1)(gs_base c1 := f (fpu c1))), c2)" "fpu_ok ths c2"
      using Cons.IH[OF i(1) sw] unfolding i(2) g by blast
    have "gs_base c \<in> dom ths" using Cons.prems(1) by (simp add: fpu_ok_def)
    then have "fpu_spec es (gs_base c1) ((fpu_view ths c1)(gs_base c1 := f (fpu c1))) =
        fpu_spec es (gs_base c) ((fpu_view ths c)(gs_base c := f (fpu_view ths c (gs_base c))))"
      using c1 Cons.prems(2) by (auto intro!: fpu_spec_cong[where D = "dom ths"])
    with c1 c2 FpuInsn show ?thesis by simp
  qed
qed simp

section \<open>Properties\<close>



text \<open>
  C38: the FPU owner outlives its thread. thread_destroy does not reset the owner of the
  FPU, so that the next thread that uses the FPU makes the kernel read the control block
  of the destroyed thread.
\<close>

theorem destroyed_fpu_owner_dangles:
  assumes "thread_destroy k t = Inr k'" "current_fpu_owner c = t" "t \<noteq> 0"
  shows "x64_lazy_fpu_switch (threads k') c = Inl Fault"
proof -
  have "returns (\<lambda>k'. threads k' t = None) (thread_destroy k t)"
    unfolding thread_destroy_def Let_def by (intro returns_rbind_eq) simp
  then have "threads k' t = None" using assms(1) by (rule returnsD)
  then show ?thesis using assms by (simp add: x64_lazy_fpu_switch_def deref_None)
qed

theorem destroyed_fpu_owner_dangles_witness:
  "\<exists>k'. thread_destroy sc_kernel 0x200 = Inr k'
     \<and> x64_lazy_fpu_switch (threads k')
          \<lparr>cr3 = 0, gs_base = 0x100, user_gs_base = 0, rsp0 = 0, current_fpu_owner = 0x200, cr0_ts = True, fpu = (),
           xsave_mem = \<lambda>_. Some ()\<rparr> = Inl Fault"
proof -
  obtain k' where k': "thread_destroy sc_kernel 0x200 = Inr k'"
    by (simp add: thread_destroy_def sc_defs kdefs deref_def list_del_def kfree_page_def kfree_object_def
        arch_thread_destroy_def table_free_def store_slot_def)
  from destroyed_fpu_owner_dangles[OF k', of "\<lparr>cr3 = 0, gs_base = 0x100, user_gs_base = 0, rsp0 = 0,
      current_fpu_owner = 0x200, cr0_ts = True, fpu = (), xsave_mem = \<lambda>_. Some ()\<rparr>"] k'
  show ?thesis by simp
qed

end
