(* ===== verification/Screen.thy ===== *)
theory Screen
  imports Message
begin

text \<open>
  The text screen of kernel/arch/x64/screen.c: \<open>x64_screen_putchar\<close> on the video memory
  of the 80 by 25 text mode, with the cursor registers of the display controller. The
  abstract screen is the log of all rows ever written, of which the last 25 are visible.
\<close>

section \<open>The driver\<close>

definition COLOR :: u32 where "COLOR = 0x03"
definition TAB_SIZE :: nat where "TAB_SIZE = 4"
definition SCREEN_HEIGHT :: nat where "SCREEN_HEIGHT = 25"
definition SCREEN_WIDTH :: nat where "SCREEN_WIDTH = 80"

text \<open>
  The static variables of the function, the visible part of the video memory, and the
  registers of the controller: port 0x3d4 selects one, port 0x3d5 writes it.
\<close>

record screen =
  scr_x :: nat
  scr_y :: nat
  in_esc :: bool
  vram :: "u16 list"
  crtc_index :: u8
  crtc :: "u8 \<Rightarrow> u8"

definition asm_out8 :: "u16 \<Rightarrow> u8 \<Rightarrow> screen \<Rightarrow> screen" where
  "asm_out8 port value s =
     (if port = 0x3d4 then s\<lparr>crtc_index := value\<rparr>
      else if port = 0x3d5 then s\<lparr>crtc := (crtc s)(crtc_index s := value)\<rparr>
      else s)"

text \<open>Copying and clearing of cells; what lies outside of the visible memory faults.\<close>

definition copy_cells :: "nat \<Rightarrow> nat \<Rightarrow> nat \<Rightarrow> u16 list \<Rightarrow> u16 list res" where
  "copy_cells dst src n v =
     (if dst + n \<le> length v \<and> src + n \<le> length v
      then Inr (take dst v @ take n (drop src v) @ drop (dst + n) v) else Inl Fault)"

definition clear_cells :: "nat \<Rightarrow> nat \<Rightarrow> u16 list \<Rightarrow> u16 list res" where
  "clear_cells dst n v =
     (if dst + n \<le> length v then Inr (take dst v @ replicate n 0 @ drop (dst + n) v) else Inl Fault)"

function scroll_loop :: "nat \<Rightarrow> nat \<Rightarrow> u16 list \<Rightarrow> u16 list res" where
  "scroll_loop diff from v =
     (if from < SCREEN_HEIGHT then
        rbind (copy_cells ((from - diff) * SCREEN_WIDTH) (from * SCREEN_WIDTH) SCREEN_WIDTH v) (scroll_loop diff (from + 1))
      else Inr v)"
  by pat_completeness auto
termination by (relation "measure (\<lambda>(diff, from, v). SCREEN_HEIGHT - from)") auto

declare scroll_loop.simps [simp del]

definition scroll :: "screen \<Rightarrow> screen res" where
  "scroll s =
     (if scr_y s \<ge> SCREEN_HEIGHT then
        let diff = scr_y s - SCREEN_HEIGHT + 1 in
        rbind (scroll_loop diff diff (vram s)) (\<lambda>v.
        rbind (clear_cells ((SCREEN_HEIGHT - diff) * SCREEN_WIDTH) (SCREEN_WIDTH * diff) v) (\<lambda>v.
        Inr (s\<lparr>vram := v, scr_y := SCREEN_HEIGHT - 1\<rparr>)))
      else Inr s)"

text \<open>The character is a signed char: a byte from 0x80 on sets all the bits of the attribute.\<close>

definition put_cell :: "u8 \<Rightarrow> screen \<Rightarrow> screen res" where
  "put_cell ch s =
     (let i = scr_y s * SCREEN_WIDTH + scr_x s in
      if i < length (vram s)
      then Inr (s\<lparr>vram := (vram s)[i := ucast (push_bit 8 COLOR OR scast ch)], scr_x := scr_x s + 1\<rparr>)
      else Inl Fault)"

definition move_cursor :: "screen \<Rightarrow> screen" where
  "move_cursor s =
     (let pos = scr_y s * SCREEN_WIDTH + scr_x s in
      asm_out8 0x3d5 (of_nat (pos div 256)) (asm_out8 0x3d4 0x0e (asm_out8 0x3d5 (of_nat pos) (asm_out8 0x3d4 0x0f s))))"

text \<open>
  The body of the function. The tab branch calls the function for spaces, which do not
  take that branch again; it is an argument here.
\<close>

definition putchar_body :: "(screen \<Rightarrow> screen res) \<Rightarrow> screen \<Rightarrow> u8 \<Rightarrow> screen res" where
  "putchar_body put_tab s ch =
     (if in_esc s then Inr (s\<lparr>in_esc := ch \<noteq> 0x6d\<rparr>)
      else if ch = 0x1b then Inr (s\<lparr>in_esc := True\<rparr>)
      else
        let s = (if ch = 0x0a \<or> scr_x s \<ge> SCREEN_WIDTH then s\<lparr>scr_x := 0, scr_y := scr_y s + 1\<rparr> else s) in
        rbind (scroll s) (\<lambda>s.
        rbind (if ch = 0x09 then put_tab s
               else if ch \<noteq> 0x0a \<and> ch \<noteq> 0x0d then put_cell ch s
               else Inr s) (\<lambda>s.
        Inr (move_cursor s))))"

fun put_spaces :: "nat \<Rightarrow> screen \<Rightarrow> screen res" where
  "put_spaces 0 s = Inr s"
| "put_spaces (Suc i) s = rbind (putchar_body Inr s 0x20) (put_spaces i)"

definition x64_screen_putchar :: "screen \<Rightarrow> u8 \<Rightarrow> screen res" where
  "x64_screen_putchar s ch =
     putchar_body (\<lambda>s. put_spaces (TAB_SIZE - scr_x s mod TAB_SIZE) s) s ch"

fun screen_puts :: "screen \<Rightarrow> u8 list \<Rightarrow> screen res" where
  "screen_puts s [] = Inr s"
| "screen_puts s (ch # chs) = rbind (x64_screen_putchar s ch) (\<lambda>s. screen_puts s chs)"

section \<open>The abstract screen\<close>

text \<open>The rows above the cursor row, and the cursor row up to the cursor.\<close>

type_synonym row_log = "u16 list list \<times> u16 list"

definition cell_of :: "u8 \<Rightarrow> u16" where "cell_of ch = ucast (push_bit 8 COLOR OR scast ch)"

definition log_feed :: "bool \<Rightarrow> row_log \<Rightarrow> row_log" where
  "log_feed newline l = (if newline \<or> length (snd l) \<ge> 80 then (fst l @ [snd l], []) else l)"

definition log_char :: "u8 \<Rightarrow> row_log \<Rightarrow> row_log" where
  "log_char ch l =
     (let (done_rows, row) = log_feed (ch = 0x0a) l in
      if ch = 0x09 then (done_rows, row @ replicate (4 - length row mod 4) (cell_of 0x20))
      else if ch = 0x0a \<or> ch = 0x0d then (done_rows, row)
      else (done_rows, row @ [cell_of ch]))"

text \<open>Escape sequences, which end with the letter m, leave no trace.\<close>

fun log_text :: "bool \<Rightarrow> u8 list \<Rightarrow> row_log \<Rightarrow> row_log" where
  "log_text esc [] l = l"
| "log_text True (ch # chs) l = log_text (ch \<noteq> 0x6d) chs l"
| "log_text False (ch # chs) l = (if ch = 0x1b then log_text True chs l else log_text False chs (log_char ch l))"

definition pad_row :: "u16 list \<Rightarrow> u16 list" where "pad_row r = r @ replicate (80 - length r) 0"

definition visible :: "row_log \<Rightarrow> u16 list list" where
  "visible l = drop (length (fst l) - 24) (fst l) @ [snd l]"

definition display :: "row_log \<Rightarrow> u16 list" where
  "display l = concat (map pad_row (visible l)) @ replicate (80 * (25 - length (visible l))) 0"

text \<open>The driver state that shows a log.\<close>

definition displays :: "screen \<Rightarrow> row_log \<Rightarrow> bool" where
  "displays s l \<longleftrightarrow> (\<forall>r \<in> set (fst l). length r \<le> 80) \<and> length (snd l) \<le> 80
     \<and> scr_x s = length (snd l) \<and> scr_y s = min 24 (length (fst l)) \<and> vram s = display l"

section \<open>Refinement\<close>

lemmas screen_consts = SCREEN_WIDTH_def SCREEN_HEIGHT_def

lemma length_pad_row [simp]: "length r \<le> 80 \<Longrightarrow> length (pad_row r) = 80"
  by (simp add: pad_row_def)

lemma length_visible: "length (visible l) = min 24 (length (fst l)) + 1"
  by (auto simp: visible_def)

lemma length_padded_rows: "\<forall>r \<in> set rs. length r \<le> 80 \<Longrightarrow> length (concat (map pad_row rs)) = 80 * length rs"
  by (induction rs) auto

lemma visible_rows: "\<forall>r \<in> set (fst l). length r \<le> 80 \<Longrightarrow> length (snd l) \<le> 80 \<Longrightarrow> \<forall>r \<in> set (visible l). length r \<le> 80"
  by (auto simp: visible_def dest: in_set_dropD)

lemma displays_length: "displays s l \<Longrightarrow> length (vram s) = 2000"
  using length_padded_rows[OF visible_rows[of l]] length_visible[of l] by (auto simp: displays_def display_def)

lemma scroll_loop_one:
  "1 \<le> from \<Longrightarrow> from \<le> 25 \<Longrightarrow> length v = 2000 \<Longrightarrow>
   scroll_loop 1 from v = Inr (take (80 * (from - 1)) v @ drop (80 * from) v @ drop 1920 v)"
proof (induction "25 - from" arbitrary: "from" v)
  case 0
  then have "from = 25" by simp
  with 0 show ?case by (subst scroll_loop.simps) (simp add: screen_consts)
next
  case (Suc n)
  define w where "w = take ((from - 1) * 80) v @ take 80 (drop (from * 80) v) @ drop ((from - 1) * 80 + 80) v"
  obtain f where f: "from = Suc f" "f < 24" using Suc by (cases "from") auto
  have c: "copy_cells (f * 80) (from * 80) 80 v = Inr w"
    using Suc f by (simp add: copy_cells_def w_def)
  have l: "length w = 2000" using Suc f by (simp add: w_def)
  have "scroll_loop 1 from v = scroll_loop 1 (from + 1) w"
    using f c by (subst scroll_loop.simps) (simp add: screen_consts)
  also have "\<dots> = Inr (take (80 * from) w @ drop (80 * (from + 1)) w @ drop 1920 w)"
    using Suc.hyps(1)[of "from + 1" w] Suc.hyps(2) f l by simp
  also have "take (80 * from) w = take (80 * f) v @ take 80 (drop (80 * from) v)"
    using Suc.prems f by (simp add: w_def min_def mult.commute) arith
  also have "drop (80 * (from + 1)) w = drop 80 (drop (80 * from) v)"
    using Suc.prems f by (simp add: w_def mult.commute add.commute)
  also have "drop 1920 w = drop 1920 v"
    using Suc.prems f by (simp add: w_def)
  also have "(take (80 * f) v @ take 80 (drop (80 * from) v)) @ drop 80 (drop (80 * from) v) @ drop 1920 v =
      take (80 * (from - 1)) v @ drop (80 * from) v @ drop 1920 v"
    using append_take_drop_id[of 80 "drop (80 * from) v"] f(1) by (simp del: drop_drop)
  finally show ?case .
qed

lemma scroll_full:
  assumes "scr_y s = 25" "length (vram s) = 2000"
  shows "scroll s = Inr (s\<lparr>vram := drop 80 (vram s) @ replicate 80 0, scr_y := 24\<rparr>)"
  using assms scroll_loop_one[of 1 "vram s"]
  by (simp add: scroll_def clear_cells_def screen_consts)

lemma display_feed_short:
  "length done_rows < 24 \<Longrightarrow> display (done_rows @ [row], []) = display (done_rows, row)"
  by (simp add: display_def visible_def pad_row_def flip: replicate_add)

lemma display_feed_long:
  assumes "24 \<le> length done_rows" "\<forall>r \<in> set done_rows. length r \<le> 80"
  shows "display (done_rows @ [row], []) = drop 80 (display (done_rows, row)) @ replicate 80 0"
proof -
  let ?n = "length done_rows - 24"
  have "?n < length done_rows" using assms by simp
  then have d: "drop ?n done_rows = done_rows ! ?n # drop (Suc ?n) done_rows" by (rule Cons_nth_drop_Suc[symmetric])
  have "length (done_rows ! ?n) \<le> 80" using assms \<open>?n < length done_rows\<close> by simp
  moreover have "length done_rows - 23 = Suc ?n" using assms(1) by simp
  ultimately show ?thesis using assms(1)
    by (simp add: display_def visible_def pad_row_def[of "[]"] d)
qed

lemma screen_feed:
  assumes "displays s l"
  shows "\<exists>s'. scroll (if nl \<or> scr_x s \<ge> SCREEN_WIDTH then s\<lparr>scr_x := 0, scr_y := scr_y s + 1\<rparr> else s) = Inr s'
     \<and> displays s' (log_feed nl l) \<and> in_esc s' = in_esc s"
proof -
  obtain done_rows row where l: "l = (done_rows, row)" by (cases l)
  note d = assms[unfolded displays_def l, simplified]
  show ?thesis
  proof (cases "nl \<or> scr_x s \<ge> SCREEN_WIDTH")
    case False
    then show ?thesis using assms d l by (auto simp: scroll_def log_feed_def screen_consts)
  next
    case True
    then have feed: "log_feed nl l = (done_rows @ [row], [])" using d l by (auto simp: log_feed_def screen_consts)
    show ?thesis
    proof (cases "length done_rows < 24")
      case short: True
      then show ?thesis using True d feed display_feed_short[OF short, of row]
        by (auto simp: scroll_def displays_def screen_consts)
    next
      case long: False
      let ?s = "s\<lparr>scr_x := 0, scr_y := scr_y s + 1\<rparr>"
      have "scroll ?s = Inr (?s\<lparr>vram := drop 80 (vram ?s) @ replicate 80 0, scr_y := 24\<rparr>)"
        using long d displays_length[OF assms] by (intro scroll_full) auto
      with True long d feed display_feed_long[of done_rows row] show ?thesis
        by (auto simp: displays_def)
    qed
  qed
qed

lemma screen_cell:
  assumes "displays s (done_rows, row)" "length row < 80"
  shows "\<exists>s'. put_cell ch s = Inr s' \<and> displays s' (done_rows, row @ [cell_of ch]) \<and> in_esc s' = in_esc s"
proof -
  note d = assms(1)[unfolded displays_def, simplified]
  define pre where "pre = concat (map pad_row (drop (length done_rows - 24) done_rows))"
  define post where "post = replicate (80 * (24 - length done_rows)) (0 :: u16)"
  have disp: "display (done_rows, r) = pre @ pad_row r @ post" for r
    by (simp add: display_def visible_def pre_def post_def)
  have pre: "length pre = 80 * min 24 (length done_rows)"
  proof -
    have "\<forall>r \<in> set (drop (length done_rows - 24) done_rows). length r \<le> 80" using d by (auto dest: in_set_dropD)
    from length_padded_rows[OF this] show ?thesis unfolding pre_def by (simp add: min_def)
  qed
  have "replicate (80 - length row) (0 :: u16) = 0 # replicate (80 - Suc (length row)) 0"
    using assms(2) by (metis Suc_diff_Suc replicate_Suc)
  then have "(pad_row row @ post)[length row := c] = pad_row (row @ [c]) @ post" for c
    by (simp add: pad_row_def list_update_append)
  then have "(display (done_rows, row))[80 * min 24 (length done_rows) + length row := c] = display (done_rows, row @ [c])" for c
    using pre by (simp add: disp list_update_append)
  moreover have "80 * min 24 (length done_rows) + length row < 2000" using assms(2) by simp
  ultimately show ?thesis using d assms(2) displays_length[OF assms(1)]
    by (auto simp: put_cell_def displays_def cell_of_def screen_consts mult.commute Let_def)
qed

lemma displays_cong: "scr_x s' = scr_x s \<Longrightarrow> scr_y s' = scr_y s \<Longrightarrow> vram s' = vram s \<Longrightarrow> displays s' l = displays s l"
  by (simp add: displays_def)

lemma move_cursor_keeps [simp]:
  "scr_x (move_cursor s) = scr_x s" "scr_y (move_cursor s) = scr_y s" "vram (move_cursor s) = vram s"
  "in_esc (move_cursor s) = in_esc s" "displays (move_cursor s) l = displays s l"
  by (simp_all add: move_cursor_def asm_out8_def Let_def displays_def)

text \<open>The cursor of the display controller.\<close>

definition cursor :: "screen \<Rightarrow> nat" where
  "cursor s = 256 * unat (crtc s 0x0e) + unat (crtc s 0x0f)"

lemma cursor_moved:
  assumes "scr_y s * 80 + scr_x s < 65536"
  shows "cursor (move_cursor s) = scr_y s * 80 + scr_x s"
proof -
  have "(scr_y s * 80 + scr_x s) div 256 < 256" using assms by (simp add: less_mult_imp_div_less)
  then show ?thesis
    by (simp add: cursor_def move_cursor_def asm_out8_def Let_def screen_consts unat_of_nat del: of_nat_add of_nat_mult)
qed

lemma put_space:
  assumes "displays s (done_rows, row)" "length row < 80" "\<not> in_esc s"
  shows "\<exists>s'. putchar_body t s 0x20 = Inr s' \<and> displays s' (done_rows, row @ [cell_of 0x20]) \<and> \<not> in_esc s'"
proof -
  obtain s1 where "scroll s = Inr s1" "displays s1 (done_rows, row)" "in_esc s1 = in_esc s"
    using screen_feed[OF assms(1), of False] assms by (auto simp: log_feed_def displays_def screen_consts)
  then show ?thesis using screen_cell[of s1 done_rows row "0x20"] assms
    by (auto simp: putchar_body_def displays_def screen_consts)
qed

lemma put_spaces:
  "displays s (done_rows, row) \<Longrightarrow> length row + n \<le> 80 \<Longrightarrow> \<not> in_esc s \<Longrightarrow>
   \<exists>s'. put_spaces n s = Inr s' \<and> displays s' (done_rows, row @ replicate n (cell_of 0x20)) \<and> \<not> in_esc s'"
proof (induction n arbitrary: s row)
  case (Suc n)
  obtain s1 where s1: "putchar_body Inr s 0x20 = Inr s1" "displays s1 (done_rows, row @ [cell_of 0x20])" "\<not> in_esc s1"
    using put_space[of s done_rows row Inr] Suc.prems by auto
  show ?case using Suc.IH[OF s1(2)] s1 Suc.prems by auto
qed simp

lemma screen_char:
  assumes "displays s l" "\<not> in_esc s" "ch \<noteq> 0x1b"
  shows "\<exists>s'. x64_screen_putchar s ch = Inr s' \<and> displays s' (log_char ch l) \<and> \<not> in_esc s' \<and> cursor s' = scr_y s' * 80 + scr_x s'"
proof -
  obtain s1 where s1: "scroll (if ch = 0x0a \<or> scr_x s \<ge> SCREEN_WIDTH then s\<lparr>scr_x := 0, scr_y := scr_y s + 1\<rparr> else s) = Inr s1"
    "displays s1 (log_feed (ch = 0x0a) l)" "in_esc s1 = in_esc s" using screen_feed[OF assms(1)] by blast
  obtain done_rows row where feed: "log_feed (ch = 0x0a) l = (done_rows, row)" by force
  have len: "length row < 80" using feed assms(1) by (auto simp: log_feed_def displays_def split: if_splits)
  have x: "scr_x s1 = length row" using s1(2) feed by (simp add: displays_def)
  have "\<exists>s2. (if ch = 0x09 then put_spaces (TAB_SIZE - scr_x s1 mod TAB_SIZE) s1
              else if ch \<noteq> 0x0a \<and> ch \<noteq> 0x0d then put_cell ch s1 else Inr s1) = Inr s2
        \<and> displays s2 (log_char ch l) \<and> \<not> in_esc s2"
  proof (cases "ch = 0x09")
    case True
    have "length row + (4 - length row mod 4) \<le> 80" using len by presburger
    then show ?thesis using put_spaces[of s1 done_rows row "4 - length row mod 4"] s1 feed assms(2) True x
      by (auto simp: log_char_def TAB_SIZE_def)
  next
    case False
    then show ?thesis using screen_cell[of s1 done_rows row ch] len s1 feed assms(2) by (auto simp: log_char_def)
  qed
  then obtain s2 where s2: "(if ch = 0x09 then put_spaces (TAB_SIZE - scr_x s1 mod TAB_SIZE) s1
              else if ch \<noteq> 0x0a \<and> ch \<noteq> 0x0d then put_cell ch s1 else Inr s1) = Inr s2"
    "displays s2 (log_char ch l)" "\<not> in_esc s2" by blast
  have "x64_screen_putchar s ch = Inr (move_cursor s2)"
    using assms(2,3) s1(1) s2(1) by (simp add: x64_screen_putchar_def putchar_body_def Let_def del: put_spaces.simps)
  moreover have "scr_y s2 * 80 + scr_x s2 < 65536" using s2(2) by (auto simp: displays_def)
  ultimately show ?thesis using s2 cursor_moved[of s2] by simp
qed

lemma screen_puts_log:
  "displays s l \<Longrightarrow> \<exists>s'. screen_puts s chs = Inr s' \<and> displays s' (log_text (in_esc s) chs l)"
proof (induction chs arbitrary: s l)
  case (Cons ch chs)
  show ?case
  proof (cases "in_esc s \<or> ch = 0x1b")
    case True
    define s1 where "s1 = s\<lparr>in_esc := in_esc s \<longrightarrow> ch \<noteq> 0x6d\<rparr>"
    have "x64_screen_putchar s ch = Inr s1" "displays s1 l" "log_text (in_esc s) (ch # chs) l = log_text (in_esc s1) chs l"
      using True Cons.prems by (cases "in_esc s"; simp add: x64_screen_putchar_def putchar_body_def s1_def displays_def)+
    then show ?thesis using Cons.IH[of s1 l] by auto
  next
    case False
    then show ?thesis using screen_char[OF Cons.prems, of ch] Cons.IH by fastforce
  qed
qed simp

section \<open>Properties\<close>

text \<open>
  C30: the screen is a scrolling terminal. From a screen that shows a log of rows, any
  text is written without a write outside of the video memory, and the screen then shows
  the last 25 rows of the log of the whole text, where rows are broken at newlines and
  after 80 columns, tabs are expanded and escape sequences removed. The cursor stays on
  the screen (at most one column beyond the end of its row).
\<close>

theorem screen_refines_log:
  assumes "displays s l"
  shows "\<exists>s'. screen_puts s chs = Inr s' \<and> vram s' = display (log_text (in_esc s) chs l)
    \<and> length (vram s') = 2000 \<and> scr_x s' \<le> 80 \<and> scr_y s' < 25"
proof -
  obtain s' where s': "screen_puts s chs = Inr s'" "displays s' (log_text (in_esc s) chs l)"
    using screen_puts_log[OF assms] by blast
  with displays_length[OF s'(2)] show ?thesis by (auto simp: displays_def)
qed

theorem screen_refines_log_witness:
  "\<exists>s'. screen_puts \<lparr>scr_x = 0, scr_y = 0, in_esc = False, vram = replicate 2000 0, crtc_index = 0, crtc = \<lambda>_. 0\<rparr>
          [0x61, 0x0a, 0x62] = Inr s'
     \<and> vram s' = display ([[cell_of 0x61]], [cell_of 0x62])"
proof -
  let ?s = "\<lparr>scr_x = 0, scr_y = 0, in_esc = False, vram = replicate 2000 0, crtc_index = 0, crtc = \<lambda>_. 0\<rparr>"
  have "displays ?s ([], [])" by (simp add: displays_def display_def visible_def pad_row_def flip: replicate_add)
  from screen_refines_log[OF this, of "[0x61, 0x0a, 0x62]"] show ?thesis
    by (simp add: log_char_def log_feed_def del: screen_puts.simps) blast
qed

end
