(* ===== verification/Buddy.thy ===== *)
theory Buddy
  imports CString
begin

text \<open>
  The physical page allocator of the memory manager, servers/memmgr/alloc_pages.c.
  A zone has an array of page descriptors, addressed by page frame number, and one
  free list for each order; the free lists are lists of page frame numbers (the
  refinement of the intrusive lists is theory ListHead). A page that is put on a
  free list while it is on one would corrupt both lists: the model stops with a
  \<open>Fault\<close> there.
\<close>

section \<open>Zones\<close>

definition MAX_NUM_ZONES :: nat where "MAX_NUM_ZONES = 16"
definition MAX_PAGE_ORDER :: nat where "MAX_PAGE_ORDER = 12"
definition INTERNAL_PAGES_PERC :: nat where "INTERNAL_PAGES_PERC = 1"
definition FREE_MEMORY_START :: u64 where "FREE_MEMORY_START = 0x04000000"

record page =
  pg_in_use :: bool
  pg_order :: int

record zone =
  zone_id :: nat
  free_lists :: "nat list list"
  pages :: "page list"
  num_pages :: nat
  base_addr :: u64

definition compute_buddy_pfn :: "nat \<Rightarrow> nat \<Rightarrow> nat" where
  "compute_buddy_pfn pfn order = pfn XOR push_bit order 1"

definition compute_merged_pfn :: "nat \<Rightarrow> nat \<Rightarrow> nat" where
  "compute_merged_pfn pfn buddy_pfn = pfn AND buddy_pfn"

text \<open>A pointer to a page descriptor is its index.\<close>

definition pfn_to_page :: "zone \<Rightarrow> nat \<Rightarrow> nat res" where
  "pfn_to_page z pfn = rbind (require Assertion (pfn < num_pages z)) (\<lambda>_. Inr pfn)"

definition paddr_to_pfn :: "zone \<Rightarrow> u64 \<Rightarrow> nat res" where
  "paddr_to_pfn z paddr =
     rbind (require Assertion (paddr AND (of_nat PAGE_SIZE - 1) = 0)) (\<lambda>_.
     Inr (unat (drop_bit (unat (ulllog2 (of_nat PAGE_SIZE) - 1)) (paddr - base_addr z))))"

text \<open>The number of pages is read from the first zone, whatever the zone.\<close>

definition is_paddr_in_zone :: "zone list \<Rightarrow> nat \<Rightarrow> u64 \<Rightarrow> bool res" where
  "is_paddr_in_zone zones i paddr =
     rbind (load zones i) (\<lambda>z.
     rbind (load zones 0) (\<lambda>z0.
     if base_addr z \<le> paddr then rmap (\<lambda>pfn. pfn < num_pages z0) (paddr_to_pfn z paddr) else Inr False))"

definition page_to_paddr :: "zone \<Rightarrow> nat \<Rightarrow> u64 res" where
  "page_to_paddr z page =
     rbind (require Assertion (page < num_pages z)) (\<lambda>_. Inr (base_addr z + of_nat (page * PAGE_SIZE)))"

definition page_to_pfn :: "zone \<Rightarrow> nat \<Rightarrow> nat res" where
  "page_to_pfn z page = rbind (page_to_paddr z page) (paddr_to_pfn z)"

section \<open>Allocation\<close>

definition get_list :: "zone \<Rightarrow> int \<Rightarrow> nat list res" where
  "get_list z order = rbind (require Fault (0 \<le> order)) (\<lambda>_. load (free_lists z) (nat order))"

definition put_list :: "zone \<Rightarrow> int \<Rightarrow> nat list \<Rightarrow> zone res" where
  "put_list z order l =
     rbind (require Fault (0 \<le> order)) (\<lambda>_.
     rbind (store (free_lists z) (nat order) l) (\<lambda>ls. Inr (z\<lparr>free_lists := ls\<rparr>)))"

definition set_page :: "zone \<Rightarrow> nat \<Rightarrow> (page \<Rightarrow> page) \<Rightarrow> zone res" where
  "set_page z i f =
     rbind (load (pages z) i) (\<lambda>p. rbind (store (pages z) i (f p)) (\<lambda>ps. Inr (z\<lparr>pages := ps\<rparr>)))"

definition alloc_from_zone :: "zone \<Rightarrow> int \<Rightarrow> (nat option \<times> zone) res" where
  "alloc_from_zone z order =
     rbind (get_list z order) (\<lambda>fl.
     case fl of
       [] \<Rightarrow> Inr (None, z)
     | page # rest \<Rightarrow>
         rbind (put_list z order rest) (\<lambda>z.
         rbind (load (pages z) page) (\<lambda>p.
         rbind (require Assertion (pg_order p = order)) (\<lambda>_.
         rbind (require Assertion (\<not> pg_in_use p)) (\<lambda>_.
         rbind (set_page z page (\<lambda>p. p\<lparr>pg_in_use := True\<rparr>)) (\<lambda>z. Inr (Some page, z)))))))"

text \<open>
  Pushing a page that is already on a free list would tie the lists together; the model
  stops there with a fault.
\<close>

definition add_to_free_list :: "zone \<Rightarrow> nat \<Rightarrow> int \<Rightarrow> zone res" where
  "add_to_free_list z page order =
     rbind (require Assertion (order \<ge> 0)) (\<lambda>_.
     rbind (set_page z page (\<lambda>p. p\<lparr>pg_in_use := False, pg_order := order\<rparr>)) (\<lambda>z.
     rbind (require Fault (\<forall>l \<in> set (free_lists z). page \<notin> set l)) (\<lambda>_.
     rbind (get_list z order) (\<lambda>l. put_list z order (l @ [page])))))"

text \<open>The first non-empty free list from \<open>order\<close> on, at most \<open>n\<close> orders away.\<close>

fun find_order :: "zone \<Rightarrow> nat \<Rightarrow> int \<Rightarrow> int option res" where
  "find_order z 0 order = Inr None"
| "find_order z (Suc n) order =
     rbind (get_list z order) (\<lambda>l. if l \<noteq> [] then Inr (Some order) else find_order z n (order + 1))"

text \<open>The splitting loop: \<open>n\<close> orders are left to split.\<close>

fun split_loop :: "zone \<Rightarrow> nat \<Rightarrow> int \<Rightarrow> zone res" where
  "split_loop z 0 order = Inr z"
| "split_loop z (Suc n) order =
     rbind (alloc_from_zone z order) (\<lambda>(p, z).
     case p of
       None \<Rightarrow> Inl Assertion
     | Some page \<Rightarrow>
         rbind (page_to_pfn z page) (\<lambda>pfn.
         rbind (pfn_to_page z (compute_buddy_pfn pfn (nat (order - 1)))) (\<lambda>buddy.
         rbind (add_to_free_list z page (order - 1)) (\<lambda>z.
         rbind (add_to_free_list z buddy (order - 1)) (\<lambda>z. split_loop z n (order - 1))))))"

definition split_zone :: "zone \<Rightarrow> int \<Rightarrow> (error_t \<times> zone) res" where
  "split_zone z target_order =
     rbind (get_list z target_order) (\<lambda>l.
     if l \<noteq> [] then Inr (OK, z)
     else
       rbind (require Assertion (target_order < int MAX_PAGE_ORDER)) (\<lambda>_.
       rbind (find_order z (nat (int MAX_PAGE_ORDER - target_order)) (target_order + 1)) (\<lambda>found.
       case found of
         None \<Rightarrow> Inr (ERR_OUT_OF_MEMORY, z)
       | Some f \<Rightarrow> rbind (split_loop z (nat (f - target_order)) f) (\<lambda>z. Inr (OK, z)))))"

text \<open>\<open>merge\<close> returns after its assertion; the loop behind the return is never run.\<close>

definition merge :: "zone \<Rightarrow> nat \<Rightarrow> int \<Rightarrow> zone res" where
  "merge z pfn order =
     rbind (pfn_to_page z pfn) (\<lambda>p.
     rbind (load (pages z) p) (\<lambda>pg.
     rbind (require Assertion (\<not> pg_in_use pg)) (\<lambda>_. Inr z)))"

text \<open>
  The retry loop on one zone. A successful split leaves a page of the wanted order,
  so that the second attempt succeeds; the fuel 2 is enough.
\<close>

fun try_zone :: "nat \<Rightarrow> zone \<Rightarrow> int \<Rightarrow> (nat option \<times> zone) res" where
  "try_zone 0 z order = Inl NoFuel"
| "try_zone (Suc fuel) z order =
     rbind (alloc_from_zone z order) (\<lambda>(p, z).
     case p of
       Some page \<Rightarrow> Inr (Some page, z)
     | None \<Rightarrow> rbind (split_zone z order) (\<lambda>(err, z). if err = OK then try_zone fuel z order else Inr (None, z)))"

fun zone_loop :: "zone list \<Rightarrow> int \<Rightarrow> (u64 \<times> zone list) res" where
  "zone_loop [] order = Inr (0, [])"
| "zone_loop (z # zs) order =
     rbind (try_zone 2 z order) (\<lambda>(p, z).
     case p of
       Some page \<Rightarrow> rbind (page_to_paddr z page) (\<lambda>paddr. Inr (paddr, z # zs))
     | None \<Rightarrow> rmap (\<lambda>(paddr, zs). (paddr, z # zs)) (zone_loop zs order))"

definition alloc_pages :: "zone list \<Rightarrow> int \<Rightarrow> (u64 \<times> zone list) res" where
  "alloc_pages zones order = zone_loop zones order"

fun find_zone :: "zone list \<Rightarrow> u64 \<Rightarrow> nat \<Rightarrow> nat \<Rightarrow> nat option res" where
  "find_zone zones paddr 0 i = Inr None"
| "find_zone zones paddr (Suc n) i =
     rbind (is_paddr_in_zone zones i paddr) (\<lambda>b. if b then Inr (Some i) else find_zone zones paddr n (Suc i))"

definition free_pages :: "zone list \<Rightarrow> u64 \<Rightarrow> int \<Rightarrow> zone list res" where
  "free_pages zones paddr order =
     rbind (find_zone zones paddr (length zones) 0) (\<lambda>found.
     case found of
       None \<Rightarrow> Inl Assertion
     | Some i \<Rightarrow>
         rbind (load zones i) (\<lambda>z.
         rbind (paddr_to_pfn z paddr) (\<lambda>pfn.
         rbind (pfn_to_page z pfn) (\<lambda>p.
         rbind (add_to_free_list z p order) (\<lambda>z.
         rbind (merge z pfn order) (\<lambda>z. Inr (zones[i := z])))))))"

section \<open>Initialisation\<close>

definition init_page :: "page \<Rightarrow> page" where "init_page p = p\<lparr>pg_in_use := False\<rparr>"

fun add_entries :: "zone \<Rightarrow> nat \<Rightarrow> nat \<Rightarrow> nat \<Rightarrow> int \<Rightarrow> zone res" where
  "add_entries z base step 0 order = Inr z"
| "add_entries z base step (Suc n) order =
     rbind (add_to_free_list z base order) (\<lambda>z. add_entries z (base + step) step n order)"

text \<open>The loop over the orders, from \<open>n - 1\<close> downwards.\<close>

fun fill_orders :: "zone \<Rightarrow> nat \<Rightarrow> nat \<Rightarrow> zone res" where
  "fill_orders z 0 remaining = Inr z"
| "fill_orders z (Suc order) remaining =
     (if remaining > 0 then
        let per_entry = 2 ^ order; n = remaining div per_entry in
        rbind (add_entries z (num_pages z - remaining) per_entry n (int order)) (\<lambda>z.
        fill_orders z order (remaining - n * per_entry))
      else Inr z)"

text \<open>sizeof(struct page) is 24; the descriptors are the memory at the start of the zone.\<close>

definition sizeof_page :: nat where "sizeof_page = 24"

definition init_zone :: "(nat \<Rightarrow> page) \<Rightarrow> nat \<Rightarrow> u64 \<Rightarrow> u64 \<Rightarrow> zone res" where
  "init_zone mem i start stop =
     (let total = unat ((stop - start) div of_nat PAGE_SIZE);
          internal = (total div 100) * INTERNAL_PAGES_PERC;
          data_pages = total - internal in
      rbind (require Assertion (internal > 0)) (\<lambda>_.
      rbind (require Assertion ((internal * PAGE_SIZE) div sizeof_page \<ge> data_pages)) (\<lambda>_.
      fill_orders \<lparr>zone_id = i, free_lists = replicate (MAX_PAGE_ORDER + 1) [],
          pages = map (init_page \<circ> mem) [0..<data_pages], num_pages = data_pages,
          base_addr = start + of_nat (internal * PAGE_SIZE)\<rparr> (MAX_PAGE_ORDER + 1) data_pages)))"

record memory_map =
  map_free :: bool
  map_start :: u64
  map_end :: u64

fun init_loop :: "(nat \<Rightarrow> nat \<Rightarrow> page) \<Rightarrow> memory_map list \<Rightarrow> nat \<Rightarrow> zone list res" where
  "init_loop mem [] j = Inr []"
| "init_loop mem (m # ms) j =
     (if map_free m then
        rbind (require Assertion (j < MAX_NUM_ZONES)) (\<lambda>_.
        rbind (init_zone (mem j) j (max (map_start m) FREE_MEMORY_START) (map_end m)) (\<lambda>z.
        rmap ((#) z) (init_loop mem ms (Suc j))))
      else init_loop mem ms j)"

definition init_alloc_pages :: "(nat \<Rightarrow> nat \<Rightarrow> page) \<Rightarrow> memory_map list \<Rightarrow> zone list res" where
  "init_alloc_pages mem maps = init_loop mem maps 0"

section \<open>The zone invariant\<close>

text \<open>
  A block of order \<open>o\<close> is \<open>2 ^ o\<close> consecutive pages. The blocks on the free lists are
  aligned, lie in the zone, have matching descriptors and do not overlap.
\<close>

definition blk :: "nat \<Rightarrow> nat \<Rightarrow> nat set" where "blk o' p = {p..<p + 2 ^ o'}"

definition on_list :: "zone \<Rightarrow> nat \<Rightarrow> nat \<Rightarrow> bool" where
  "on_list z o' p \<longleftrightarrow> o' < length (free_lists z) \<and> p \<in> set (free_lists z ! o')"

definition free_set :: "zone \<Rightarrow> nat set" where
  "free_set z = {x. \<exists>o' p. on_list z o' p \<and> x \<in> blk o' p}"

definition zone_shape :: "zone \<Rightarrow> bool" where
  "zone_shape z \<longleftrightarrow> length (free_lists z) = MAX_PAGE_ORDER + 1 \<and> length (pages z) = num_pages z
     \<and> base_addr z AND (of_nat PAGE_SIZE - 1) = 0 \<and> unat (base_addr z) + num_pages z * PAGE_SIZE < 2 ^ 64"

definition zone_ok :: "zone \<Rightarrow> bool" where
  "zone_ok z \<longleftrightarrow> zone_shape z \<and> (\<forall>l \<in> set (free_lists z). distinct l)
     \<and> (\<forall>o' p. on_list z o' p \<longrightarrow> p + 2 ^ o' \<le> num_pages z \<and> 2 ^ o' dvd p
          \<and> \<not> pg_in_use (pages z ! p) \<and> pg_order (pages z ! p) = int o')
     \<and> (\<forall>o1 p1 o2 p2. on_list z o1 p1 \<longrightarrow> on_list z o2 p2 \<longrightarrow> (o1, p1) \<noteq> (o2, p2) \<longrightarrow> blk o1 p1 \<inter> blk o2 p2 = {})"

lemma blk_self [simp]: "p \<in> blk o' p"
  by (simp add: blk_def)

lemma blk_bound: "p + 2 ^ o' \<le> n \<Longrightarrow> p < (n :: nat)"
  using zero_less_power[of "2 :: nat" o'] by linarith

lemma blk_subset_free: "on_list z o' p \<Longrightarrow> blk o' p \<subseteq> free_set z"
  by (auto simp: free_set_def)

lemma on_list_update:
  "o' < length (free_lists z) \<Longrightarrow> on_list (z\<lparr>free_lists := (free_lists z)[o' := l], pages := ps\<rparr>) o2 q \<longleftrightarrow>
     (if o2 = o' then q \<in> set l else on_list z o2 q)"
  by (auto simp: on_list_def)

lemma zone_okD:
  assumes "zone_ok z"
  shows "zone_shape z" "\<And>l. l \<in> set (free_lists z) \<Longrightarrow> distinct l"
    "\<And>o' p. on_list z o' p \<Longrightarrow> p + 2 ^ o' \<le> num_pages z"
    "\<And>o' p. on_list z o' p \<Longrightarrow> 2 ^ o' dvd p"
    "\<And>o' p. on_list z o' p \<Longrightarrow> \<not> pg_in_use (pages z ! p)"
    "\<And>o' p. on_list z o' p \<Longrightarrow> pg_order (pages z ! p) = int o'"
    "\<And>o1 p1 o2 p2. on_list z o1 p1 \<Longrightarrow> on_list z o2 p2 \<Longrightarrow> (o1, p1) \<noteq> (o2, p2) \<Longrightarrow> blk o1 p1 \<inter> blk o2 p2 = {}"
  using assms unfolding zone_ok_def by blast+

lemma shapeD:
  assumes "zone_shape z"
  shows "length (free_lists z) = 13" "length (pages z) = num_pages z"
  using assms by (simp_all add: zone_shape_def MAX_PAGE_ORDER_def)

text \<open>Taking the first block of a list.\<close>

lemma alloc_from_zone_Cons:
  assumes z: "zone_ok z" and o': "o' \<le> 12" and l: "free_lists z ! o' = p # rest"
  defines "z' \<equiv> z\<lparr>free_lists := (free_lists z)[o' := rest], pages := (pages z)[p := (pages z ! p)\<lparr>pg_in_use := True\<rparr>]\<rparr>"
  shows "alloc_from_zone z (int o') = Inr (Some p, z')" "zone_ok z'" "free_set z' = free_set z - blk o' p"
    "on_list z o' p" "num_pages z' = num_pages z" "base_addr z' = base_addr z"
proof -
  note sh = shapeD[OF zone_okD(1)[OF z]]
  show on: "on_list z o' p" using sh o' l by (simp add: on_list_def)
  have pl: "p < num_pages z" by (rule blk_bound[OF zone_okD(3)[OF z on]])
  have dist: "distinct (p # rest)" using zone_okD(2)[OF z, of "free_lists z ! o'"] nth_mem[of o' "free_lists z"] sh o' l by simp
  show "alloc_from_zone z (int o') = Inr (Some p, z')"
    using sh o' l pl zone_okD(5,6)[OF z on]
    by (simp add: alloc_from_zone_def get_list_def put_list_def set_page_def z'_def)
  have on': "on_list z' o2 q \<longleftrightarrow> on_list z o2 q \<and> (o2, q) \<noteq> (o', p)" for o2 q
    unfolding z'_def using on_list_update[where o' = o' and z = z and l = rest and ?o2.0 = o2 and q = q] sh o' l dist by (auto simp: on_list_def)
  have other: "q \<noteq> p" if "on_list z' o2 q" for o2 q
  proof
    assume "q = p"
    then have "blk o2 q \<inter> blk o' p = {}" using zone_okD(7)[OF z _ on] that on' by auto
    then show False using \<open>q = p\<close> blk_self by blast
  qed
  show "zone_ok z'"
    unfolding zone_ok_def
  proof (intro conjI allI impI)
    show "zone_shape z'" using zone_okD(1)[OF z] by (simp add: zone_shape_def z'_def)
    show "\<forall>l \<in> set (free_lists z'). distinct l"
      using zone_okD(2)[OF z] dist set_update_subset_insert[of "free_lists z" o' rest] by (auto simp: z'_def)
  next
    fix o2 q assume a: "on_list z' o2 q"
    have "on_list z o2 q" using a on' by blast
    then show "q + 2 ^ o2 \<le> num_pages z'" "2 ^ o2 dvd q" "\<not> pg_in_use (pages z' ! q)" "pg_order (pages z' ! q) = int o2"
      using zone_okD(3-6)[OF z, of o2 q] other[OF a] by (auto simp: z'_def)
  next
    fix o1 p1 o2 p2 assume "on_list z' o1 p1" "on_list z' o2 p2" "(o1, p1) \<noteq> (o2, p2)"
    then show "blk o1 p1 \<inter> blk o2 p2 = {}" using zone_okD(7)[OF z] on' by blast
  qed
  have "x \<notin> blk o' p" if "on_list z' o2 q" "x \<in> blk o2 q" for x o2 q
    using zone_okD(7)[OF z _ on, of o2 q] that on' by auto
  then show "free_set z' = free_set z - blk o' p"
    unfolding free_set_def using on' by blast
  show "num_pages z' = num_pages z" "base_addr z' = base_addr z" by (simp_all add: z'_def)
qed

lemma alloc_from_zone_Nil:
  assumes "zone_ok z" "o' \<le> 12" "free_lists z ! o' = []"
  shows "alloc_from_zone z (int o') = Inr (None, z)"
  using assms shapeD[OF zone_okD(1)[OF assms(1)]] by (simp add: alloc_from_zone_def get_list_def)

text \<open>Giving back a block that is not free.\<close>

lemma add_to_free_list_ok:
  assumes z: "zone_ok z" and o': "o' \<le> 12" and b: "p + 2 ^ o' \<le> num_pages z" "2 ^ o' dvd p" "blk o' p \<inter> free_set z = {}"
  shows "\<exists>z'. add_to_free_list z p (int o') = Inr z' \<and> zone_ok z' \<and> free_set z' = free_set z \<union> blk o' p
    \<and> num_pages z' = num_pages z \<and> base_addr z' = base_addr z
    \<and> free_lists z' = (free_lists z)[o' := free_lists z ! o' @ [p]] \<and> \<not> pg_in_use (pages z' ! p)"
proof -
  note sh = shapeD[OF zone_okD(1)[OF z]]
  let ?z = "z\<lparr>free_lists := (free_lists z)[o' := free_lists z ! o' @ [p]],
              pages := (pages z)[p := (pages z ! p)\<lparr>pg_in_use := False, pg_order := int o'\<rparr>]\<rparr>"
  have pl: "p < num_pages z" by (rule blk_bound[OF b(1)])
  have off: "\<not> on_list z o2 p" for o2 using b(3) blk_subset_free[of z o2 p] blk_self by blast
  have nl: "\<forall>l \<in> set (free_lists z). p \<notin> set l" using off unfolding on_list_def by (metis in_set_conv_nth)
  have run: "add_to_free_list z p (int o') = Inr ?z"
    using sh o' pl nl by (simp add: add_to_free_list_def set_page_def get_list_def put_list_def)
  have on': "on_list ?z o2 q \<longleftrightarrow> on_list z o2 q \<or> (o2, q) = (o', p)" for o2 q
    using on_list_update[where o' = o' and z = z and l = "free_lists z ! o' @ [p]" and ?o2.0 = o2 and q = q] sh o' by (auto simp: on_list_def)
  have other: "q \<noteq> p" if "on_list z o2 q" for o2 q using that off by blast
  have "zone_ok ?z"
    unfolding zone_ok_def
  proof (intro conjI allI impI)
    show "zone_shape ?z" using zone_okD(1)[OF z] by (simp add: zone_shape_def)
    have "distinct (free_lists z ! o')" "p \<notin> set (free_lists z ! o')"
      using zone_okD(2)[OF z] nl sh o' by auto
    then show "\<forall>l \<in> set (free_lists ?z). distinct l"
      using zone_okD(2)[OF z] set_update_subset_insert[of "free_lists z" o' "free_lists z ! o' @ [p]"] by auto
  next
    fix o2 q assume "on_list ?z o2 q"
    then show "q + 2 ^ o2 \<le> num_pages ?z" "2 ^ o2 dvd q" "\<not> pg_in_use (pages ?z ! q)" "pg_order (pages ?z ! q) = int o2"
      using zone_okD(3-6)[OF z, of o2 q] on' other b(1,2) pl sh by (auto simp: nth_list_update)
  next
    fix o1 p1 o2 p2 assume a: "on_list ?z o1 p1" "on_list ?z o2 p2" "(o1, p1) \<noteq> (o2, p2)"
    have new: "blk o' p \<inter> blk o3 q = {}" if "on_list z o3 q" for o3 q using blk_subset_free[OF that] b(3) by blast
    show "blk o1 p1 \<inter> blk o2 p2 = {}" using a zone_okD(7)[OF z] new unfolding on' by blast
  qed
  moreover have "free_set ?z = free_set z \<union> blk o' p" unfolding free_set_def using on' by blast
  ultimately show ?thesis using run pl sh by (intro exI[of _ ?z]) auto
qed

section \<open>Splitting\<close>

lemma buddy_pfn: "2 ^ Suc k dvd p \<Longrightarrow> compute_buddy_pfn p k = p + 2 ^ k"
proof -
  assume "2 ^ Suc k dvd p"
  then obtain q where "p = 2 ^ k * (2 * q)" by (auto elim: dvdE)
  then have "\<not> bit p k" by (simp add: bit_iff_odd)
  then have "p AND 2 ^ k = 0" by (simp add: and_exp_eq_0_iff_not_bit)
  then show ?thesis by (simp add: compute_buddy_pfn_def push_bit_eq_mult disjunctive_add_eq_xor)
qed

lemma ulllog2_page: "unat (ulllog2 (of_nat PAGE_SIZE) - 1) = 12"
proof -
  have "floorlog 2 (1 * 2 ^ 12) = floorlog 2 1 + 12" by (rule floorlog_power) simp_all
  moreover have "floorlog 2 1 = 1" by (simp add: floorlog_def)
  ultimately have "floorlog 2 4096 = 13" by simp
  then have "ulllog2 (4096 :: u64) = 13" by (simp add: ulllog2_def ulllog2_loop_eq)
  then show ?thesis by (simp add: PAGE_SIZE_def)
qed

lemma aligned_and: "w AND (0xfff :: u64) = 0 \<longleftrightarrow> 4096 dvd unat w"
proof -
  have "w AND 0xfff = take_bit 12 w" by (simp add: take_bit_eq_mask mask_eq_exp_minus_1)
  then have "w AND 0xfff = 0 \<longleftrightarrow> take_bit 12 (unat w) = 0"
    by (metis unsigned_take_bit_eq unsigned_0 unsigned_word_eqI)
  then show ?thesis by (simp add: take_bit_eq_0_iff)
qed

text \<open>Physical addresses and page frame numbers of a zone correspond.\<close>

lemma zone_paddr:
  assumes "zone_shape z" "p < num_pages z"
  shows "page_to_paddr z p = Inr (base_addr z + of_nat (p * PAGE_SIZE))"
    "unat (base_addr z + of_nat (p * PAGE_SIZE)) = unat (base_addr z) + p * PAGE_SIZE"
    "paddr_to_pfn z (base_addr z + of_nat (p * PAGE_SIZE)) = Inr p"
proof -
  show "page_to_paddr z p = Inr (base_addr z + of_nat (p * PAGE_SIZE))"
    using assms(2) by (simp add: page_to_paddr_def)
  have b: "unat (base_addr z) + p * 4096 < 2 ^ 64"
    using assms by (auto simp: zone_shape_def PAGE_SIZE_def intro: le_less_trans[rotated])
  then have p: "unat (of_nat (p * PAGE_SIZE) :: u64) = p * 4096"
    unfolding unat_of_nat PAGE_SIZE_def by (simp add: take_bit_nat_eq_self)
  show u: "unat (base_addr z + of_nat (p * PAGE_SIZE)) = unat (base_addr z) + p * PAGE_SIZE"
    using b unfolding unat_word_ariths(1) p by (simp add: PAGE_SIZE_def)
  have "4096 dvd unat (base_addr z)" using assms(1) aligned_and by (simp add: zone_shape_def PAGE_SIZE_def)
  then have al: "(base_addr z + of_nat (p * PAGE_SIZE)) AND 0xfff = 0"
    unfolding aligned_and u by (simp add: PAGE_SIZE_def)
  have "unat (drop_bit 12 (of_nat (p * PAGE_SIZE) :: u64)) = p"
    unfolding unat_drop_bit_eq p by (simp add: drop_bit_eq_div)
  then show "paddr_to_pfn z (base_addr z + of_nat (p * PAGE_SIZE)) = Inr p"
    using al ulllog2_page by (simp add: paddr_to_pfn_def PAGE_SIZE_def del: of_nat_mult)
qed

lemma page_to_pfn_eq: "zone_shape z \<Longrightarrow> p < num_pages z \<Longrightarrow> page_to_pfn z p = Inr p"
  by (simp add: page_to_pfn_def zone_paddr del: of_nat_mult)

text \<open>Splitting one block into its two halves keeps the set of free pages.\<close>

lemma blk_halves: "blk (Suc k) p = blk k p \<union> blk k (p + 2 ^ k)" "blk k p \<inter> blk k (p + 2 ^ k) = {}"
  by (auto simp: blk_def)

lemma split_step:
  assumes z: "zone_ok z" and o': "Suc k \<le> 12" and ne: "free_lists z ! Suc k \<noteq> []"
  shows "\<exists>z'. split_loop z (Suc n) (int (Suc k)) = split_loop z' n (int k) \<and> zone_ok z' \<and> free_set z' = free_set z
    \<and> num_pages z' = num_pages z \<and> base_addr z' = base_addr z \<and> free_lists z' ! k \<noteq> []"
proof -
  obtain p rest where l: "free_lists z ! Suc k = p # rest" using ne by (cases "free_lists z ! Suc k") auto
  define z1 where "z1 = z\<lparr>free_lists := (free_lists z)[Suc k := rest], pages := (pages z)[p := (pages z ! p)\<lparr>pg_in_use := True\<rparr>]\<rparr>"
  note a = alloc_from_zone_Cons[OF z o' l, folded z1_def]
  have fit: "p + 2 ^ Suc k \<le> num_pages z1" and al: "2 ^ Suc k dvd p"
    using zone_okD(3,4)[OF z a(4)] a(5) by auto
  have p: "p < num_pages z1" "p + 2 ^ k < num_pages z1" using fit blk_bound[OF fit] by (auto simp: order_less_le_trans)
  have alk: "2 ^ k dvd p" "2 ^ k dvd p + 2 ^ k" using al by (auto dest: power_le_dvd[of 2 "Suc k" p k])
  have free: "blk (Suc k) p \<subseteq> free_set z" by (rule blk_subset_free[OF a(4)])
  obtain z2 where z2: "add_to_free_list z1 p (int k) = Inr z2" "zone_ok z2" "free_set z2 = free_set z1 \<union> blk k p"
    "num_pages z2 = num_pages z" "base_addr z2 = base_addr z"
    "free_lists z2 = (free_lists z1)[k := free_lists z1 ! k @ [p]]"
    using add_to_free_list_ok[OF a(2), of k p] o' fit alk a(3,5,6) blk_halves(1)[of k p] by fastforce
  obtain z3 where z3: "add_to_free_list z2 (p + 2 ^ k) (int k) = Inr z3" "zone_ok z3"
    "free_set z3 = free_set z2 \<union> blk k (p + 2 ^ k)"
    "num_pages z3 = num_pages z" "base_addr z3 = base_addr z"
    "free_lists z3 = (free_lists z2)[k := free_lists z2 ! k @ [p + 2 ^ k]]"
    using add_to_free_list_ok[OF z2(2), of k "p + 2 ^ k"] o' fit alk a(3,5) z2(3,4,5) blk_halves[of k p] by fastforce
  have "page_to_pfn z1 p = Inr p" by (rule page_to_pfn_eq[OF zone_okD(1)[OF a(2)] p(1)])
  moreover have "pfn_to_page z1 (compute_buddy_pfn p k) = Inr (p + 2 ^ k)"
    using p(2) by (simp add: pfn_to_page_def buddy_pfn[OF al])
  ultimately have "split_loop z (Suc n) (int (Suc k)) = split_loop z3 n (int k)"
    using a(1) z2(1) z3(1) by simp
  moreover have "free_set z3 = free_set z" using free unfolding z3(3) z2(3) a(3) blk_halves(1) by blast
  moreover have "free_lists z3 ! k \<noteq> []"
    using shapeD(1)[OF zone_okD(1)[OF z2(2)]] o' by (simp add: z3(6))
  ultimately show ?thesis using z3(2,4,5) by blast
qed

lemma split_loop_ok:
  assumes "zone_ok z" "k + n \<le> 12" "free_lists z ! (k + n) \<noteq> []"
  shows "\<exists>z'. split_loop z n (int (k + n)) = Inr z' \<and> zone_ok z' \<and> free_set z' = free_set z
    \<and> num_pages z' = num_pages z \<and> base_addr z' = base_addr z \<and> free_lists z' ! k \<noteq> []"
  using assms
proof (induction n arbitrary: z)
  case (Suc n)
  obtain z1 where z1: "split_loop z (Suc n) (int (k + Suc n)) = split_loop z1 n (int (k + n))" "zone_ok z1"
    "free_set z1 = free_set z" "num_pages z1 = num_pages z" "base_addr z1 = base_addr z" "free_lists z1 ! (k + n) \<noteq> []"
    using split_step[of z "k + n" n] Suc.prems by auto
  then show ?case using Suc.IH[of z1] Suc.prems(2) by auto
qed auto

lemma find_order_ok:
  assumes "length (free_lists z) = 13"
  shows "k + n \<le> 13 \<Longrightarrow>
    (find_order z n (int k) = Inr None \<and> (\<forall>j. k \<le> j \<and> j < k + n \<longrightarrow> free_lists z ! j = [])) \<or>
    (\<exists>j. find_order z n (int k) = Inr (Some (int j)) \<and> k \<le> j \<and> j < k + n \<and> free_lists z ! j \<noteq> [])"
proof (induction n arbitrary: k)
  case (Suc n)
  have g: "get_list z (int k) = Inr (free_lists z ! k)" using assms Suc.prems by (simp add: get_list_def)
  show ?case
  proof (cases "free_lists z ! k = []")
    case True
    have s: "int k + 1 = int (Suc k)" by simp
    have r: "find_order z (Suc n) (int k) = find_order z n (int (Suc k))" using g True by (simp add: s del: of_nat_Suc)
    have e: "(\<forall>j. k \<le> j \<and> j < k + Suc n \<longrightarrow> free_lists z ! j = []) \<longleftrightarrow>
        (\<forall>j. Suc k \<le> j \<and> j < Suc k + n \<longrightarrow> free_lists z ! j = [])"
      using True by (metis Suc_leD Suc_leI add_Suc_right add_Suc le_neq_implies_less)
    show ?thesis using Suc.IH[of "Suc k"] Suc.prems unfolding r e by (metis Suc_leD add_Suc_shift)
  next
    case False
    then show ?thesis using g by (intro disjI2 exI[of _ k]) simp
  qed
qed auto

text \<open>
  A zone serves a request exactly when it has a free block of at least that order;
  a request of the largest order runs into the assertion of \<open>split\<close> otherwise.
\<close>

lemma try_zone_ok:
  assumes z: "zone_ok z" and o': "o' \<le> 12" and some: "\<exists>j p. o' \<le> j \<and> on_list z j p"
  shows "\<exists>p z'. try_zone 2 z (int o') = Inr (Some p, z') \<and> zone_ok z' \<and> p + 2 ^ o' \<le> num_pages z \<and> 2 ^ o' dvd p
    \<and> blk o' p \<subseteq> free_set z \<and> free_set z' = free_set z - blk o' p \<and> num_pages z' = num_pages z \<and> base_addr z' = base_addr z"
proof -
  note sh = shapeD[OF zone_okD(1)[OF z]]
  have take: "\<exists>p z'. alloc_from_zone y (int o') = Inr (Some p, z') \<and> zone_ok z' \<and> p + 2 ^ o' \<le> num_pages z \<and> 2 ^ o' dvd p
      \<and> blk o' p \<subseteq> free_set z \<and> free_set z' = free_set z - blk o' p \<and> num_pages z' = num_pages z \<and> base_addr z' = base_addr z"
    if y: "zone_ok y" "free_set y = free_set z" "num_pages y = num_pages z" "base_addr y = base_addr z" "free_lists y ! o' \<noteq> []" for y
  proof -
    obtain p rest where l: "free_lists y ! o' = p # rest" using y(5) by (cases "free_lists y ! o'") auto
    note a = alloc_from_zone_Cons[OF y(1) o' l]
    show ?thesis using a zone_okD(3,4)[OF y(1) a(4)] blk_subset_free[OF a(4)] y(2-4) by auto
  qed
  show ?thesis
  proof (cases "free_lists z ! o' = []")
    case False
    then show ?thesis using take[OF z] by (auto simp: numeral_2_eq_2)
  next
    case True
    obtain i p where ip: "o' \<le> i" "i < 13" "p \<in> set (free_lists z ! i)" using some sh by (auto simp: on_list_def)
    have "i \<noteq> o'" using ip(3) True by auto
    then have i: "o' < i" "i \<le> 12" "free_lists z ! i \<noteq> []" using ip by auto
    have lt: "o' < 12" using i by simp
    have m: "nat (int MAX_PAGE_ORDER - int o') = 12 - o'" by (simp add: MAX_PAGE_ORDER_def)
    have s: "int o' + 1 = int (Suc o')" by simp
    obtain j where j: "find_order z (nat (int MAX_PAGE_ORDER - int o')) (int o' + 1) = Inr (Some (int j))"
      "o' < j" "j \<le> 12" "free_lists z ! j \<noteq> []"
      using find_order_ok[OF sh(1), of "Suc o'" "12 - o'"] i lt unfolding m s by fastforce
    obtain n where n: "j = o' + n" using j(2) by (metis le_iff_add less_imp_le)
    obtain z1 where z1: "split_loop z n (int (o' + n)) = Inr z1" "zone_ok z1" "free_set z1 = free_set z"
      "num_pages z1 = num_pages z" "base_addr z1 = base_addr z" "free_lists z1 ! o' \<noteq> []"
      using split_loop_ok[OF z, of o' n] j n by auto
    have "split_zone z (int o') = Inr (OK, z1)"
      using True sh o' lt j(1) z1(1) n by (simp add: split_zone_def get_list_def MAX_PAGE_ORDER_def)
    then show ?thesis
      using take[OF z1(2-6)] alloc_from_zone_Nil[OF z o' True] by (auto simp: numeral_2_eq_2)
  qed
qed

lemma try_zone_none:
  assumes z: "zone_ok z" and o': "o' \<le> 12" and none: "\<forall>j p. o' \<le> j \<longrightarrow> \<not> on_list z j p"
  shows "try_zone 2 z (int o') = (if o' < 12 then Inr (None, z) else Inl Assertion)"
proof -
  note sh = shapeD[OF zone_okD(1)[OF z]]
  have e: "free_lists z ! j = []" if "o' \<le> j" "j \<le> 12" for j
    using none that sh by (metis hd_in_set le_imp_less_Suc on_list_def eval_nat_numeral(3) semiring_norm(26,27,28))
  have m: "nat (int MAX_PAGE_ORDER - int o') = 12 - o'" by (simp add: MAX_PAGE_ORDER_def)
  have s: "int o' + 1 = int (Suc o')" by simp
  have f: "find_order z (nat (int MAX_PAGE_ORDER - int o')) (int o' + 1) = Inr None" if "o' < 12"
    using find_order_ok[OF sh(1), of "Suc o'" "12 - o'"] that e unfolding m s by fastforce
  have g: "get_list z (int o') = Inr []" using e[of o'] o' sh by (simp add: get_list_def)
  have "split_zone z (int o') = (if o' < 12 then Inr (ERR_OUT_OF_MEMORY, z) else Inl Assertion)"
    using f by (simp add: split_zone_def g) (simp add: MAX_PAGE_ORDER_def)
  then show ?thesis using alloc_from_zone_Nil[OF z o'] e[of o'] o' by (simp add: numeral_2_eq_2)
qed

section \<open>Allocating from and freeing to the zones\<close>

definition has_block :: "zone \<Rightarrow> nat \<Rightarrow> bool" where
  "has_block z o' \<longleftrightarrow> (\<exists>j p. o' \<le> j \<and> on_list z j p)"

text \<open>The zones in front of the first one with a block of the order are left alone.\<close>

lemma alloc_pages_first:
  assumes "\<forall>z \<in> set us. zone_ok z \<and> \<not> has_block z o'" "zone_ok z" "has_block z o'" "o' \<le> 12" "us \<noteq> [] \<Longrightarrow> o' < 12"
  shows "\<exists>p z'. alloc_pages (us @ z # vs) (int o') = Inr (base_addr z + of_nat (p * PAGE_SIZE), us @ z' # vs)
    \<and> zone_ok z' \<and> p + 2 ^ o' \<le> num_pages z \<and> 2 ^ o' dvd p \<and> blk o' p \<subseteq> free_set z \<and> free_set z' = free_set z - blk o' p
    \<and> num_pages z' = num_pages z \<and> base_addr z' = base_addr z"
  using assms(1,5)
proof (induction us)
  case Nil
  obtain p z' where r: "try_zone 2 z (int o') = Inr (Some p, z')" "zone_ok z'" "p + 2 ^ o' \<le> num_pages z" "2 ^ o' dvd p"
    "blk o' p \<subseteq> free_set z" "free_set z' = free_set z - blk o' p" "num_pages z' = num_pages z" "base_addr z' = base_addr z"
    using try_zone_ok[OF assms(2,4)] assms(3) unfolding has_block_def by blast
  have "page_to_paddr z' p = Inr (base_addr z + of_nat (p * PAGE_SIZE))"
    using zone_paddr(1)[OF zone_okD(1)[OF r(2)], of p] blk_bound[OF r(3)] r(7,8) by simp
  then show ?case using r by (intro exI[of _ p] exI[of _ z']) (simp add: alloc_pages_def del: of_nat_mult)
next
  case (Cons u us)
  have "try_zone 2 u (int o') = Inr (None, u)"
    using try_zone_none[of u o'] Cons.prems assms(4) by (auto simp: has_block_def)
  then show ?case using Cons.IH Cons.prems by (fastforce simp: alloc_pages_def)
qed

lemma alloc_pages_none:
  assumes "\<forall>z \<in> set zs. zone_ok z \<and> \<not> has_block z o'" "o' < 12"
  shows "alloc_pages zs (int o') = Inr (0, zs)"
  using assms(1)
proof (induction zs)
  case (Cons z zs)
  have "try_zone 2 z (int o') = Inr (None, z)"
    using try_zone_none[of z o'] Cons.prems assms(2) by (auto simp: has_block_def)
  then show ?case using Cons by (simp add: alloc_pages_def)
qed (simp add: alloc_pages_def)

lemma free_pages_single:
  assumes z: "zone_ok z" and o': "o' \<le> 12" and b: "p + 2 ^ o' \<le> num_pages z" "2 ^ o' dvd p" "blk o' p \<inter> free_set z = {}"
  shows "\<exists>z'. free_pages [z] (base_addr z + of_nat (p * PAGE_SIZE)) (int o') = Inr [z'] \<and> zone_ok z'
    \<and> free_set z' = free_set z \<union> blk o' p \<and> num_pages z' = num_pages z \<and> base_addr z' = base_addr z"
proof -
  have p: "p < num_pages z" by (rule blk_bound[OF b(1)])
  note pa = zone_paddr[OF zone_okD(1)[OF z] p]
  have "base_addr z \<le> base_addr z + of_nat (p * PAGE_SIZE)" using pa(2) by (simp add: word_le_nat_alt del: of_nat_mult)
  then have f: "find_zone [z] (base_addr z + of_nat (p * PAGE_SIZE)) (length [z]) 0 = Inr (Some 0)"
    using pa(3) p by (simp add: is_paddr_in_zone_def del: of_nat_mult)
  obtain z' where z': "add_to_free_list z p (int o') = Inr z'" "zone_ok z'" "free_set z' = free_set z \<union> blk o' p"
    "num_pages z' = num_pages z" "base_addr z' = base_addr z" "\<not> pg_in_use (pages z' ! p)"
    using add_to_free_list_ok[OF assms] by blast
  have "merge z' p (int o') = Inr z'"
    using z' p shapeD[OF zone_okD(1)[OF z'(2)]] by (simp add: merge_def pfn_to_page_def)
  then have "free_pages [z] (base_addr z + of_nat (p * PAGE_SIZE)) (int o') = Inr [z']"
    unfolding free_pages_def f using pa(3) z'(1) p by (simp add: pfn_to_page_def del: of_nat_mult)
  then show ?thesis using z' by blast
qed

section \<open>Initialisation frees every data page\<close>

lemma add_entries_ok:
  assumes "zone_ok z" "free_set z = {0..<base}" "2 ^ o' dvd base" "base + n * 2 ^ o' \<le> num_pages z" "o' \<le> 12"
  shows "\<exists>z'. add_entries z base (2 ^ o') n (int o') = Inr z' \<and> zone_ok z' \<and> free_set z' = {0..<base + n * 2 ^ o'}
    \<and> num_pages z' = num_pages z \<and> base_addr z' = base_addr z"
  using assms
proof (induction n arbitrary: z base)
  case (Suc n)
  have fit: "base + 2 ^ o' \<le> num_pages z" using Suc.prems(4) by simp
  have "blk o' base \<inter> free_set z = {}" using Suc.prems(2) by (auto simp: blk_def)
  from add_to_free_list_ok[OF Suc.prems(1,5) fit Suc.prems(3) this]
  obtain z1 where z1: "add_to_free_list z base (int o') = Inr z1" "zone_ok z1"
    "free_set z1 = free_set z \<union> blk o' base" "num_pages z1 = num_pages z" "base_addr z1 = base_addr z" by blast
  have "free_set z1 = {0..<base + 2 ^ o'}" using z1(3) Suc.prems(2) by (auto simp: blk_def)
  from Suc.IH[OF z1(2) this] show ?case using z1 Suc.prems(3-5) by (auto simp: algebra_simps)
qed auto

lemma fill_orders_ok:
  assumes "zone_ok z" "n \<le> 13" "remaining \<le> num_pages z" "free_set z = {0..<num_pages z - remaining}"
    "2 ^ n dvd num_pages z - remaining" "n < 13 \<Longrightarrow> remaining < 2 ^ n"
  shows "\<exists>z'. fill_orders z n remaining = Inr z' \<and> zone_ok z' \<and> free_set z' = {0..<num_pages z}
    \<and> num_pages z' = num_pages z \<and> base_addr z' = base_addr z"
  using assms
proof (induction n arbitrary: z remaining)
  case 0
  then show ?case by auto
next
  case (Suc k)
  show ?case
  proof (cases "remaining > 0")
    case False
    then show ?thesis using Suc.prems by auto
  next
    case True
    let ?n = "remaining div 2 ^ k" and ?base = "num_pages z - remaining"
    have le: "?n * 2 ^ k \<le> remaining" by (rule div_times_less_eq_dividend)
    have dv: "2 ^ k dvd ?base" using Suc.prems(5) by (auto intro: dvd_trans[OF le_imp_power_dvd])
    have fit: "?base + ?n * 2 ^ k \<le> num_pages z" using le Suc.prems(3) by linarith
    from add_entries_ok[OF Suc.prems(1,4) dv fit] Suc.prems(2)
    obtain z1 where z1: "add_entries z ?base (2 ^ k) ?n (int k) = Inr z1" "zone_ok z1"
      "free_set z1 = {0..<?base + ?n * 2 ^ k}" "num_pages z1 = num_pages z" "base_addr z1 = base_addr z" by auto
    let ?r = "remaining - ?n * 2 ^ k"
    have b1: "num_pages z1 - ?r = ?base + ?n * 2 ^ k" using le Suc.prems(3) z1(4) by linarith
    have r: "?r < 2 ^ k" by (simp add: minus_div_mult_eq_mod)
    have dv1: "2 ^ k dvd num_pages z1 - ?r" unfolding b1 using dv by simp
    have "\<exists>z'. fill_orders z1 k ?r = Inr z' \<and> zone_ok z' \<and> free_set z' = {0..<num_pages z1}
        \<and> num_pages z' = num_pages z1 \<and> base_addr z' = base_addr z1"
      using Suc.IH[OF z1(2) _ _ _ dv1] Suc.prems(2,3) z1(3,4) b1 r by auto
    then show ?thesis using True z1 by (simp add: Let_def)
  qed
qed

lemma init_zone_ok:
  assumes al: "start AND (of_nat PAGE_SIZE - 1) = 0" and le: "start \<le> stop"
    and size: "200 * PAGE_SIZE \<le> unat stop - unat start"
  shows "\<exists>z. init_zone mem i start stop = Inr z \<and> zone_ok z \<and> free_set z = {0..<num_pages z}
    \<and> (let total = (unat stop - unat start) div PAGE_SIZE in num_pages z = total - total div 100)
    \<and> unat start < unat (base_addr z) \<and> unat (base_addr z) + num_pages z * PAGE_SIZE \<le> unat stop"
proof -
  let ?total = "(unat stop - unat start) div PAGE_SIZE"
  let ?int = "?total div 100"
  have tot: "unat ((stop - start) div of_nat PAGE_SIZE) = ?total"
    using le by (simp add: unat_div unat_sub PAGE_SIZE_def)
  have "200 * PAGE_SIZE div PAGE_SIZE \<le> ?total" using size by (rule div_le_mono)
  then have ge: "200 \<le> ?total" by (simp add: PAGE_SIZE_def)
  have hundred: "2 \<le> m div 100" "m div 100 \<le> m" "m < 100 * (m div 100) + 100" if "200 \<le> m" for m :: nat
    using that by auto
  note int = hundred[OF ge]
  have room: "?total - ?int \<le> ?int * PAGE_SIZE div sizeof_page"
  proof -
    have "(?total - ?int) * sizeof_page \<le> ?int * PAGE_SIZE"
    proof -
      have "(m - d) * 24 \<le> d * 4096" if "2 \<le> d" "m < 100 * d + 100" for m d :: nat using that by linarith
      then show ?thesis using int(1,3) unfolding sizeof_page_def PAGE_SIZE_def by blast
    qed
    then show ?thesis using div_le_mono[of "(?total - ?int) * sizeof_page" "?int * PAGE_SIZE" sizeof_page]
      by (simp add: sizeof_page_def)
  qed
  define z where "z = \<lparr>zone_id = i, free_lists = replicate (MAX_PAGE_ORDER + 1) [],
      pages = map (init_page \<circ> mem) [0..<?total - ?int], num_pages = ?total - ?int,
      base_addr = start + of_nat (?int * PAGE_SIZE)\<rparr>"
  have tl: "?total * PAGE_SIZE \<le> unat stop - unat start" by (rule div_times_less_eq_dividend)
  have st: "unat start \<le> unat stop" using le by (simp add: word_le_nat_alt)
  have stop: "unat stop < 2 ^ 64" using unsigned_less[of stop] by simp
  have "?int * PAGE_SIZE \<le> ?total * PAGE_SIZE" using int(2) by (rule mult_right_mono) simp
  then have bd: "unat start + ?int * PAGE_SIZE < 2 ^ 64" using tl st stop by linarith
  have ub: "unat (of_nat (?int * PAGE_SIZE) :: u64) = ?int * PAGE_SIZE"
    using bd unfolding unat_of_nat by (intro mod_less) simp
  have base: "unat (base_addr z) = unat start + ?int * PAGE_SIZE"
    using bd unfolding z_def zone.simps unat_word_ariths(1) ub by simp
  have sum: "unat (base_addr z) + num_pages z * PAGE_SIZE = unat start + ?total * PAGE_SIZE"
    using int(2) unfolding base by (simp add: z_def diff_mult_distrib)
  have "4096 dvd unat start" using al aligned_and by (simp add: PAGE_SIZE_def)
  then have "base_addr z AND (of_nat PAGE_SIZE - 1) = 0"
    using aligned_and[of "base_addr z"] base by (simp add: PAGE_SIZE_def)
  moreover have "unat (base_addr z) + num_pages z * PAGE_SIZE < 2 ^ 64" unfolding sum using tl st stop by linarith
  moreover have "length (free_lists z) = MAX_PAGE_ORDER + 1" "length (pages z) = num_pages z" by (simp_all add: z_def)
  ultimately have sh: "zone_shape z" unfolding zone_shape_def by blast
  have off: "\<not> on_list z o' p" for o' p by (simp add: on_list_def z_def del: replicate_Suc)
  then have "zone_ok z" using sh by (auto simp: zone_ok_def z_def)
  moreover have "free_set z = {0..<num_pages z - num_pages z}" using off by (simp add: free_set_def)
  ultimately obtain z' where z': "fill_orders z 13 (num_pages z) = Inr z'" "zone_ok z'" "free_set z' = {0..<num_pages z}"
    "num_pages z' = num_pages z" "base_addr z' = base_addr z"
    using fill_orders_ok[of z 13 "num_pages z"] by auto
  have run: "init_zone mem i start stop = Inr z'"
    using z'(1) int(1) room unfolding init_zone_def Let_def tot
    by (simp add: INTERNAL_PAGES_PERC_def MAX_PAGE_ORDER_def z_def)
  have "0 < ?int * PAGE_SIZE" using int(1) by (simp add: PAGE_SIZE_def del: div_greater_zero_iff)
  then have lo: "unat start < unat (base_addr z')" unfolding z'(5) base by linarith
  have hi: "unat (base_addr z') + num_pages z' * PAGE_SIZE \<le> unat stop"
    unfolding z'(4,5) sum using tl st by linarith
  have n: "num_pages z' = ?total - ?int" unfolding z'(4) by (simp add: z_def)
  show ?thesis unfolding Let_def
    by (intro exI[of _ z'] conjI run z'(2) lo hi n) (simp add: z'(3,4))
qed

text \<open>All that free_pages changes is the free list of the order.\<close>

lemma free_pages_adds:
  assumes "zone_ok z" "p + 2 ^ o' \<le> num_pages z" "free_pages [z] (base_addr z + of_nat (p * PAGE_SIZE)) (int o') = Inr zs"
  shows "\<exists>z'. add_to_free_list z p (int o') = Inr z' \<and> zs = [z']"
proof -
  have p: "p < num_pages z" by (rule blk_bound[OF assms(2)])
  note pa = zone_paddr[OF zone_okD(1)[OF assms(1)] p]
  have "base_addr z \<le> base_addr z + of_nat (p * PAGE_SIZE)" using pa(2) by (simp add: word_le_nat_alt del: of_nat_mult)
  then have f: "find_zone [z] (base_addr z + of_nat (p * PAGE_SIZE)) (length [z]) 0 = Inr (Some 0)"
    using pa(3) p by (simp add: is_paddr_in_zone_def del: of_nat_mult)
  show ?thesis using assms(3) f pa(3) p
    by (auto simp: free_pages_def pfn_to_page_def merge_def simp del: of_nat_mult find_zone.simps)
qed

section \<open>Programs of allocations\<close>

text \<open>
  A program on one zone: \<open>GrabPages\<close> allocates a block of an order (nothing is held when the
  allocation fails), \<open>DropPages\<close> frees the i-th held block, if there is one.
\<close>

datatype page_op = GrabPages nat | DropPages nat

fun page_run :: "page_op list \<Rightarrow> zone list \<Rightarrow> (nat \<times> u64) list \<Rightarrow> (zone list \<times> (nat \<times> u64) list) res" where
  "page_run [] zs held = Inr (zs, held)"
| "page_run (GrabPages o' # ops) zs held =
     rbind (alloc_pages zs (int o')) (\<lambda>(a, zs). page_run ops zs (if a = 0 then held else (o', a) # held))"
| "page_run (DropPages i # ops) zs held =
     (if i < length held then
        rbind (free_pages zs (snd (held ! i)) (int (fst (held ! i)))) (\<lambda>zs. page_run ops zs (take i held @ drop (Suc i) held))
      else page_run ops zs held)"

text \<open>The held blocks as pages of the zone: aligned, in the zone, disjoint from each other and from the free blocks.\<close>

definition held_at :: "zone \<Rightarrow> nat \<times> u64 \<Rightarrow> nat \<Rightarrow> bool" where
  "held_at z b p \<longleftrightarrow> fst b \<le> 12 \<and> snd b = base_addr z + of_nat (p * PAGE_SIZE) \<and> p + 2 ^ fst b \<le> num_pages z \<and> 2 ^ fst b dvd p"

fun held_ok :: "zone \<Rightarrow> nat set \<Rightarrow> (nat \<times> u64) list \<Rightarrow> nat list \<Rightarrow> bool" where
  "held_ok z free [] [] \<longleftrightarrow> free = {0..<num_pages z}"
| "held_ok z free (b # bs) (p # ps) \<longleftrightarrow> held_at z b p \<and> blk (fst b) p \<inter> free = {} \<and> held_ok z (free \<union> blk (fst b) p) bs ps"
| "held_ok z free _ _ \<longleftrightarrow> False"

lemma held_ok_length: "held_ok z free bs ps \<Longrightarrow> length ps = length bs"
  by (induction z free bs ps rule: held_ok.induct) auto

lemma held_ok_remove:
  "held_ok z free bs ps \<Longrightarrow> i < length bs \<Longrightarrow>
   held_at z (bs ! i) (ps ! i) \<and> blk (fst (bs ! i)) (ps ! i) \<inter> free = {}
   \<and> held_ok z (free \<union> blk (fst (bs ! i)) (ps ! i)) (take i bs @ drop (Suc i) bs) (take i ps @ drop (Suc i) ps)"
proof (induction z free bs ps arbitrary: i rule: held_ok.induct)
  case (2 z free b bs p ps)
  show ?case
  proof (cases i)
    case 0
    then show ?thesis using "2.prems" by simp
  next
    case (Suc j)
    have r: "held_at z (bs ! j) (ps ! j)" "blk (fst (bs ! j)) (ps ! j) \<inter> (free \<union> blk (fst b) p) = {}"
      "held_ok z (free \<union> blk (fst b) p \<union> blk (fst (bs ! j)) (ps ! j)) (take j bs @ drop (Suc j) bs) (take j ps @ drop (Suc j) ps)"
      using "2.IH"[of j] "2.prems" Suc by auto
    have c: "free \<union> blk (fst b) p \<union> blk (fst (bs ! j)) (ps ! j) = free \<union> blk (fst (bs ! j)) (ps ! j) \<union> blk (fst b) p" by auto
    show ?thesis using r "2.prems" Suc by (auto simp: c)
  qed
qed auto

lemma held_ok_cong: "num_pages z' = num_pages z \<Longrightarrow> base_addr z' = base_addr z \<Longrightarrow> held_ok z' free bs ps = held_ok z free bs ps"
  by (induction z free bs ps rule: held_ok.induct) (auto simp: held_at_def)

lemma page_run_ok:
  "zone_ok z \<Longrightarrow> base_addr z \<noteq> 0 \<Longrightarrow> held_ok z (free_set z) held ps \<Longrightarrow> \<forall>o'. GrabPages o' \<in> set ops \<longrightarrow> o' < 12 \<Longrightarrow>
   \<exists>z' held' ps'. page_run ops [z] held = Inr ([z'], held') \<and> zone_ok z' \<and> num_pages z' = num_pages z
     \<and> base_addr z' = base_addr z \<and> held_ok z' (free_set z') held' ps'"
proof (induction ops arbitrary: z held ps)
  case (Cons op ops)
  show ?case
  proof (cases op)
    case (GrabPages o')
    have o': "o' < 12" "\<forall>o'. GrabPages o' \<in> set ops \<longrightarrow> o' < 12" using Cons.prems(4) GrabPages by auto
    show ?thesis
    proof (cases "has_block z o'")
      case True
      from alloc_pages_first[of "[]" o' z "[]"] True Cons.prems(1) o'(1) obtain p z1 where
        r: "alloc_pages [z] (int o') = Inr (base_addr z + of_nat (p * PAGE_SIZE), [z1])" "zone_ok z1" "p + 2 ^ o' \<le> num_pages z"
          "2 ^ o' dvd p" "blk o' p \<subseteq> free_set z" "free_set z1 = free_set z - blk o' p" "num_pages z1 = num_pages z"
          "base_addr z1 = base_addr z"
        by auto
      have nz: "base_addr z + of_nat (p * PAGE_SIZE) \<noteq> 0"
        using zone_paddr(2)[OF zone_okD(1)[OF Cons.prems(1)] blk_bound[OF r(3)]] Cons.prems(2)
        by (metis add_is_0 unat_eq_zero unsigned_0)
      have u: "free_set z1 \<union> blk o' p = free_set z" "blk o' p \<inter> free_set z1 = {}" using r(5,6) by auto
      have at: "held_at z1 (o', base_addr z + of_nat (p * PAGE_SIZE)) p"
        unfolding held_at_def fst_conv snd_conv r(7,8) using r(3,4) o'(1) by (intro conjI refl) auto
      have "held_ok z1 (free_set z) held ps" using Cons.prems(3) held_ok_cong[OF r(7,8)] by blast
      then have "held_ok z1 (free_set z1) ((o', base_addr z + of_nat (p * PAGE_SIZE)) # held) (p # ps)"
        unfolding held_ok.simps fst_conv u(1) using at u(2) by blast
      from Cons.IH[OF r(2) _ this o'(2)] show ?thesis
        using r(1,7,8) nz Cons.prems(2) GrabPages by (simp del: of_nat_mult)
    next
      case False
      then have "alloc_pages [z] (int o') = Inr (0, [z])" using alloc_pages_none[of "[z]" o'] Cons.prems(1) o'(1) by simp
      then show ?thesis using Cons.IH[OF Cons.prems(1,2,3) o'(2)] GrabPages by simp
    qed
  next
    case (DropPages i)
    have o': "\<forall>o'. GrabPages o' \<in> set ops \<longrightarrow> o' < 12" using Cons.prems(4) by auto
    show ?thesis
    proof (cases "i < length held")
      case True
      let ?b = "held ! i" and ?p = "ps ! i"
      note h = held_ok_remove[OF Cons.prems(3) True]
      then have at: "fst ?b \<le> 12" "snd ?b = base_addr z + of_nat (?p * PAGE_SIZE)" "?p + 2 ^ fst ?b \<le> num_pages z" "2 ^ fst ?b dvd ?p"
        "blk (fst ?b) ?p \<inter> free_set z = {}" by (auto simp: held_at_def)
      obtain z1 where z1: "free_pages [z] (snd ?b) (int (fst ?b)) = Inr [z1]" "zone_ok z1"
        "free_set z1 = free_set z \<union> blk (fst ?b) ?p" "num_pages z1 = num_pages z" "base_addr z1 = base_addr z"
        using free_pages_single[OF Cons.prems(1) at(1,3,4,5)] at(2) by auto
      have "held_ok z1 (free_set z1) (take i held @ drop (Suc i) held) (take i ps @ drop (Suc i) ps)"
        using h held_ok_cong[OF z1(4,5)] z1(3) by simp
      from Cons.IH[OF z1(2) _ this o'] show ?thesis using z1 Cons.prems(2) True DropPages by simp
    next
      case False
      then show ?thesis using Cons.IH[OF Cons.prems(1,2,3) o'] DropPages by simp
    qed
  qed
qed auto

text \<open>The physical addresses of a held block.\<close>

definition extent_of :: "nat \<times> u64 \<Rightarrow> nat set" where
  "extent_of b = {unat (snd b)..<unat (snd b) + 2 ^ fst b * PAGE_SIZE}"

lemma extent_of_scaled:
  assumes "zone_ok z" "held_at z b p"
  shows "extent_of b = {unat (base_addr z) + p * PAGE_SIZE..<unat (base_addr z) + (p + 2 ^ fst b) * PAGE_SIZE}"
    "extent_of b \<subseteq> {unat (base_addr z)..<unat (base_addr z) + num_pages z * PAGE_SIZE}"
proof -
  have b: "p + 2 ^ fst b \<le> num_pages z" "snd b = base_addr z + of_nat (p * PAGE_SIZE)" using assms(2) by (auto simp: held_at_def)
  have "unat (snd b) = unat (base_addr z) + p * PAGE_SIZE"
    unfolding b(2) by (rule zone_paddr(2)[OF zone_okD(1)[OF assms(1)] blk_bound[OF b(1)]])
  then show e: "extent_of b = {unat (base_addr z) + p * PAGE_SIZE..<unat (base_addr z) + (p + 2 ^ fst b) * PAGE_SIZE}"
    by (simp add: extent_of_def distrib_right add.assoc)
  have "(p + 2 ^ fst b) * PAGE_SIZE \<le> num_pages z * PAGE_SIZE" using b(1) by (rule mult_le_mono1)
  then show "extent_of b \<subseteq> {unat (base_addr z)..<unat (base_addr z) + num_pages z * PAGE_SIZE}" unfolding e by auto
qed

lemma blk_disjoint_extents:
  assumes "zone_ok z" "held_at z b p" "held_at z c q" "blk (fst b) p \<inter> blk (fst c) q = {}"
  shows "extent_of b \<inter> extent_of c = {}"
proof -
  have "p + 2 ^ fst b \<le> q \<or> q + 2 ^ fst c \<le> p"
  proof (rule ccontr)
    assume "\<not> ?thesis"
    then have "max p q \<in> blk (fst b) p \<inter> blk (fst c) q" by (auto simp: blk_def max_def)
    then show False using assms(4) by simp
  qed
  then have "(p + 2 ^ fst b) * PAGE_SIZE \<le> q * PAGE_SIZE \<or> (q + 2 ^ fst c) * PAGE_SIZE \<le> p * PAGE_SIZE"
    using mult_le_mono1 by blast
  then show ?thesis unfolding extent_of_scaled(1)[OF assms(1,2)] extent_of_scaled(1)[OF assms(1,3)] by auto
qed

lemma held_ok_disjoint:
  "held_ok z free bs ps \<Longrightarrow> i < j \<Longrightarrow> j < length bs \<Longrightarrow> blk (fst (bs ! i)) (ps ! i) \<inter> blk (fst (bs ! j)) (ps ! j) = {}"
proof (induction z free bs ps arbitrary: i j rule: held_ok.induct)
  case (2 z free b bs p ps)
  obtain j' where j: "j = Suc j'" using "2.prems"(2) by (cases j) auto
  show ?case
  proof (cases i)
    case 0
    have "blk (fst (bs ! j')) (ps ! j') \<inter> (free \<union> blk (fst b) p) = {}"
      using held_ok_remove[of z "free \<union> blk (fst b) p" bs ps j'] "2.prems" j by simp
    then show ?thesis using 0 j by auto
  next
    case (Suc i')
    then show ?thesis using "2.IH"[of i' j'] "2.prems" j by simp
  qed
qed auto

section \<open>Properties\<close>

text \<open>
  C6: the page allocator never fails and never hands out a page twice. Take a memory
  region of at least 200 pages. Setting up its zone succeeds, and then any program of
  allocations of orders 0 to 11 and frees of held blocks runs to its end. The blocks that
  are held at the end lie inside the region behind the page descriptors, and no two of
  them overlap.
\<close>

theorem page_allocator_safe:
  assumes "start AND (of_nat PAGE_SIZE - 1) = 0" "start \<le> stop" "200 * PAGE_SIZE \<le> unat stop - unat start"
    "\<forall>o'. GrabPages o' \<in> set ops \<longrightarrow> o' < 12"
  shows "\<exists>z z' held. init_zone mem n start stop = Inr z \<and> page_run ops [z] [] = Inr ([z'], held)
    \<and> (\<forall>i < length held. extent_of (held ! i) \<subseteq> {unat start<..<unat stop})
    \<and> (\<forall>i j. i < j \<longrightarrow> j < length held \<longrightarrow> extent_of (held ! i) \<inter> extent_of (held ! j) = {})"
proof -
  obtain z where z: "init_zone mem n start stop = Inr z" "zone_ok z" "free_set z = {0..<num_pages z}"
    "unat start < unat (base_addr z)" "unat (base_addr z) + num_pages z * PAGE_SIZE \<le> unat stop"
    using init_zone_ok[OF assms(1-3), of mem n] by auto
  have nz: "base_addr z \<noteq> 0" using z(4) by auto
  have "held_ok z (free_set z) [] []" using z(3) by simp
  from page_run_ok[OF z(2) nz this assms(4)] obtain z' held ps where
    r: "page_run ops [z] [] = Inr ([z'], held)" "zone_ok z'" "num_pages z' = num_pages z" "base_addr z' = base_addr z"
      "held_ok z' (free_set z') held ps" by blast
  have at: "held_at z' (held ! i) (ps ! i)" if "i < length held" for i
    using held_ok_remove[OF r(5) that] by blast
  have "extent_of (held ! i) \<subseteq> {unat start<..<unat stop}" if "i < length held" for i
    using extent_of_scaled(2)[OF r(2) at[OF that]] z(4,5) r(3,4) by fastforce
  moreover have "extent_of (held ! i) \<inter> extent_of (held ! j) = {}" if "i < j" "j < length held" for i j
    using blk_disjoint_extents[OF r(2) at at] held_ok_disjoint[OF r(5) that] that by simp
  ultimately show ?thesis using z(1) r(1) by blast
qed

theorem page_allocator_safe_witness:
  "\<exists>z z' held. init_zone (\<lambda>_. \<lparr>pg_in_use = True, pg_order = 0\<rparr>) 0 0x4000000 0x4100000 = Inr z
     \<and> page_run [GrabPages 3, GrabPages 0, DropPages 0, GrabPages 11] [z] [] = Inr ([z'], held)
     \<and> (\<forall>i j. i < j \<longrightarrow> j < length held \<longrightarrow> extent_of (held ! i) \<inter> extent_of (held ! j) = {})"
proof -
  have "(0x4000000 :: u64) AND (of_nat PAGE_SIZE - 1) = 0" "(0x4000000 :: u64) \<le> 0x4100000"
    "200 * PAGE_SIZE \<le> unat (0x4100000 :: u64) - unat (0x4000000 :: u64)"
    by (simp_all add: PAGE_SIZE_def)
  moreover have "\<forall>o'. GrabPages o' \<in> set [GrabPages 3, GrabPages 0, DropPages 0, GrabPages 11] \<longrightarrow> o' < 12" by simp
  ultimately show ?thesis using page_allocator_safe[of "0x4000000" "0x4100000"
      "[GrabPages 3, GrabPages 0, DropPages 0, GrabPages 11]" "\<lambda>_. \<lparr>pg_in_use = True, pg_order = 0\<rparr>" 0] by blast
qed

text \<open>
  C7: the allocator finds memory whenever there is some. With well-formed zones,
  alloc_pages of an order below 12 answers 0, changing nothing, only when no zone has a
  free block of that order or a larger one; otherwise it takes an aligned block of the
  first zone that has one, removes exactly its pages from the free pages of that zone
  and leaves the other zones alone.
\<close>

theorem alloc_pages_complete:
  assumes "\<forall>z \<in> set zs. zone_ok z" "o' < 12"
  shows "(\<forall>z \<in> set zs. \<not> has_block z o') \<and> alloc_pages zs (int o') = Inr (0, zs)
    \<or> (\<exists>us z vs z' p. zs = us @ z # vs \<and> (\<forall>u \<in> set us. \<not> has_block u o') \<and> has_block z o'
        \<and> alloc_pages zs (int o') = Inr (base_addr z + of_nat (p * PAGE_SIZE), us @ z' # vs)
        \<and> zone_ok z' \<and> 2 ^ o' dvd p \<and> blk o' p \<subseteq> free_set z \<and> free_set z' = free_set z - blk o' p)"
proof (cases "\<exists>z \<in> set zs. has_block z o'")
  case True
  then obtain us z vs where s: "zs = us @ z # vs" "has_block z o'" "\<forall>u \<in> set us. \<not> has_block u o'"
    using split_list_first_prop[of zs "\<lambda>z. has_block z o'"] by auto
  have "\<forall>u \<in> set us. zone_ok u \<and> \<not> has_block u o'" "zone_ok z" using assms(1) s by auto
  moreover have "o' \<le> 12" using assms(2) by simp
  ultimately obtain p z' where "alloc_pages (us @ z # vs) (int o') = Inr (base_addr z + of_nat (p * PAGE_SIZE), us @ z' # vs)"
    "zone_ok z'" "2 ^ o' dvd p" "blk o' p \<subseteq> free_set z" "free_set z' = free_set z - blk o' p"
    using alloc_pages_first[of us o' z vs] s(2) assms(2) by blast
  then show ?thesis using s by blast
next
  case False
  then show ?thesis using alloc_pages_none[of zs o'] assms by auto
qed

lemma sample_zone: "\<exists>z. init_zone (\<lambda>_. \<lparr>pg_in_use = True, pg_order = 0\<rparr>) 0 0x4000000 0x4100000 = Inr z \<and> zone_ok z
   \<and> free_set z = {0..<num_pages z} \<and> 0 < num_pages z"
proof -
  have "(0x4000000 :: u64) AND (of_nat PAGE_SIZE - 1) = 0" "(0x4000000 :: u64) \<le> 0x4100000"
    "200 * PAGE_SIZE \<le> unat (0x4100000 :: u64) - unat (0x4000000 :: u64)"
    by (simp_all add: PAGE_SIZE_def)
  from init_zone_ok[OF this, of "\<lambda>_. \<lparr>pg_in_use = True, pg_order = 0\<rparr>" 0] show ?thesis
    by (auto simp: Let_def PAGE_SIZE_def)
qed

theorem alloc_pages_complete_witness:
  "\<exists>z z' p. init_zone (\<lambda>_. \<lparr>pg_in_use = True, pg_order = 0\<rparr>) 0 0x4000000 0x4100000 = Inr z
     \<and> alloc_pages [z] (int 0) = Inr (base_addr z + of_nat (p * PAGE_SIZE), [z']) \<and> free_set z' = free_set z - {p}"
proof -
  obtain z where z: "init_zone (\<lambda>_. \<lparr>pg_in_use = True, pg_order = 0\<rparr>) 0 0x4000000 0x4100000 = Inr z" "zone_ok z"
    "free_set z = {0..<num_pages z}" "0 < num_pages z" using sample_zone by blast
  then have "0 \<in> free_set z" by simp
  then have "has_block z 0" by (auto simp: free_set_def has_block_def)
  then show ?thesis using alloc_pages_complete[of "[z]" 0] z
    by (auto simp: Cons_eq_append_conv append_eq_Cons_conv blk_def)
qed

text \<open>
  C27: freed blocks are never merged. Freeing a block of some order makes no block of a
  higher order available: the free lists above that order stay as they are, so that a
  zone whose large blocks have been split stays split even when all of it is free again.
\<close>

theorem free_pages_never_merges:
  assumes "zone_ok z" "o' \<le> 12" "p + 2 ^ o' \<le> num_pages z" "2 ^ o' dvd p" "blk o' p \<inter> free_set z = {}"
  shows "\<exists>z'. free_pages [z] (base_addr z + of_nat (p * PAGE_SIZE)) (int o') = Inr [z']
    \<and> free_set z' = free_set z \<union> blk o' p \<and> (\<forall>j. o' < j \<longrightarrow> has_block z' j = has_block z j)"
proof -
  obtain z' where z': "add_to_free_list z p (int o') = Inr z'" "free_lists z' = (free_lists z)[o' := free_lists z ! o' @ [p]]"
    using add_to_free_list_ok[OF assms] by blast
  obtain z2 where z2: "free_pages [z] (base_addr z + of_nat (p * PAGE_SIZE)) (int o') = Inr [z2]"
    "free_set z2 = free_set z \<union> blk o' p" using free_pages_single[OF assms] by blast
  have "z2 = z'" using z2(1) z'(1) free_pages_adds[OF assms(1,3)] by auto
  then have "on_list z2 j q = on_list z j q" if "o' < j" for j q using that z'(2) by (auto simp: on_list_def)
  then have "has_block z2 j = has_block z j" if "o' < j" for j
    using that unfolding has_block_def by (metis less_le_trans)
  then show ?thesis using z2 by blast
qed

theorem free_pages_never_merges_witness:
  "\<exists>z z1 z2 p. zone_ok z \<and> alloc_pages [z] (int 0) = Inr (base_addr z + of_nat (p * PAGE_SIZE), [z1])
     \<and> free_pages [z1] (base_addr z + of_nat (p * PAGE_SIZE)) (int 0) = Inr [z2]
     \<and> free_set z2 = free_set z \<and> (\<forall>j > 0. has_block z2 j = has_block z1 j)"
proof -
  obtain z where z: "zone_ok z" "free_set z = {0..<num_pages z}" "0 < num_pages z" using sample_zone by blast
  then have "0 \<in> free_set z" by simp
  then have "has_block z 0" by (auto simp: free_set_def has_block_def)
  then obtain p z1 where r: "alloc_pages [z] (int 0) = Inr (base_addr z + of_nat (p * PAGE_SIZE), [z1])" "zone_ok z1"
    "p + 2 ^ 0 \<le> num_pages z" "blk 0 p \<subseteq> free_set z" "free_set z1 = free_set z - blk 0 p"
    "num_pages z1 = num_pages z" "base_addr z1 = base_addr z"
    using alloc_pages_first[of "[]" 0 z "[]"] z(1) by auto
  have c: "(0 :: nat) \<le> 12" "p + 2 ^ 0 \<le> num_pages z1" "2 ^ 0 dvd p" "blk 0 p \<inter> free_set z1 = {}" using r(3,5,6) by auto
  have "free_set z1 \<union> blk 0 p = free_set z" using r(4,5) by auto
  then show ?thesis using free_pages_never_merges[OF r(2) c] r(1,7) z(1) by metis
qed

end
