(* ===== verification/Initfs.thy ===== *)
theory Initfs
  imports CString "HOL-Library.Sublist"
begin

text \<open>
  The initial file system: the image writer tools/mkinitfs.py, the directory reader
  servers/memmgr/initfs.c and the ELF parser libs/libelf/elf.c. An image is a list of
  bytes; a pointer into it is an offset. File names are ASCII, so that a name and its
  UTF-8 encoding are the same bytes.
\<close>

section \<open>Little-endian fields\<close>

fun le_bytes :: "nat \<Rightarrow> nat \<Rightarrow> u8 list" where
  "le_bytes 0 v = []"
| "le_bytes (Suc n) v = of_nat (v mod 256) # le_bytes n (v div 256)"

fun le_value :: "u8 list \<Rightarrow> nat" where
  "le_value [] = 0"
| "le_value (b # bs) = unat b + 256 * le_value bs"

text \<open>Reading \<open>n\<close> bytes at an offset.\<close>

definition peek :: "u8 list \<Rightarrow> nat \<Rightarrow> nat \<Rightarrow> u8 list res" where
  "peek img off n = (if off + n \<le> length img then Inr (take n (drop off img)) else Inl Fault)"

definition peek_le :: "u8 list \<Rightarrow> nat \<Rightarrow> nat \<Rightarrow> nat res" where
  "peek_le img off n = rmap le_value (peek img off n)"

lemma length_le_bytes [simp]: "length (le_bytes n v) = n"
  by (induction n arbitrary: v) auto

lemma le_value_bytes: "v < 256 ^ n \<Longrightarrow> le_value (le_bytes n v) = v"
proof (induction n arbitrary: v)
  case (Suc n)
  have "v div 256 < 256 ^ n" using Suc.prems by (simp add: less_mult_imp_div_less mult.commute)
  then show ?case using Suc.IH by (simp add: unat_of_nat)
qed simp

lemma peek_append: "off = length xs \<Longrightarrow> n = length ys \<Longrightarrow> peek (xs @ ys @ zs) off n = Inr ys"
  by (simp add: peek_def)

section \<open>Writing an image\<close>

definition FS_HEADER_SIZE :: nat where "FS_HEADER_SIZE = 128"
definition FILE_HEADER_SIZE :: nat where "FILE_HEADER_SIZE = 64"
definition JUMP_CODE_SIZE :: nat where "JUMP_CODE_SIZE = 16"
definition INITFS_VERSION :: nat where "INITFS_VERSION = 1"
definition INITFS_MAX_SIZE :: nat where "INITFS_MAX_SIZE = (16 * 1024 * 1024) - 1"

text \<open>
  \<open>struct.pack\<close> with the format 48sIH10x: the name is padded with zeros, and a number
  that does not fit its field is an error.
\<close>

definition construct_file_header :: "u8 list \<Rightarrow> nat \<Rightarrow> (u8 list \<times> nat) res" where
  "construct_file_header name n =
     rbind (require Assertion (length name < 48)) (\<lambda>_.
     let padding = PAGE_SIZE - n mod PAGE_SIZE in
     rbind (require Bug (n < 2 ^ 32 \<and> padding < 2 ^ 16)) (\<lambda>_.
     Inr (name @ replicate (48 - length name) 0 @ le_bytes 4 n @ le_bytes 2 padding @ replicate 10 0, padding)))"

text \<open>The loop over the files: the bytes appended to the image and the number of files.\<close>

fun append_files :: "u8 list option \<Rightarrow> (u8 list \<times> u8 list) list \<Rightarrow> (u8 list \<times> nat) res" where
  "append_files file_list [] = Inr ([], 0)"
| "append_files file_list ((name, content) # files) =
     (if (case file_list of Some l \<Rightarrow> l \<noteq> [] \<and> \<not> sublist name l | None \<Rightarrow> False)
      then append_files file_list files
      else if length name \<ge> 32 then Inl Panic
      else
        rbind (construct_file_header name (length content)) (\<lambda>(header, padding).
        rbind (append_files file_list files) (\<lambda>(img, n).
        Inr (header @ content @ replicate padding 0 @ img, n + 1))))"

definition make_image ::
  "u8 list \<Rightarrow> u8 list \<Rightarrow> u8 list option \<Rightarrow> (u8 list \<times> u8 list) list \<Rightarrow> u8 list res"
where
  "make_image startup_name startup_bin file_list files =
     rbind (require Bug (FS_HEADER_SIZE + FILE_HEADER_SIZE \<le> length startup_bin)) (\<lambda>_.
     rbind (construct_file_header startup_name (length startup_bin - FS_HEADER_SIZE - FILE_HEADER_SIZE))
       (\<lambda>(header, padding).
     let img = startup_bin @ replicate padding 0;
         img = take FS_HEADER_SIZE img @ header @ drop (FS_HEADER_SIZE + length header) img in
     rbind (append_files file_list files) (\<lambda>(bytes, n).
     let img = img @ bytes;
         fs_header = le_bytes 4 INITFS_VERSION @ le_bytes 4 (length img) @ le_bytes 4 (n + 1);
         img = take JUMP_CODE_SIZE img @ fs_header @ drop (JUMP_CODE_SIZE + length fs_header) img in
     rbind (require Panic (length img \<le> INITFS_MAX_SIZE)) (\<lambda>_. Inr img))))"

section \<open>Reading an image\<close>

record initfs_dir =
  dir_index :: nat
  dir_next :: nat

text \<open>The fields of the header and of a file record, by their offsets in the structs.\<close>

definition fs_version :: "u8 list \<Rightarrow> nat res" where "fs_version img = peek_le img 16 4"
definition fs_num_files :: "u8 list \<Rightarrow> nat res" where "fs_num_files img = peek_le img 24 4"
definition file_path :: "u8 list \<Rightarrow> nat \<Rightarrow> u8 list res" where "file_path img f = peek img f 48"
definition file_len :: "u8 list \<Rightarrow> nat \<Rightarrow> nat res" where "file_len img f = peek_le img (f + 48) 4"
definition file_padding_len :: "u8 list \<Rightarrow> nat \<Rightarrow> nat res" where "file_padding_len img f = peek_le img (f + 52) 2"
definition file_content :: "u8 list \<Rightarrow> nat \<Rightarrow> nat \<Rightarrow> nat \<Rightarrow> u8 list res" where
  "file_content img f off n = peek img (f + 64 + off) n"

definition initfs_opendir :: initfs_dir where
  "initfs_opendir = \<lparr>dir_index = 0, dir_next = 128\<rparr>"

definition initfs_readdir :: "u8 list \<Rightarrow> initfs_dir \<Rightarrow> (nat option \<times> initfs_dir) res" where
  "initfs_readdir img d =
     rbind (fs_num_files img) (\<lambda>n.
     if dir_index d \<ge> n then Inr (None, d)
     else
       rbind (file_len img (dir_next d)) (\<lambda>l.
       rbind (file_padding_len img (dir_next d)) (\<lambda>p.
       Inr (Some (dir_next d), \<lparr>dir_index = dir_index d + 1, dir_next = dir_next d + 64 + l + p\<rparr>))))"

definition initfs_init :: "u8 list \<Rightarrow> unit res" where
  "initfs_init img = rbind (fs_version img) (\<lambda>v. require Panic (v = INITFS_VERSION))"

text \<open>The client loop: every file that the directory enumerates, with its path and contents.\<close>

fun list_files :: "nat \<Rightarrow> u8 list \<Rightarrow> initfs_dir \<Rightarrow> (u8 list \<times> u8 list) list res" where
  "list_files 0 img d = Inl NoFuel"
| "list_files (Suc fuel) img d =
     rbind (initfs_readdir img d) (\<lambda>(f, d).
     case f of
       None \<Rightarrow> Inr []
     | Some f \<Rightarrow>
         rbind (file_path img f) (\<lambda>path.
         rbind (file_len img f) (\<lambda>l.
         rbind (file_content img f 0 l) (\<lambda>content.
         rmap ((#) (path, content)) (list_files fuel img d)))))"

section \<open>ELF files\<close>

definition sizeof_ehdr :: nat where "sizeof_ehdr = 64"
definition sizeof_phdr :: nat where "sizeof_phdr = 56"

text \<open>The program headers are where the ELF header ends: \<open>phdrs\<close> is an offset into the file.\<close>

record elf_file =
  entry :: u64
  num_phdrs :: nat
  phdrs :: nat

record elf64_phdr =
  p_offset :: u64
  p_vaddr :: u64
  p_filesz :: u64
  p_memsz :: u64

definition elf_parse :: "u8 list \<Rightarrow> nat \<Rightarrow> (error_t + elf_file) res" where
  "elf_parse img image_len =
     (if image_len < sizeof_ehdr then Inr (Inl ERR_TOO_SHORT)
      else
        rbind (memcmp img [0x7f, 0x45, 0x4c, 0x46] 4) (\<lambda>d.
        if d \<noteq> 0 then Inr (Inl ERR_NOT_ACCEPTABLE)
        else
          rbind (peek_le img 24 8) (\<lambda>e_entry.
          rbind (peek_le img 56 2) (\<lambda>e_phnum.
          rbind (peek_le img 52 2) (\<lambda>e_ehsize.
          Inr (Inr \<lparr>entry = of_nat e_entry, num_phdrs = e_phnum, phdrs = e_ehsize\<rparr>))))))"

definition read_phdr :: "u8 list \<Rightarrow> elf_file \<Rightarrow> nat \<Rightarrow> elf64_phdr res" where
  "read_phdr img elf i =
     (let a = phdrs elf + i * sizeof_phdr in
      rbind (peek_le img (a + 8) 8) (\<lambda>off.
      rbind (peek_le img (a + 16) 8) (\<lambda>va.
      rbind (peek_le img (a + 32) 8) (\<lambda>fsz.
      rbind (peek_le img (a + 40) 8) (\<lambda>msz.
      Inr \<lparr>p_offset = of_nat off, p_vaddr = of_nat va, p_filesz = of_nat fsz, p_memsz = of_nat msz\<rparr>)))))"

section \<open>What is written is read\<close>

text \<open>The bytes of one file in the image.\<close>

definition file_record :: "u8 list \<Rightarrow> u8 list \<Rightarrow> u8 list" where
  "file_record name content =
     name @ replicate (48 - length name) 0 @ le_bytes 4 (length content) @
     le_bytes 2 (PAGE_SIZE - length content mod PAGE_SIZE) @ replicate 10 0 @
     content @ replicate (PAGE_SIZE - length content mod PAGE_SIZE) 0"

definition selected :: "u8 list option \<Rightarrow> (u8 list \<times> u8 list) list \<Rightarrow> (u8 list \<times> u8 list) list" where
  "selected file_list = filter (\<lambda>(name, _). case file_list of Some l \<Rightarrow> l = [] \<or> sublist name l | None \<Rightarrow> True)"

lemma append_files_eq:
  "append_files fl files = Inr (bytes, n) \<Longrightarrow>
   bytes = concat (map (\<lambda>(name, c). file_record name c) (selected fl files)) \<and> n = length (selected fl files)
   \<and> (\<forall>(name, c) \<in> set (selected fl files). length name < 32 \<and> length c < 2 ^ 32)"
proof (induction fl files arbitrary: bytes n rule: append_files.induct)
  case (2 fl name content files)
  then show ?case
    by (auto simp: selected_def construct_file_header_def file_record_def Let_def split: if_splits option.splits)
qed (simp add: selected_def)

text \<open>Reading a record in the middle of an image.\<close>

lemma padding_bound: "PAGE_SIZE - n mod PAGE_SIZE < 256 ^ 2"
  by (simp add: PAGE_SIZE_def)

lemma read_record:
  assumes im: "img = pre @ file_record name c @ post" and name: "length name < 48" and c: "length c < 2 ^ 32"
  shows "file_path img (length pre) = Inr (name @ replicate (48 - length name) 0)"
    "file_len img (length pre) = Inr (length c)"
    "file_padding_len img (length pre) = Inr (PAGE_SIZE - length c mod PAGE_SIZE)"
    "file_content img (length pre) 0 (length c) = Inr c"
    "length pre + 64 + length c + (PAGE_SIZE - length c mod PAGE_SIZE) = length (pre @ file_record name c)"
proof -
  let ?path = "name @ replicate (48 - length name) 0" and ?l = "le_bytes 4 (length c)"
  let ?pad = "PAGE_SIZE - length c mod PAGE_SIZE"
  have "img = pre @ ?path @ (?l @ le_bytes 2 ?pad @ replicate 10 0 @ c @ replicate ?pad 0 @ post)"
    by (simp add: im file_record_def)
  then show "file_path img (length pre) = Inr ?path"
    unfolding file_path_def using peek_append[of "length pre" pre 48 ?path] name by simp
  have "img = (pre @ ?path) @ ?l @ (le_bytes 2 ?pad @ replicate 10 0 @ c @ replicate ?pad 0 @ post)"
    by (simp add: im file_record_def)
  then have "peek img (length pre + 48) 4 = Inr ?l"
    using peek_append[of "length pre + 48" "pre @ ?path" 4 ?l] name by simp
  then show "file_len img (length pre) = Inr (length c)"
    using c by (simp add: file_len_def peek_le_def le_value_bytes)
  have "img = (pre @ ?path @ ?l) @ le_bytes 2 ?pad @ (replicate 10 0 @ c @ replicate ?pad 0 @ post)"
    by (simp add: im file_record_def)
  then have "peek img (length pre + 52) 2 = Inr (le_bytes 2 ?pad)"
    using peek_append[of "length pre + 52" "pre @ ?path @ ?l" 2 "le_bytes 2 ?pad"] name by simp
  then show "file_padding_len img (length pre) = Inr ?pad"
    using le_value_bytes[OF padding_bound] by (simp add: file_padding_len_def peek_le_def)
  have "img = (pre @ ?path @ ?l @ le_bytes 2 ?pad @ replicate 10 0) @ c @ (replicate ?pad 0 @ post)"
    by (simp add: im file_record_def)
  then show "file_content img (length pre) 0 (length c) = Inr c"
    using peek_append[of "length pre + 64" "pre @ ?path @ ?l @ le_bytes 2 ?pad @ replicate 10 0" "length c" c] name
    by (simp add: file_content_def)
  show "length pre + 64 + length c + ?pad = length (pre @ file_record name c)"
    using name by (simp add: file_record_def)
qed

definition padded :: "u8 list \<times> u8 list \<Rightarrow> u8 list \<times> u8 list" where
  "padded f = (fst f @ replicate (48 - length (fst f)) 0, snd f)"

lemma list_files_eq:
  assumes n: "fs_num_files img = Inr n"
  shows "img = pre @ concat (map (\<lambda>(name, c). file_record name c) files) @ post \<Longrightarrow>
    \<forall>(name, c) \<in> set files. length name < 48 \<and> length c < 2 ^ 32 \<Longrightarrow> i + length files = n \<Longrightarrow> length files < fuel \<Longrightarrow>
    list_files fuel img \<lparr>dir_index = i, dir_next = length pre\<rparr> = Inr (map padded files)"
proof (induction files arbitrary: pre i fuel)
  case Nil
  then show ?case using n by (cases fuel) (auto simp: initfs_readdir_def)
next
  case (Cons f files)
  obtain name c where f: "f = (name, c)" by (cases f)
  obtain g where g: "fuel = Suc g" using Cons.prems(4) by (cases fuel) auto
  have im: "img = pre @ file_record name c @ (concat (map (\<lambda>(name, c). file_record name c) files) @ post)"
    using Cons.prems(1) f by simp
  have b: "length name < 48" "length c < 2 ^ 32" using Cons.prems(2) f by auto
  note r = read_record[OF im b]
  have rd: "initfs_readdir img \<lparr>dir_index = i, dir_next = length pre\<rparr> =
      Inr (Some (length pre), \<lparr>dir_index = Suc i, dir_next = length (pre @ file_record name c)\<rparr>)"
    using n r(2,3,5) Cons.prems(3) by (simp add: initfs_readdir_def)
  have "list_files g img \<lparr>dir_index = Suc i, dir_next = length (pre @ file_record name c)\<rparr> = Inr (map padded files)"
    using Cons.prems g im by (intro Cons.IH) auto
  then show ?case using rd r g f by (simp add: padded_def)
qed

text \<open>The layout of a complete image.\<close>

lemma make_image_layout:
  assumes "make_image sn sb fl files = Inr img"
  defines "all \<equiv> (sn, drop 192 sb) # selected fl files"
  shows "\<exists>total. img = (take 16 sb @ le_bytes 4 1 @ le_bytes 4 total @ le_bytes 4 (length all) @ drop 28 (take 128 sb)) @
      concat (map (\<lambda>(name, c). file_record name c) all)"
    "192 \<le> length sb" "\<forall>(name, c) \<in> set all. length name < 48 \<and> length c < 2 ^ 32" "length img \<le> INITFS_MAX_SIZE"
proof -
  define hdr where "hdr = sn @ replicate (48 - length sn) 0 @ le_bytes 4 (length sb - 192) @
      le_bytes 2 (PAGE_SIZE - (length sb - 192) mod PAGE_SIZE) @ replicate 10 0"
  define pad where "pad = PAGE_SIZE - (length sb - 192) mod PAGE_SIZE"
  have sz: "length sb - FS_HEADER_SIZE - FILE_HEADER_SIZE = length sb - 192"
    by (simp add: FS_HEADER_SIZE_def FILE_HEADER_SIZE_def)
  have cfh: "construct_file_header sn (length sb - 192) =
      (if length sn < 48 then if length sb - 192 < 2 ^ 32 then Inr (hdr, pad) else Inl Bug else Inl Assertion)"
    using padding_bound[of "length sb - 192"] by (simp add: construct_file_header_def Let_def hdr_def pad_def)
  have "192 \<le> length sb"
  proof (rule ccontr)
    assume "\<not> 192 \<le> length sb"
    then have "require Bug (FS_HEADER_SIZE + FILE_HEADER_SIZE \<le> length sb) = Inl Bug"
      by (simp add: FS_HEADER_SIZE_def FILE_HEADER_SIZE_def)
    then show False using assms(1) unfolding make_image_def by simp
  qed
  moreover have "length sn < 48 \<and> length sb - 192 < 2 ^ 32"
  proof (rule ccontr)
    assume "\<not> (length sn < 48 \<and> length sb - 192 < 2 ^ 32)"
    then obtain e where e: "construct_file_header sn (length sb - 192) = Inl e" using cfh by (auto split: if_splits)
    show False using assms(1) unfolding make_image_def sz e by simp
  qed
  ultimately have run: "192 \<le> length sb" "length sn < 48" "length sb - 192 < 2 ^ 32"
    "construct_file_header sn (length sb - 192) = Inr (hdr, pad)"
    using cfh by auto
  have lh: "length hdr = 64" using run(2) by (simp add: hdr_def)
  obtain bytes n where app: "append_files fl files = Inr (bytes, n)"
  proof (cases "append_files fl files")
    case (Inl e)
    then show thesis using assms(1) unfolding make_image_def sz run(4) Let_def by simp
  qed (use that in auto)
  note ap = append_files_eq[OF app]
  define body where "body = file_record sn (drop 192 sb) @ bytes"
  have first: "take 128 (sb @ replicate pad 0) @ hdr @ drop (128 + length hdr) (sb @ replicate pad 0) =
      take 128 sb @ file_record sn (drop 192 sb)"
    using run(1) lh by (simp add: file_record_def hdr_def pad_def)
  define im where "im = take 128 sb @ body"
  define total where "total = length im"
  define fsh where "fsh = le_bytes 4 1 @ le_bytes 4 total @ le_bytes 4 (n + 1)"
  have lf: "16 + length fsh = 28" by (simp add: fsh_def)
  have im1: "(take 128 (sb @ replicate pad 0) @ hdr @ drop (128 + length hdr) (sb @ replicate pad 0)) @ bytes = im"
    unfolding first im_def body_def by simp
  have rq: "require Bug (FS_HEADER_SIZE + FILE_HEADER_SIZE \<le> length sb) = Inr ()"
    using run(1) by (simp add: FS_HEADER_SIZE_def FILE_HEADER_SIZE_def)
  define out where "out = take 16 im @ fsh @ drop 28 im"
  have mk: "make_image sn sb fl files = rbind (require Panic (length out \<le> INITFS_MAX_SIZE)) (\<lambda>_. Inr out)"
    unfolding make_image_def rq sz run(4) app rbind.simps prod.case Let_def FS_HEADER_SIZE_def[symmetric]
    unfolding FS_HEADER_SIZE_def JUMP_CODE_SIZE_def INITFS_VERSION_def im1 total_def[symmetric] fsh_def[symmetric] lf out_def[symmetric]
    by (rule refl)
  have "length out \<le> INITFS_MAX_SIZE \<and> img = out"
    using assms(1) unfolding mk by (cases "length out \<le> INITFS_MAX_SIZE") simp_all
  then have img: "img = take 16 im @ fsh @ drop 28 im" "length img \<le> INITFS_MAX_SIZE" by (simp_all add: out_def)
  have "concat (map (\<lambda>(name, c). file_record name c) all) = body" "length all = n + 1"
    using ap by (simp_all add: all_def body_def)
  then show "\<exists>total. img = (take 16 sb @ le_bytes 4 1 @ le_bytes 4 total @ le_bytes 4 (length all) @ drop 28 (take 128 sb)) @
      concat (map (\<lambda>(name, c). file_record name c) all)"
    using img(1) run(1) by (intro exI[of _ total]) (simp add: im_def fsh_def)
  show "192 \<le> length sb" by (rule run(1))
  show "\<forall>(name, c) \<in> set all. length name < 48 \<and> length c < 2 ^ 32"
    using ap run(2,3) by (auto simp: all_def)
  show "length img \<le> INITFS_MAX_SIZE" by (rule img(2))
qed

lemma make_image_shape:
  assumes "make_image sn sb fl files = Inr img"
  defines "all \<equiv> (sn, drop 192 sb) # selected fl files"
  shows "\<exists>pre. length pre = 128 \<and> img = pre @ concat (map (\<lambda>(name, c). file_record name c) all)"
    "fs_version img = Inr 1" "fs_num_files img = Inr (length all)"
proof -
  note lay = make_image_layout[OF assms(1), folded all_def]
  obtain total where img: "img = (take 16 sb @ le_bytes 4 1 @ le_bytes 4 total @ le_bytes 4 (length all) @ drop 28 (take 128 sb)) @
      concat (map (\<lambda>(name, c). file_record name c) all)"
    using lay(1) by blast
  show "\<exists>pre. length pre = 128 \<and> img = pre @ concat (map (\<lambda>(name, c). file_record name c) all)"
    using img lay(2)
    by (intro exI[of _ "take 16 sb @ le_bytes 4 1 @ le_bytes 4 total @ le_bytes 4 (length all) @ drop 28 (take 128 sb)"]) simp
  let ?rest = "drop 28 (take 128 sb) @ concat (map (\<lambda>(name, c). file_record name c) all)"
  have "img = take 16 sb @ le_bytes 4 1 @ (le_bytes 4 total @ le_bytes 4 (length all) @ ?rest)" by (simp add: img)
  then have "peek img 16 4 = Inr (le_bytes 4 1)" using peek_append[of 16 "take 16 sb" 4 "le_bytes 4 1"] lay(2) by simp
  then show "fs_version img = Inr 1" by (simp add: fs_version_def peek_le_def le_value_bytes)
  have "length xs \<le> length (concat (map (\<lambda>(name, c). file_record name c) xs))" for xs
    by (induction xs) (auto simp: file_record_def)
  then have "length all \<le> length img" using img by (metis length_append trans_le_add2)
  then have n: "length all < 256 ^ 4" using lay(4) by (simp add: INITFS_MAX_SIZE_def)
  have "img = (take 16 sb @ le_bytes 4 1 @ le_bytes 4 total) @ le_bytes 4 (length all) @ ?rest" by (simp add: img)
  then have "peek img 24 4 = Inr (le_bytes 4 (length all))"
    using peek_append[of 24 "take 16 sb @ le_bytes 4 1 @ le_bytes 4 total" 4 "le_bytes 4 (length all)"] lay(2) by simp
  then show "fs_num_files img = Inr (length all)" by (simp add: fs_num_files_def peek_le_def le_value_bytes[OF n])
qed

lemma make_image_roundtrip:
  assumes "make_image sn sb fl files = Inr img"
  defines "all \<equiv> (sn, drop 192 sb) # selected fl files"
  shows "initfs_init img = Inr ()" "list_files (Suc (length all)) img initfs_opendir = Inr (map padded all)"
proof -
  note sh = make_image_shape[OF assms(1), folded all_def]
  show "initfs_init img = Inr ()" using sh(2) by (simp add: initfs_init_def INITFS_VERSION_def)
  obtain pre where pre: "length pre = 128" "img = pre @ concat (map (\<lambda>(name, c). file_record name c) all)"
    using sh(1) by blast
  show "list_files (Suc (length all)) img initfs_opendir = Inr (map padded all)"
    using list_files_eq[OF sh(3), of pre all "[]" 0 "Suc (length all)"] pre make_image_layout(3)[OF assms(1), folded all_def]
    by (simp add: initfs_opendir_def)
qed

section \<open>Properties\<close>

text \<open>
  C9: the initial file system can be read back. Whenever mkinitfs makes an image from the
  startup program and a directory of files, the reader accepts the version, and its
  directory loop finds exactly the startup program (without the space for the headers)
  and the selected files, in this order, each with its zero-padded name and its contents.
\<close>

theorem initfs_roundtrip:
  assumes "make_image startup_name startup_bin file_list files = Inr img"
  shows "initfs_init img = Inr ()
    \<and> list_files (Suc (Suc (length (selected file_list files)))) img initfs_opendir =
        Inr (map padded ((startup_name, drop 192 startup_bin) # selected file_list files))"
  using make_image_roundtrip[OF assms] by simp

lemma sample_image: "\<exists>img. make_image [0x61] (replicate 192 7) None [([0x62], [1, 2])] = Inr img"
  by (simp add: make_image_def construct_file_header_def FS_HEADER_SIZE_def FILE_HEADER_SIZE_def JUMP_CODE_SIZE_def
      INITFS_MAX_SIZE_def PAGE_SIZE_def Let_def)

theorem initfs_roundtrip_witness:
  "\<exists>img. make_image [0x61] (replicate 192 7) None [([0x62], [1, 2])] = Inr img
     \<and> list_files 3 img initfs_opendir = Inr [padded ([0x61], []), padded ([0x62], [1, 2])]"
proof -
  obtain img where img: "make_image [0x61] (replicate 192 7) None [([0x62], [1, 2])] = Inr img" using sample_image by blast
  from initfs_roundtrip[OF img] img show ?thesis by (auto simp: selected_def numeral_3_eq_3 simp del: list_files.simps)
qed

end
