(* ===== verification/Libresea.thy ===== *)
theory Libresea
  imports CString Message
begin

text \<open>
  The user-side IPC library: the system call wrappers of libs/libresea/syscall.c, the
  server loop of libs/libserver/server.c and the port access of libs/libdriver/io.c. An
  error is the int that C code passes around. The kernel behind the syscall instruction
  and the devices behind the ports are a parameter: functions on a state of the rest of
  the system.
\<close>

section \<open>System calls\<close>

record 'w os =
  os_open :: "'w \<Rightarrow> int \<times> 'w"
  os_close :: "int \<Rightarrow> 'w \<Rightarrow> int \<times> 'w"
  os_link :: "int \<Rightarrow> int \<Rightarrow> 'w \<Rightarrow> int \<times> 'w"
  os_transfer :: "int \<Rightarrow> int \<Rightarrow> 'w \<Rightarrow> int \<times> 'w"
  os_ipc :: "int \<Rightarrow> u32 \<Rightarrow> message \<Rightarrow> u64 \<Rightarrow> 'w \<Rightarrow> int \<times> message \<times> 'w"

text \<open>
  A user thread: the message buffer and the page base of its thread information block,
  and the rest of the system. Servers extend the record with their variables.
\<close>

record 'w user =
  ipc_buffer :: message
  tib_page_base :: u64
  world :: 'w

text \<open>The value of an error code in a release build.\<close>

abbreviation err_code :: "error_t \<Rightarrow> int" where "err_code \<equiv> error_value False"

text \<open>
  A message in a local variable of a program has room for the declared inline payload
  only; the buffer of the thread information block goes up to the end of its page.
\<close>

definition copy_user_message :: "message \<Rightarrow> message \<Rightarrow> message res" where
  "copy_user_message dst src =
     rbind (inlined_memcpy (payload_data dst) (payload_data src) (INLINE_PAYLOAD_LEN (header src))) (\<lambda>bs.
     Inr \<lparr>header = header src, msg_from = msg_from src, notification = notification src,
          payload_channel = payload_channel src, payload_page = payload_page src, payload_data = bs\<rparr>)"

definition copy_to_ipc_buffer :: "message \<Rightarrow> ('w, 'b) user_scheme \<Rightarrow> ('w, 'b) user_scheme res" where
  "copy_to_ipc_buffer m u = rmap (\<lambda>b. u\<lparr>ipc_buffer := b\<rparr>) (copy_user_message (ipc_buffer u) m)"

definition copy_from_ipc_buffer :: "message \<Rightarrow> ('w, 'b) user_scheme \<Rightarrow> message res" where
  "copy_from_ipc_buffer r u = copy_user_message r (ipc_buffer u)"

definition post_receive_work :: "int \<Rightarrow> message \<Rightarrow> ('w, 'b) user_scheme \<Rightarrow> (int \<times> message) res" where
  "post_receive_work err r u =
     (if err = err_code OK then
        let type = sint (ucast (drop_bit MSG_TYPE_OFFSET (header (ipc_buffer u)) AND 0xffff) :: u16) in
        if type < 0 then Inr (- type, r)
        else rmap (Pair err) (copy_from_ipc_buffer r u)
      else Inr (err, r))"

definition set_page_base :: "u64 \<Rightarrow> ('w, 'b) user_scheme \<Rightarrow> ('w, 'b) user_scheme" where
  "set_page_base b u = u\<lparr>tib_page_base := b\<rparr>"

text \<open>\<open>open\<close> returns the negative number of the system call as it is, and the channel id otherwise.\<close>

definition ch_open :: "'w os \<Rightarrow> ('w, 'b) user_scheme \<Rightarrow> (int \<times> int option) \<times> ('w, 'b) user_scheme" where
  "ch_open S u =
     (let (cid_or_err, w) = os_open S (world u); u = u\<lparr>world := w\<rparr> in
      if cid_or_err < 0 then ((cid_or_err, None), u) else ((err_code OK, Some cid_or_err), u))"

definition ch_close :: "'w os \<Rightarrow> int \<Rightarrow> ('w, 'b) user_scheme \<Rightarrow> int \<times> ('w, 'b) user_scheme" where
  "ch_close S ch u = (let (e, w) = os_close S ch (world u) in (e, u\<lparr>world := w\<rparr>))"

definition ch_link :: "'w os \<Rightarrow> int \<Rightarrow> int \<Rightarrow> ('w, 'b) user_scheme \<Rightarrow> int \<times> ('w, 'b) user_scheme" where
  "ch_link S ch1 ch2 u = (let (e, w) = os_link S ch1 ch2 (world u) in (e, u\<lparr>world := w\<rparr>))"

definition ch_transfer :: "'w os \<Rightarrow> int \<Rightarrow> int \<Rightarrow> ('w, 'b) user_scheme \<Rightarrow> int \<times> ('w, 'b) user_scheme" where
  "ch_transfer S src dst u = (let (e, w) = os_transfer S src dst (world u) in (e, u\<lparr>world := w\<rparr>))"

text \<open>The system call itself: the kernel reads and writes the message buffer.\<close>

definition user_sys_ipc :: "'w os \<Rightarrow> int \<Rightarrow> u32 \<Rightarrow> ('w, 'b) user_scheme \<Rightarrow> int \<times> ('w, 'b) user_scheme" where
  "user_sys_ipc S ch ops u =
     (let (e, b, w) = os_ipc S ch ops (ipc_buffer u) (tib_page_base u) (world u) in (e, u\<lparr>ipc_buffer := b, world := w\<rparr>))"

definition ipc_recv ::
  "'w os \<Rightarrow> int \<Rightarrow> message \<Rightarrow> ('w, 'b) user_scheme \<Rightarrow> (int \<times> message \<times> ('w, 'b) user_scheme) res" where
  "ipc_recv S ch r u =
     (let (err, u) = user_sys_ipc S ch IPC_RECV u in
      rmap (\<lambda>(err, r). (err, r, u)) (post_receive_work err r u))"

definition ipc_send :: "'w os \<Rightarrow> int \<Rightarrow> message \<Rightarrow> ('w, 'b) user_scheme \<Rightarrow> (int \<times> ('w, 'b) user_scheme) res" where
  "ipc_send S ch m u = rmap (user_sys_ipc S ch IPC_SEND) (copy_to_ipc_buffer m u)"

definition ipc_async_send :: "'w os \<Rightarrow> int \<Rightarrow> message \<Rightarrow> ('w, 'b) user_scheme \<Rightarrow> (int \<times> ('w, 'b) user_scheme) res" where
  "ipc_async_send S ch m u = rmap (user_sys_ipc S ch (IPC_SEND OR IPC_NOBLOCK)) (copy_to_ipc_buffer m u)"

definition ipc_call ::
  "'w os \<Rightarrow> int \<Rightarrow> message \<Rightarrow> message \<Rightarrow> ('w, 'b) user_scheme \<Rightarrow> (int \<times> message \<times> ('w, 'b) user_scheme) res" where
  "ipc_call S ch m r u =
     rbind (copy_to_ipc_buffer m u) (\<lambda>u.
     let (err, u) = user_sys_ipc S ch (IPC_SEND OR IPC_RECV) u in
     rmap (\<lambda>(err, r). (err, r, u)) (post_receive_work err r u))"

section \<open>The server loop\<close>

definition DEFERRED_WORK_DELAY :: int where "DEFERRED_WORK_DELAY = 100"
definition DEFERRED_WORK_DELAY_MAX :: int where "DEFERRED_WORK_DELAY_MAX = 5 * 1000"

text \<open>The retries of a receive: every retry is a system call, so that only fuel bounds them.\<close>

fun recv_loop ::
  "nat \<Rightarrow> 'w os \<Rightarrow> int \<Rightarrow> message \<Rightarrow> ('w, 'b) user_scheme \<Rightarrow> (int \<times> message \<times> ('w, 'b) user_scheme) res" where
  "recv_loop 0 S ch m u = Inl NoFuel"
| "recv_loop (Suc n) S ch m u =
     rbind (ipc_recv S ch m u) (\<lambda>(err, m, u).
     if err = err_code ERR_NEEDS_RETRY then recv_loop n S ch m u else Inr (err, m, u))"

text \<open>The reply that the loop sends for what the handler returns.\<close>

definition reply_message :: "int \<Rightarrow> message \<Rightarrow> message" where
  "reply_message err m =
     (if err \<noteq> err_code OK then m\<lparr>header := push_bit MSG_TYPE_OFFSET (word_of_int (- err))\<rparr> else m)"

definition retry_delay :: "int \<Rightarrow> u32" where
  "retry_delay retries = word_of_int (min (int32 (DEFERRED_WORK_DELAY * retries)) DEFERRED_WORK_DELAY_MAX)"

text \<open>
  The deferred work after a message; the timer server is channel 1, the result of the
  timer call is not looked at. The result is the error with which the loop returns, if
  any, and the number of retries.
\<close>

definition after_message ::
  "(int \<Rightarrow> int \<Rightarrow> u32 \<Rightarrow> ('w, 'b) user_scheme \<Rightarrow> ('w, 'b) user_scheme) \<Rightarrow>
   (('w, 'b) user_scheme \<Rightarrow> (int \<times> ('w, 'b) user_scheme) res) option \<Rightarrow>
   int \<Rightarrow> bool \<Rightarrow> int \<Rightarrow> ('w, 'b) user_scheme \<Rightarrow> (int option \<times> int \<times> ('w, 'b) user_scheme) res" where
  "after_message call_timer_set deferred_work timer_ch timeout retries u =
     (case deferred_work of
        None \<Rightarrow> Inr (None, retries, u)
      | Some work \<Rightarrow>
          if retries = 0 \<or> timeout then
            rbind (work u) (\<lambda>(err, u).
            if err = err_code ERR_NEEDS_RETRY then
              let retries = int32 (retries + 1) in
              Inr (None, retries, call_timer_set 1 timer_ch (retry_delay retries) u)
            else if err \<noteq> err_code OK then Inr (Some err, retries, u)
            else Inr (None, 0, u))
          else Inr (None, retries, u))"

text \<open>One turn of the loop: the error with which it returns, if any, and the new state.\<close>

definition mainloop_turn ::
  "nat \<Rightarrow> 'w os \<Rightarrow> (int \<Rightarrow> int \<Rightarrow> u32 \<Rightarrow> ('w, 'b) user_scheme \<Rightarrow> ('w, 'b) user_scheme) \<Rightarrow> int \<Rightarrow>
   (message \<Rightarrow> ('w, 'b) user_scheme \<Rightarrow> (int \<times> message \<times> ('w, 'b) user_scheme) res) \<Rightarrow>
   (('w, 'b) user_scheme \<Rightarrow> (int \<times> ('w, 'b) user_scheme) res) option \<Rightarrow> int \<Rightarrow>
   int \<Rightarrow> message \<Rightarrow> ('w, 'b) user_scheme \<Rightarrow> (int option \<times> int \<times> message \<times> ('w, 'b) user_scheme) res" where
  "mainloop_turn fuel S call_timer_set ch process deferred_work timer_ch retries m u =
     rbind (recv_loop fuel S ch m u) (\<lambda>(err, m, u).
     if err \<noteq> err_code OK then Inr (Some err, retries, m, u)
     else
       let timeout = (notification m AND NOTIFY_TIMER \<noteq> 0) in
       rbind (process m u) (\<lambda>(err, m, u).
       rbind (if err \<noteq> err_code DONT_REPLY
              then rmap (\<lambda>(e, u). (e, reply_message err m, u)) (ipc_send S (msg_from m) (reply_message err m) u)
              else Inr (err_code OK, m, u)) (\<lambda>(e, m, u).
       if e \<noteq> err_code OK then Inr (Some e, retries, m, u)
       else rmap (\<lambda>(e, retries, u). (e, retries, m, u))
              (after_message call_timer_set deferred_work timer_ch timeout retries u))))"

text \<open>
  The loop runs until a turn returns an error; \<open>None\<close> is a loop that still runs after the
  given number of turns.
\<close>

fun mainloop_turns ::
  "nat \<Rightarrow> (int \<Rightarrow> message \<Rightarrow> 'u \<Rightarrow> (int option \<times> int \<times> message \<times> 'u) res) \<Rightarrow>
   int \<Rightarrow> message \<Rightarrow> 'u \<Rightarrow> (int option \<times> 'u) res" where
  "mainloop_turns 0 turn retries m u = Inr (None, u)"
| "mainloop_turns (Suc n) turn retries m u =
     rbind (turn retries m u) (\<lambda>(e, retries, m, u).
     case e of Some err \<Rightarrow> Inr (Some err, u) | None \<Rightarrow> mainloop_turns n turn retries m u)"

definition server_mainloop_with_deferred ::
  "nat \<Rightarrow> nat \<Rightarrow> 'w os \<Rightarrow> (int \<Rightarrow> int \<Rightarrow> u32 \<Rightarrow> ('w, 'b) user_scheme \<Rightarrow> ('w, 'b) user_scheme) \<Rightarrow> int \<Rightarrow>
   (message \<Rightarrow> ('w, 'b) user_scheme \<Rightarrow> (int \<times> message \<times> ('w, 'b) user_scheme) res) \<Rightarrow>
   (('w, 'b) user_scheme \<Rightarrow> (int \<times> ('w, 'b) user_scheme) res) option \<Rightarrow> message \<Rightarrow>
   ('w, 'b) user_scheme \<Rightarrow> (int option \<times> ('w, 'b) user_scheme) res" where
  "server_mainloop_with_deferred turns fuel S call_timer_set ch process deferred_work m u =
     (case deferred_work of
        None \<Rightarrow> mainloop_turns turns (mainloop_turn fuel S call_timer_set ch process None 0) 0 m u
      | Some _ \<Rightarrow>
          (case ch_open S u of
             ((err, None), u) \<Rightarrow> Inr (Some err, u)
           | ((err, Some timer_ch), u) \<Rightarrow>
               let (err, u) = ch_transfer S timer_ch ch u in
               if err \<noteq> err_code OK then Inr (Some err, u)
               else mainloop_turns turns (mainloop_turn fuel S call_timer_set ch process deferred_work timer_ch) 0 m u))"

definition server_mainloop ::
  "nat \<Rightarrow> nat \<Rightarrow> 'w os \<Rightarrow> (int \<Rightarrow> int \<Rightarrow> u32 \<Rightarrow> ('w, 'b) user_scheme \<Rightarrow> ('w, 'b) user_scheme) \<Rightarrow> int \<Rightarrow>
   (message \<Rightarrow> ('w, 'b) user_scheme \<Rightarrow> (int \<times> message \<times> ('w, 'b) user_scheme) res) \<Rightarrow> message \<Rightarrow>
   ('w, 'b) user_scheme \<Rightarrow> (int option \<times> ('w, 'b) user_scheme) res" where
  "server_mainloop turns fuel S call_timer_set ch process m u =
     server_mainloop_with_deferred turns fuel S call_timer_set ch process None m u"

text \<open>The generated stubs of the discovery server are arguments of its two clients.\<close>

definition server_register ::
  "'w os \<Rightarrow> (int \<Rightarrow> u8 \<Rightarrow> int \<Rightarrow> ('w, 'b) user_scheme \<Rightarrow> int \<times> ('w, 'b) user_scheme) \<Rightarrow> int \<Rightarrow> int \<Rightarrow> u16 \<Rightarrow>
   ('w, 'b) user_scheme \<Rightarrow> int \<times> ('w, 'b) user_scheme" where
  "server_register S call_discovery_publicize discovery_server server_ch interface u =
     (case ch_open S u of
        ((err, None), u) \<Rightarrow> (err, u)
      | ((_, Some ch), u) \<Rightarrow>
          let (err, u) = ch_transfer S ch server_ch u in
          if err \<noteq> err_code OK then (err, u)
          else call_discovery_publicize discovery_server (ucast interface) ch u)"

definition server_connect ::
  "(int \<Rightarrow> u8 \<Rightarrow> ('w, 'b) user_scheme \<Rightarrow> (int \<times> int) \<times> ('w, 'b) user_scheme) \<Rightarrow> int \<Rightarrow> u16 \<Rightarrow>
   ('w, 'b) user_scheme \<Rightarrow> (int \<times> int) \<times> ('w, 'b) user_scheme" where
  "server_connect call_discovery_connect discovery_server interface u =
     call_discovery_connect discovery_server (ucast interface) u"

section \<open>Port access\<close>

record 'w ioports =
  in8 :: "u16 \<Rightarrow> 'w \<Rightarrow> u8 \<times> 'w"
  in16 :: "u16 \<Rightarrow> 'w \<Rightarrow> u16 \<times> 'w"
  in32 :: "u16 \<Rightarrow> 'w \<Rightarrow> u32 \<times> 'w"
  out8 :: "u16 \<Rightarrow> u8 \<Rightarrow> 'w \<Rightarrow> 'w"
  out16 :: "u16 \<Rightarrow> u16 \<Rightarrow> 'w \<Rightarrow> 'w"
  out32 :: "u16 \<Rightarrow> u32 \<Rightarrow> 'w \<Rightarrow> 'w"

datatype io_space_type = IO_SPACE_IOPORT | IO_SPACE_MEMORY

record io_handle =
  io_type :: io_space_type
  io_addr :: addr
  io_size :: u64

definition io_open ::
  "(int \<Rightarrow> 'w \<Rightarrow> int \<times> 'w) \<Rightarrow> int \<Rightarrow> io_space_type \<Rightarrow> addr \<Rightarrow> u64 \<Rightarrow> 'w \<Rightarrow> ((int \<times> io_handle option) \<times> 'w) res" where
  "io_open call_io_allow_iomapped_io io_server type a sz w =
     (case type of
        IO_SPACE_IOPORT \<Rightarrow>
          let (err, w) = call_io_allow_iomapped_io io_server w in
          if err \<noteq> err_code OK then Inr ((err, None), w)
          else Inr ((err_code OK, Some \<lparr>io_type = type, io_addr = a, io_size = sz\<rparr>), w)
      | IO_SPACE_MEMORY \<Rightarrow> Inl Unimplemented)"

definition io_close :: "io_handle \<Rightarrow> unit res" where
  "io_close h = (case io_type h of IO_SPACE_IOPORT \<Rightarrow> Inr () | IO_SPACE_MEMORY \<Rightarrow> Inl Unimplemented)"

text \<open>A port number is the lower half word of the address.\<close>

definition io_port :: "io_handle \<Rightarrow> u64 \<Rightarrow> u16 res" where
  "io_port h offset = rbind (require Assertion (io_type h = IO_SPACE_IOPORT)) (\<lambda>_. Inr (ucast (io_addr h + offset)))"

definition io_read8 :: "'w ioports \<Rightarrow> io_handle \<Rightarrow> u64 \<Rightarrow> 'w \<Rightarrow> (u8 \<times> 'w) res" where
  "io_read8 P h offset w = rmap (\<lambda>p. in8 P p w) (io_port h offset)"

definition io_read16 :: "'w ioports \<Rightarrow> io_handle \<Rightarrow> u64 \<Rightarrow> 'w \<Rightarrow> (u16 \<times> 'w) res" where
  "io_read16 P h offset w = rmap (\<lambda>p. in16 P p w) (io_port h offset)"

definition io_read32 :: "'w ioports \<Rightarrow> io_handle \<Rightarrow> u64 \<Rightarrow> 'w \<Rightarrow> (u32 \<times> 'w) res" where
  "io_read32 P h offset w = rmap (\<lambda>p. in32 P p w) (io_port h offset)"

definition io_write8 :: "'w ioports \<Rightarrow> io_handle \<Rightarrow> u64 \<Rightarrow> u8 \<Rightarrow> 'w \<Rightarrow> 'w res" where
  "io_write8 P h offset value w = rmap (\<lambda>p. out8 P p value w) (io_port h offset)"

definition io_write16 :: "'w ioports \<Rightarrow> io_handle \<Rightarrow> u64 \<Rightarrow> u16 \<Rightarrow> 'w \<Rightarrow> 'w res" where
  "io_write16 P h offset value w = rmap (\<lambda>p. out16 P p value w) (io_port h offset)"

definition io_write32 :: "'w ioports \<Rightarrow> io_handle \<Rightarrow> u64 \<Rightarrow> u32 \<Rightarrow> 'w \<Rightarrow> 'w res" where
  "io_write32 P h offset value w = rmap (\<lambda>p. out32 P p value w) (io_port h offset)"

definition io_listen_interrupt ::
  "'w os \<Rightarrow> (int \<Rightarrow> int \<Rightarrow> u8 \<Rightarrow> ('w, 'b) user_scheme \<Rightarrow> int \<times> ('w, 'b) user_scheme) \<Rightarrow> int \<Rightarrow> int \<Rightarrow> int \<Rightarrow>
   ('w, 'b) user_scheme \<Rightarrow> (int \<times> int option) \<times> ('w, 'b) user_scheme" where
  "io_listen_interrupt S call_io_listen_irq io_server receive_at irq u =
     (case ch_open S u of
        ((err, None), u) \<Rightarrow> ((err, None), u)
      | ((_, Some ch), u) \<Rightarrow>
          let (err, u) = ch_transfer S ch receive_at u in
          if err \<noteq> err_code OK then ((err, None), u)
          else
            let (err, u) = call_io_listen_irq io_server ch (word_of_int irq) u in
            if err \<noteq> err_code OK then ((err, None), u) else ((err_code OK, Some ch), u))"

section \<open>Properties\<close>

lemma type_field: "ucast (drop_bit 16 (h :: u32) AND 0xffff) = (ucast (drop_bit 16 h) :: u16)"
proof -
  have m: "(0xffff :: u32) = mask 16" by (simp add: mask_eq_exp_minus_1)
  show ?thesis unfolding m by (rule bit_word_eqI) (auto simp: bit_simps)
qed

lemma type_nonneg: "\<not> bit (h :: u32) 31 \<Longrightarrow> 0 \<le> sint (ucast (drop_bit 16 h) :: u16)"
  by (simp add: bit_simps not_less[symmetric] bit_last_iff[symmetric])



text \<open>
  C39: an oversized message overruns the receiver's variable. The kernel passes on any
  payload length that the 11 bits of the header can hold; when a program receives such a
  message with more than 480 bytes into a message variable, the copy writes beyond it.
\<close>

theorem oversized_payload_overruns:
  assumes "os_ipc S ch IPC_RECV (ipc_buffer u) (tib_page_base u) (world u) = (err_code OK, b, w)"
    "\<not> bit (header b) 31" "INLINE_PAYLOAD_LEN_MAX < INLINE_PAYLOAD_LEN (header b)"
    "length (payload_data r) = INLINE_PAYLOAD_LEN_MAX"
  shows "ipc_recv S ch r u = Inl Fault"
  using assms type_nonneg[of "header b"]
  by (simp add: ipc_recv_def user_sys_ipc_def post_receive_work_def type_field MSG_TYPE_OFFSET_def
      copy_from_ipc_buffer_def copy_user_message_def inlined_memcpy_def)

text \<open>A system whose receives always find the given message in the buffer.\<close>

definition echo_os :: "message \<Rightarrow> unit os" where
  "echo_os m = \<lparr>os_open = \<lambda>w. (1, w), os_close = \<lambda>_ w. (0, w), os_link = \<lambda>_ _ w. (0, w), os_transfer = \<lambda>_ _ w. (0, w),
     os_ipc = \<lambda>_ _ _ _ w. (0, m, w)\<rparr>"

theorem oversized_payload_overruns_witness:
  "ipc_recv (echo_os ((empty_message 2048)\<lparr>header := 0x010107ff\<rparr>)) 1 (empty_message 480)
     \<lparr>ipc_buffer = empty_message 4040, tib_page_base = 0, world = ()\<rparr> = Inl Fault"
  by (rule oversized_payload_overruns[where b = "(empty_message 2048)\<lparr>header := 0x010107ff\<rparr>" and w = "()"])
    (simp_all add: echo_os_def error_value_def INLINE_PAYLOAD_LEN_MAX_def INLINE_PAYLOAD_LEN_def empty_message_def)

end
