(* ===== verification/Memmgr.thy ===== *)
theory Memmgr
  imports Buddy Initfs Libresea
begin

text \<open>
  The memory manager, the first user process: servers/memmgr/main.c and
  servers/memmgr/process.c. It launches the servers in the initial file system, fills
  their pages, hands out physical pages, connects clients with servers and serves files.
  The stubs and the message layout that the IDL compiler generates are parameters.
\<close>

section \<open>Parameters\<close>

record memmgr_idl =
  MEMMGR_GET_FRAMEBUFFER_MSG :: u32
  MEMORY_ALLOC_PAGES_MSG :: u32
  MEMORY_ALLOC_PHY_PAGES_MSG :: u32
  MM_PAGER_FILL_MSG :: u32
  MM_RUNTIME_EXIT_MSG :: u32
  MM_RUNTIME_PRINTCHAR_MSG :: u32
  DISCOVERY_PUBLICIZE_MSG :: u32
  DISCOVERY_CONNECT_MSG :: u32
  MM_SERVER_CONNECT_REPLY_MSG :: u32
  FS_OPEN_MSG :: u32
  FS_READ_MSG :: u32
  MM_PAGER_FILL_REPLY_MSG :: u32
  RUNTIME_PRINTCHAR_REPLY_MSG :: u32
  MEMORY_ALLOC_PAGES_REPLY_MSG :: u32
  MEMORY_ALLOC_PHY_PAGES_REPLY_MSG :: u32
  MEMMGR_GET_FRAMEBUFFER_REPLY_MSG :: u32
  DISCOVERY_PUBLICIZE_REPLY_MSG :: u32
  FS_OPEN_REPLY_MSG :: u32
  FS_READ_REPLY_MSG :: u32
  fill_pid :: "message \<Rightarrow> int"
  fill_addr :: "message \<Rightarrow> addr"
  mm_printchar_ch :: "message \<Rightarrow> u8"
  alloc_order :: "message \<Rightarrow> u64"
  phy_map_at :: "message \<Rightarrow> addr"
  phy_order :: "message \<Rightarrow> u64"
  set_phy_paddr :: "addr \<Rightarrow> message \<Rightarrow> message"
  set_framebuffer :: "u32 \<Rightarrow> u32 \<Rightarrow> u8 \<Rightarrow> message \<Rightarrow> message"
  publicize_interface :: "message \<Rightarrow> u8"
  publicize_ch :: "message \<Rightarrow> int"
  connect_interface :: "message \<Rightarrow> u8"
  connect_reply_ch :: "message \<Rightarrow> int"
  open_path :: "message \<Rightarrow> u8 list"
  set_open_handle :: "int \<Rightarrow> message \<Rightarrow> message"
  read_handle :: "message \<Rightarrow> int"
  read_offset :: "message \<Rightarrow> u64"
  read_len :: "message \<Rightarrow> u64"

text \<open>The stubs; what they return comes before the new state of the rest of the system.\<close>

record 'w memmgr_stubs =
  mm_os :: "'w os"
  call_process_create :: "int \<Rightarrow> u8 list \<Rightarrow> 'w \<Rightarrow> (int \<times> int \<times> int) \<times> 'w"
  call_server_connect :: "int \<Rightarrow> u8 \<Rightarrow> 'w \<Rightarrow> (int \<times> int) \<times> 'w"
  call_process_send_channel :: "int \<Rightarrow> int \<Rightarrow> int \<Rightarrow> 'w \<Rightarrow> int \<times> 'w"
  call_process_add_pager :: "int \<Rightarrow> int \<Rightarrow> int \<Rightarrow> addr \<Rightarrow> u64 \<Rightarrow> u8 \<Rightarrow> 'w \<Rightarrow> int \<times> 'w"
  call_thread_spawn :: "int \<Rightarrow> int \<Rightarrow> addr \<Rightarrow> addr \<Rightarrow> addr \<Rightarrow> u64 \<Rightarrow> 'w \<Rightarrow> int \<times> 'w"
  call_runtime_printchar :: "int \<Rightarrow> u8 \<Rightarrow> 'w \<Rightarrow> int \<times> 'w"
  send_discovery_connect_reply :: "int \<Rightarrow> int \<Rightarrow> 'w \<Rightarrow> 'w"
  async_send_server_connect :: "int \<Rightarrow> u8 \<Rightarrow> 'w \<Rightarrow> int \<times> 'w"

section \<open>State\<close>

definition NUM_PROCESSES_MAX :: nat where "NUM_PROCESSES_MAX = 128"
definition INTERFACE_ID_MAX :: nat where "INTERFACE_ID_MAX = 0xff"
definition WAITERS_MAX :: nat where "WAITERS_MAX = 32"
definition FD_TABLE_MAX :: nat where "FD_TABLE_MAX = 64"
definition APP_IMAGE_START :: addr where "APP_IMAGE_START = 0x01000000"
definition APP_IMAGE_SIZE :: u64 where "APP_IMAGE_SIZE = 0x01000000"
definition APP_ZEROED_PAGES_START :: addr where "APP_ZEROED_PAGES_START = 0x02000000"
definition APP_ZEROED_PAGES_SIZE :: u64 where "APP_ZEROED_PAGES_SIZE = 0x02000000"
definition APP_INITIAL_STACK_POINTER :: addr where "APP_INITIAL_STACK_POINTER = 0x03000000"
definition MM_THREAD_INFO_ADDR :: addr where "MM_THREAD_INFO_ADDR = 0xf1b000"

text \<open>A pointer to a file of the initial file system is its offset in the image.\<close>

record mm_process =
  mm_pid :: int
  mm_file :: nat
  mm_elf :: elf_file

record waiter =
  wt_interface :: u8
  reply_to :: int
  wt_server_ch :: int
  sent_request :: bool

record framebuffer_info =
  fb_available :: bool
  fb_paddr :: addr
  fb_width :: u32
  fb_height :: u32
  fb_bpp :: u8

text \<open>
  The variables of the process and what it shares with the machine: the contents of the
  physical pages, which are mapped at their physical addresses, by page, and the image
  of the initial file system.
\<close>

record 'w memmgr = "'w user" +
  mm_zones :: "zone list"
  page_mem :: "addr \<Rightarrow> u8 list"
  mm_image :: "u8 list"
  framebuffer :: framebuffer_info
  mm_processes :: "mm_process list"
  mm_servers :: "int list"
  waiters :: "waiter list"
  fd_table :: "nat option list"
  mm_server_ch :: int

definition mm_kernel_ch :: int where "mm_kernel_ch = 1"

section \<open>Processes\<close>

definition get_process_by_pid :: "'w memmgr \<Rightarrow> int \<Rightarrow> mm_process option" where
  "get_process_by_pid s pid = find (\<lambda>p. mm_pid p = pid) (mm_processes s)"

text \<open>The backward search for a character: where it is found, or 0.\<close>

fun find_back :: "u8 \<Rightarrow> u8 list \<Rightarrow> nat \<Rightarrow> nat res" where
  "find_back c path 0 = Inr 0"
| "find_back c path (Suc pos) = rbind (load path (Suc pos)) (\<lambda>x. if x = c then Inr (Suc pos) else find_back c path pos)"

definition copy_process_name_from_path :: "u8 list \<Rightarrow> nat \<Rightarrow> u8 list \<Rightarrow> u8 list res" where
  "copy_process_name_from_path buf buf_len path =
     rbind (strlen path) (\<lambda>n.
     if n = 0 then
       strcpy_s buf buf_len [0x28, 0x69, 0x6e, 0x76, 0x61, 0x6c, 0x69, 0x64, 0x20, 0x70, 0x61, 0x74, 0x68, 0x29, 0]
     else
       rbind (find_back 0x2e path (n - 1)) (\<lambda>dot_pos.
       rbind (find_back 0x2f path dot_pos) (\<lambda>pos.
       let slash_pos = (if pos > 0 then pos else dot_pos) in
       strncpy_s buf buf_len (drop (slash_pos + 1) path)
         (unat (word_of_int (int dot_pos - int slash_pos - 1) :: u64)))))"

text \<open>The loop over the process table does not stop at the first free slot.\<close>

fun free_slot :: "nat \<Rightarrow> mm_process list \<Rightarrow> nat option \<Rightarrow> nat option" where
  "free_slot i [] found = found"
| "free_slot i (p # ps) found = free_slot (Suc i) ps (if mm_pid p = 0 then Some i else found)"

text \<open>A call whose error ends the function.\<close>

definition TRY :: "int \<times> 's \<Rightarrow> ('s \<Rightarrow> (int \<times> 's) res) \<Rightarrow> (int \<times> 's) res" where
  "TRY r k = (let (err, s) = r in if err \<noteq> err_code OK then Inr (err, s) else k s)"

definition with_world :: "('w \<Rightarrow> 'a \<times> 'w) \<Rightarrow> ('w, 'b) user_scheme \<Rightarrow> 'a \<times> ('w, 'b) user_scheme" where
  "with_world f s = (let (r, w) = f (world s) in (r, s\<lparr>world := w\<rparr>))"

definition spawn_process ::
  "'w memmgr_stubs \<Rightarrow> int \<Rightarrow> int \<Rightarrow> nat \<Rightarrow> 'w memmgr \<Rightarrow> (int \<times> 'w memmgr) res" where
  "spawn_process S kernel_ch server_ch file s =
     rbind (file_len (mm_image s) file) (\<lambda>len.
     rbind (elf_parse (drop (file + 64) (mm_image s)) len) (\<lambda>parsed.
     case parsed of
       Inl err \<Rightarrow> Inr (err_code err, s)
     | Inr elf \<Rightarrow>
         rbind (copy_process_name_from_path (replicate 32 0) 32 (drop file (mm_image s))) (\<lambda>name.
         let ((err, pid, pager_ch), s) = with_world (call_process_create S kernel_ch name) s in
         TRY (err, s) (\<lambda>s.
         let ((err, user_kernel_ch), s) = with_world (call_server_connect S kernel_ch 0) s in
         TRY (err, s) (\<lambda>s.
         TRY (with_world (call_process_send_channel S kernel_ch pid user_kernel_ch) s) (\<lambda>s.
         TRY (ch_transfer (mm_os S) pager_ch server_ch s) (\<lambda>s.
         TRY (with_world (call_process_add_pager S kernel_ch pid 1 APP_IMAGE_START APP_IMAGE_SIZE 0x06) s) (\<lambda>s.
         TRY (with_world (call_process_add_pager S kernel_ch pid 1 APP_ZEROED_PAGES_START APP_ZEROED_PAGES_SIZE 0x06) s) (\<lambda>s.
         TRY (with_world (call_thread_spawn S kernel_ch pid (entry elf) APP_INITIAL_STACK_POINTER MM_THREAD_INFO_ADDR 0) s) (\<lambda>s.
         case free_slot 0 (mm_processes s) None of
           None \<Rightarrow> Inr (err_code ERR_OUT_OF_MEMORY, s)
         | Some i \<Rightarrow>
             Inr (err_code OK, s\<lparr>mm_processes := (mm_processes s)[i := \<lparr>mm_pid = pid, mm_file = file, mm_elf = elf\<rparr>]\<rparr>)))))))))))"

definition mm_process_init :: "mm_process list \<Rightarrow> mm_process list" where
  "mm_process_init ps = map (\<lambda>p. p\<lparr>mm_pid := 0\<rparr>) ps"

section \<open>Memory\<close>

text \<open>
  Filling a page from the segments of the executable. The part of the segment that the
  file holds is \<open>p_filesz - offset\<close> bytes long, a subtraction of size_t values.
\<close>

fun fill_segments :: "u8 list \<Rightarrow> nat \<Rightarrow> elf_file \<Rightarrow> addr \<Rightarrow> nat list \<Rightarrow> u8 list \<Rightarrow> u8 list res" where
  "fill_segments img file elf a [] page = Inr page"
| "fill_segments img file elf a (i # is) page =
     rbind (read_phdr (drop (file + 64) img) elf i) (\<lambda>phdr.
     if p_vaddr phdr \<le> a \<and> a < p_vaddr phdr + p_memsz phdr then
       let offset = a - p_vaddr phdr;
           fileoff = p_offset phdr + offset in
       rbind (file_len img file) (\<lambda>len.
       if fileoff \<ge> of_nat len then fill_segments img file elf a is page
       else
         let copy_len = min (min (of_nat PAGE_SIZE) (of_nat len - fileoff)) (p_filesz phdr - offset) in
         memcpy_s page 4096 (drop (file + 64 + unat fileoff) img) (unat copy_len))
     else fill_segments img file elf a is page)"

definition mm_handle_pager_fill :: "memmgr_idl \<Rightarrow> message \<Rightarrow> 'w memmgr \<Rightarrow> (int \<times> message \<times> 'w memmgr) res" where
  "mm_handle_pager_fill I m s =
     (let pid = fill_pid I m; a = fill_addr I m in
      rbind (alloc_pages (mm_zones s) 0) (\<lambda>(alloced_addr, zs).
      let s = s\<lparr>mm_zones := zs\<rparr> in
      if alloced_addr = 0 then Inr (err_code ERR_OUT_OF_MEMORY, m, s)
      else
        case get_process_by_pid s pid of
          None \<Rightarrow> Inl Assertion
        | Some proc \<Rightarrow>
            rbind (fill_segments (mm_image s) (mm_file proc) (mm_elf proc) a [0..<num_phdrs (mm_elf proc)]
                     (page_mem s alloced_addr)) (\<lambda>page.
            Inr (err_code OK,
                 m\<lparr>header := MM_PAGER_FILL_REPLY_MSG I, payload_page := PAGE_PAYLOAD alloced_addr 0\<rparr>,
                 s\<lparr>page_mem := (page_mem s)(alloced_addr := page)\<rparr>))))"

definition mm_handle_runtime_exit :: "message \<Rightarrow> 'w memmgr \<Rightarrow> (int \<times> message \<times> 'w memmgr) res" where
  "mm_handle_runtime_exit m s = Inl Unimplemented"

definition mm_handle_runtime_printchar ::
  "memmgr_idl \<Rightarrow> 'w memmgr_stubs \<Rightarrow> message \<Rightarrow> 'w memmgr \<Rightarrow> (int \<times> message \<times> 'w memmgr) res" where
  "mm_handle_runtime_printchar I S m s =
     (let (err, s) = with_world (call_runtime_printchar S mm_kernel_ch (mm_printchar_ch I m)) s in
      if err \<noteq> err_code OK then Inr (err, m, s)
      else Inr (err_code OK, m\<lparr>header := RUNTIME_PRINTCHAR_REPLY_MSG I\<rparr>, s))"

text \<open>The order of a request is passed to a function of an int.\<close>

definition handle_memory_alloc_pages :: "memmgr_idl \<Rightarrow> message \<Rightarrow> 'w memmgr \<Rightarrow> (int \<times> message \<times> 'w memmgr) res" where
  "handle_memory_alloc_pages I m s =
     (let order = alloc_order I m in
      rbind (alloc_pages (mm_zones s) (sint (ucast order :: u32))) (\<lambda>(paddr, zs).
      let s = s\<lparr>mm_zones := zs\<rparr> in
      if paddr = 0 then Inr (err_code ERR_OUT_OF_MEMORY, m, s)
      else Inr (err_code OK,
                m\<lparr>header := MEMORY_ALLOC_PAGES_REPLY_MSG I, payload_page := PAGE_PAYLOAD paddr order\<rparr>, s)))"

definition handle_memory_alloc_phy_pages ::
  "memmgr_idl \<Rightarrow> message \<Rightarrow> 'w memmgr \<Rightarrow> (int \<times> message \<times> 'w memmgr) res" where
  "handle_memory_alloc_phy_pages I m s =
     (let map_at = phy_map_at I m; order = phy_order I m in
      rbind (if map_at \<noteq> 0 then Inr (map_at, mm_zones s)
             else alloc_pages (mm_zones s) (sint (ucast order :: u32))) (\<lambda>(paddr, zs).
      let s = s\<lparr>mm_zones := zs\<rparr> in
      if map_at = 0 \<and> paddr = 0 then Inr (err_code ERR_OUT_OF_MEMORY, m, s)
      else Inr (err_code OK,
                set_phy_paddr I paddr
                  (m\<lparr>header := MEMORY_ALLOC_PHY_PAGES_REPLY_MSG I, payload_page := PAGE_PAYLOAD paddr order\<rparr>), s)))"

text \<open>The size of the frame buffer is a product of 32-bit integers.\<close>

definition handle_memmgr_get_framebuffer ::
  "memmgr_idl \<Rightarrow> message \<Rightarrow> 'w memmgr \<Rightarrow> (int \<times> message \<times> 'w memmgr) res" where
  "handle_memmgr_get_framebuffer I m s =
     (let info = framebuffer s in
      if \<not> fb_available info then Inr (err_code ERR_NOT_FOUND, m, s)
      else
        let size = fb_height info * fb_width info * ucast (fb_bpp info div 8);
            order = ulllog2 (ucast (size div of_nat PAGE_SIZE)) in
        Inr (err_code OK,
             set_framebuffer I (fb_width info) (fb_height info) (fb_bpp info)
               (m\<lparr>header := MEMMGR_GET_FRAMEBUFFER_REPLY_MSG I, payload_page := PAGE_PAYLOAD (fb_paddr info) order\<rparr>), s))"

section \<open>Discovery\<close>

definition discovery_init :: "'w memmgr \<Rightarrow> 'w memmgr" where
  "discovery_init s = s\<lparr>mm_servers := map (\<lambda>_. 0) (mm_servers s), waiters := map (\<lambda>w. w\<lparr>reply_to := 0\<rparr>) (waiters s)\<rparr>"

definition handle_discovery_publicize ::
  "memmgr_idl \<Rightarrow> 'w memmgr_stubs \<Rightarrow> message \<Rightarrow> 'w memmgr \<Rightarrow> (int \<times> message \<times> 'w memmgr) res" where
  "handle_discovery_publicize I S m s =
     (let interface = unat (publicize_interface I m); ch = publicize_ch I m in
      rbind (load (mm_servers s) interface) (\<lambda>old.
      rbind (require Assertion (old = 0)) (\<lambda>_.
      let s = s\<lparr>mm_servers := (mm_servers s)[interface := ch]\<rparr>;
          (err, s) = ch_transfer (mm_os S) ch (mm_server_ch s) s in
      rbind (require Panic (err = err_code OK)) (\<lambda>_.
      Inr (err_code OK, m\<lparr>header := DISCOVERY_PUBLICIZE_REPLY_MSG I\<rparr>, s)))))"

text \<open>The index of the first waiter with a property.\<close>

fun first_waiter :: "(waiter \<Rightarrow> bool) \<Rightarrow> nat \<Rightarrow> waiter list \<Rightarrow> nat option" where
  "first_waiter P i [] = None"
| "first_waiter P i (w # ws) = (if P w then Some i else first_waiter P (Suc i) ws)"

definition handle_discovery_connect :: "memmgr_idl \<Rightarrow> message \<Rightarrow> 'w memmgr \<Rightarrow> (int \<times> message \<times> 'w memmgr) res" where
  "handle_discovery_connect I m s =
     (case first_waiter (\<lambda>w. reply_to w = 0) 0 (waiters s) of
        None \<Rightarrow> Inr (err_code ERR_OUT_OF_MEMORY, m, s)
      | Some i \<Rightarrow>
          Inr (err_code DONT_REPLY, m,
               s\<lparr>waiters := (waiters s)[i := (waiters s ! i)\<lparr>reply_to := msg_from m,
                   wt_interface := connect_interface I m, sent_request := False\<rparr>]\<rparr>))"

definition handle_server_connect_reply ::
  "memmgr_idl \<Rightarrow> 'w memmgr_stubs \<Rightarrow> message \<Rightarrow> 'w memmgr \<Rightarrow> (int \<times> message \<times> 'w memmgr) res" where
  "handle_server_connect_reply I S m s =
     (case first_waiter (\<lambda>w. reply_to w \<noteq> 0 \<and> wt_server_ch w = msg_from m) 0 (waiters s) of
        None \<Rightarrow> Inl Assertion
      | Some i \<Rightarrow>
          let s = s\<lparr>world := send_discovery_connect_reply S (reply_to (waiters s ! i)) (connect_reply_ch I m) (world s)\<rparr> in
          Inr (err_code DONT_REPLY, m, s\<lparr>waiters := (waiters s)[i := (waiters s ! i)\<lparr>reply_to := 0\<rparr>]\<rparr>))"

text \<open>The inner loop of the deferred work, for the server at a channel: whether a request has to be retried.\<close>

fun send_requests ::
  "'w memmgr_stubs \<Rightarrow> int \<Rightarrow> u8 \<Rightarrow> waiter list \<Rightarrow> 'w \<Rightarrow> (bool \<times> waiter list \<times> 'w) res" where
  "send_requests S ch interface [] w = Inr (False, [], w)"
| "send_requests S ch interface (x # xs) w =
     (if reply_to x \<noteq> 0 \<and> wt_interface x = interface \<and> \<not> sent_request x then
        let (err, w) = async_send_server_connect S ch interface w in
        if err = err_code ERR_WOULD_BLOCK then
          rmap (\<lambda>(_, xs, w). (True, x # xs, w)) (send_requests S ch interface xs w)
        else
          rbind (require Panic (err = err_code OK)) (\<lambda>_.
          rmap (\<lambda>(r, xs, w). (r, x\<lparr>wt_server_ch := ch, sent_request := True\<rparr> # xs, w)) (send_requests S ch interface xs w))
      else rmap (\<lambda>(r, xs, w). (r, x # xs, w)) (send_requests S ch interface xs w))"

fun interface_loop :: "'w memmgr_stubs \<Rightarrow> nat list \<Rightarrow> 'w memmgr \<Rightarrow> (bool \<times> 'w memmgr) res" where
  "interface_loop S [] s = Inr (False, s)"
| "interface_loop S (i # is) s =
     rbind (load (mm_servers s) i) (\<lambda>ch.
     if ch = 0 then interface_loop S is s
     else
       rbind (send_requests S ch (of_nat i) (waiters s) (world s)) (\<lambda>(retry, ws, w).
       rmap (\<lambda>(r, s). (retry \<or> r, s)) (interface_loop S is (s\<lparr>waiters := ws, world := w\<rparr>))))"

definition deferred_work :: "'w memmgr_stubs \<Rightarrow> 'w memmgr \<Rightarrow> (int \<times> 'w memmgr) res" where
  "deferred_work S s =
     rmap (\<lambda>(needs_retry, s). (if needs_retry then err_code ERR_NEEDS_RETRY else err_code OK, s))
       (interface_loop S [0..<INTERFACE_ID_MAX + 1] s)"

section \<open>Files\<close>

fun first_free_fd :: "nat \<Rightarrow> nat option list \<Rightarrow> nat option" where
  "first_free_fd fd [] = None"
| "first_free_fd fd (e # es) = (if e = None then Some fd else first_free_fd (Suc fd) es)"

text \<open>The search for a path in the directory.\<close>

fun find_file :: "nat \<Rightarrow> u8 list \<Rightarrow> u8 list \<Rightarrow> initfs_dir \<Rightarrow> nat option res" where
  "find_file 0 img path dir = Inl NoFuel"
| "find_file (Suc n) img path dir =
     rbind (initfs_readdir img dir) (\<lambda>(f, dir).
     case f of
       None \<Rightarrow> Inr None
     | Some f \<Rightarrow> rbind (strcmp path (drop f img)) (\<lambda>d. if d = 0 then Inr (Some f) else find_file n img path dir))"

text \<open>Every turn of a directory loop increments the index, which bounds it by the number of files.\<close>

definition handle_fs_open :: "memmgr_idl \<Rightarrow> message \<Rightarrow> 'w memmgr \<Rightarrow> (int \<times> message \<times> 'w memmgr) res" where
  "handle_fs_open I m s =
     (case first_free_fd 0 (fd_table s) of
        None \<Rightarrow> Inl Assertion
      | Some fd \<Rightarrow>
          rbind (fs_num_files (mm_image s)) (\<lambda>n.
          rbind (find_file (Suc n) (mm_image s) (open_path I m) initfs_opendir) (\<lambda>f.
          case f of
            None \<Rightarrow> Inr (err_code ERR_NOT_FOUND, m, s)
          | Some f \<Rightarrow>
              Inr (err_code OK, set_open_handle I (int fd) (m\<lparr>header := FS_OPEN_REPLY_MSG I\<rparr>),
                   s\<lparr>fd_table := (fd_table s)[fd := Some f]\<rparr>))))"

text \<open>A negative handle passes the bounds check and is a read before the table.\<close>

definition handle_fs_read :: "memmgr_idl \<Rightarrow> message \<Rightarrow> 'w memmgr \<Rightarrow> (int \<times> message \<times> 'w memmgr) res" where
  "handle_fs_read I m s =
     (let handle = read_handle I m; offset = read_offset I m; len = read_len I m in
      rbind (require Assertion (handle < int FD_TABLE_MAX)) (\<lambda>_.
      rbind (require Fault (0 \<le> handle)) (\<lambda>_.
      rbind (load (fd_table s) (nat handle)) (\<lambda>f.
      case f of
        None \<Rightarrow> Inl Assertion
      | Some file \<Rightarrow>
          rbind (alloc_pages (mm_zones s) 0) (\<lambda>(alloced_addr, zs).
          let s = s\<lparr>mm_zones := zs\<rparr> in
          if alloced_addr = 0 then Inr (err_code ERR_OUT_OF_MEMORY, m, s)
          else
            rbind (require Assertion (len \<le> of_nat PAGE_SIZE)) (\<lambda>_.
            rbind (file_len (mm_image s) file) (\<lambda>flen.
            rbind (require Assertion (offset < of_nat flen)) (\<lambda>_.
            let copy_len = min len (of_nat flen - offset) in
            rbind (memcpy_s (page_mem s alloced_addr) PAGE_SIZE (drop (file + 64 + unat offset) (mm_image s))
                     (unat copy_len)) (\<lambda>page.
            Inr (err_code OK,
                 m\<lparr>header := FS_READ_REPLY_MSG I, payload_page := PAGE_PAYLOAD alloced_addr 0\<rparr>,
                 s\<lparr>page_mem := (page_mem s)(alloced_addr := page)\<rparr>))))))))))"

section \<open>The server\<close>

definition mm_process_message ::
  "memmgr_idl \<Rightarrow> 'w memmgr_stubs \<Rightarrow> message \<Rightarrow> 'w memmgr \<Rightarrow> (int \<times> message \<times> 'w memmgr) res" where
  "mm_process_message I S m s =
     (if header m = NOTIFICATION_MSG then Inr (err_code DONT_REPLY, m, s)
      else if header m = MEMMGR_GET_FRAMEBUFFER_MSG I then handle_memmgr_get_framebuffer I m s
      else if header m = MEMORY_ALLOC_PAGES_MSG I then handle_memory_alloc_pages I m s
      else if header m = MEMORY_ALLOC_PHY_PAGES_MSG I then handle_memory_alloc_phy_pages I m s
      else if header m = MM_PAGER_FILL_MSG I then mm_handle_pager_fill I m s
      else if header m = MM_RUNTIME_EXIT_MSG I then mm_handle_runtime_exit m s
      else if header m = MM_RUNTIME_PRINTCHAR_MSG I then mm_handle_runtime_printchar I S m s
      else if header m = DISCOVERY_PUBLICIZE_MSG I then handle_discovery_publicize I S m s
      else if header m = DISCOVERY_CONNECT_MSG I then handle_discovery_connect I m s
      else if header m = MM_SERVER_CONNECT_REPLY_MSG I then handle_server_connect_reply I S m s
      else if header m = FS_OPEN_MSG I then handle_fs_open I m s
      else if header m = FS_READ_MSG I then handle_fs_read I m s
      else Inr (err_code ERR_UNEXPECTED_MESSAGE, m, s))"

text \<open>A server that cannot be spawned ends the memory manager: the ERROR macro exits.\<close>

fun launch_loop :: "nat \<Rightarrow> 'w memmgr_stubs \<Rightarrow> initfs_dir \<Rightarrow> 'w memmgr \<Rightarrow> 'w memmgr res" where
  "launch_loop 0 S dir s = Inl NoFuel"
| "launch_loop (Suc n) S dir s =
     rbind (initfs_readdir (mm_image s) dir) (\<lambda>(f, dir).
     case f of
       None \<Rightarrow> Inr s
     | Some f \<Rightarrow>
         rbind (strncmp (drop f (mm_image s)) [0x73, 0x74, 0x61, 0x72, 0x74, 0x75, 0x70, 0x73, 0x2f, 0] 9) (\<lambda>d.
         if d = 0 then
           rbind (spawn_process S mm_kernel_ch (mm_server_ch s) f s) (\<lambda>(err, s).
           rbind (require Panic (err = err_code OK)) (\<lambda>_. launch_loop n S dir s))
         else launch_loop n S dir s))"

definition launch_startup_servers :: "'w memmgr_stubs \<Rightarrow> 'w memmgr \<Rightarrow> 'w memmgr res" where
  "launch_startup_servers S s =
     rbind (fs_num_files (mm_image s)) (\<lambda>n. launch_loop (Suc n) S initfs_opendir s)"

text \<open>The start of the process, up to the main loop, which it then enters.\<close>

definition mm_start :: "(nat \<Rightarrow> nat \<Rightarrow> page) \<Rightarrow> memory_map list \<Rightarrow> 'w memmgr_stubs \<Rightarrow> 'w memmgr \<Rightarrow> 'w memmgr res" where
  "mm_start mem maps S s =
     (case ch_open (mm_os S) s of
        ((_, None), _) \<Rightarrow> Inl Panic
      | ((_, Some ch), s) \<Rightarrow>
          rbind (init_alloc_pages mem maps) (\<lambda>zs.
          rbind (initfs_init (mm_image s)) (\<lambda>_.
          launch_startup_servers S
            (discovery_init (s\<lparr>mm_server_ch := ch, mm_zones := zs, mm_processes := mm_process_init (mm_processes s)\<rparr>)))))"

definition mm_main ::
  "nat \<Rightarrow> nat \<Rightarrow> (nat \<Rightarrow> nat \<Rightarrow> page) \<Rightarrow> memory_map list \<Rightarrow> memmgr_idl \<Rightarrow> 'w memmgr_stubs \<Rightarrow>
   (int \<Rightarrow> int \<Rightarrow> u32 \<Rightarrow> 'w memmgr \<Rightarrow> 'w memmgr) \<Rightarrow> message \<Rightarrow> 'w memmgr \<Rightarrow> (int option \<times> 'w memmgr) res" where
  "mm_main turns fuel mem maps I S call_timer_set m s =
     rbind (mm_start mem maps S s) (\<lambda>s.
     server_mainloop_with_deferred turns fuel (mm_os S) call_timer_set (mm_server_ch s)
       (mm_process_message I S) (Some (deferred_work S)) m s)"

section \<open>Finding and reading files\<close>

lemma record_path:
  assumes "img = pre @ file_record name c @ post" "length name < 48" "0 \<notin> set name"
  shows "cstr (drop (length pre) img) name"
proof -
  obtain k where "48 - length name = Suc k" using assms(2) by (metis Suc_diff_Suc)
  then show ?thesis using assms by (simp add: file_record_def cstr_def)
qed

lemma find_file_ok:
  assumes n: "fs_num_files img = Inr n" and path: "cstr path p"
  shows "img = pre @ concat (map (\<lambda>(name, c). file_record name c) files) @ post \<Longrightarrow>
    \<forall>(name, c) \<in> set files. length name < 48 \<and> length c < 2 ^ 32 \<and> 0 \<notin> set name \<Longrightarrow> i + length files = n \<Longrightarrow>
    length files < fuel \<Longrightarrow>
    (case map_of files p of
       None \<Rightarrow> find_file fuel img path \<lparr>dir_index = i, dir_next = length pre\<rparr> = Inr None
     | Some c \<Rightarrow> \<exists>pre' post'. img = pre' @ file_record p c @ post' \<and> length c < 2 ^ 32
         \<and> find_file fuel img path \<lparr>dir_index = i, dir_next = length pre\<rparr> = Inr (Some (length pre')))"
proof (induction files arbitrary: pre i fuel)
  case Nil
  then show ?case using n by (cases fuel) (auto simp: initfs_readdir_def)
next
  case (Cons f files)
  obtain name c where f: "f = (name, c)" by (cases f)
  obtain g where g: "fuel = Suc g" using Cons.prems(4) by (cases fuel) auto
  let ?rest = "concat (map (\<lambda>(name, c). file_record name c) files) @ post"
  have im: "img = pre @ file_record name c @ ?rest" using Cons.prems(1) f by simp
  have b: "length name < 48" "length c < 2 ^ 32" "0 \<notin> set name" using Cons.prems(2) f by auto
  note r = read_record[OF im b(1,2)]
  have rd: "initfs_readdir img \<lparr>dir_index = i, dir_next = length pre\<rparr> =
      Inr (Some (length pre), \<lparr>dir_index = Suc i, dir_next = length (pre @ file_record name c)\<rparr>)"
    using n r(2,3,5) Cons.prems(3) by (simp add: initfs_readdir_def)
  obtain d where d: "strcmp path (drop (length pre) img) = Inr d" "d = 0 \<longleftrightarrow> p = name"
    using strcmp_cstr[OF path record_path[OF im b(1,3)]] by blast
  show ?case
  proof (cases "p = name")
    case True
    with d g rd im b f show ?thesis by auto
  next
    case False
    have "img = (pre @ file_record name c) @ ?rest" using im by simp
    from Cons.IH[OF this, of "Suc i" g] False d g rd f Cons.prems show ?thesis
      by (auto split: option.splits)
  qed
qed

lemma record_content:
  assumes "img = pre @ file_record name c @ post" "length name < 48"
  shows "drop (length pre + 64 + k) img = drop k (c @ replicate (PAGE_SIZE - length c mod PAGE_SIZE) 0 @ post)"
proof -
  let ?h = "pre @ name @ replicate (48 - length name) 0 @ le_bytes 4 (length c) @ le_bytes 2 (PAGE_SIZE - length c mod PAGE_SIZE) @ replicate 10 0"
  have img: "img = ?h @ c @ replicate (PAGE_SIZE - length c mod PAGE_SIZE) 0 @ post" using assms(1) by (simp add: file_record_def)
  have l: "length pre + 64 = length ?h" using assms(2) by simp
  have "drop (length h + k) (h @ r) = drop k r" for h r :: "u8 list" by simp
  then show ?thesis unfolding img l .
qed

text \<open>Copying from a file into a page.\<close>

lemma copy_from_file:
  assumes "img = pre @ file_record name c @ post" "length name < 48" "k + n \<le> length c" "n \<le> 4096" "length page = 4096"
  shows "memcpy_s page 4096 (drop (length pre + 64 + k) img) n = Inr (take n (drop k c) @ drop n page)"
  using assms record_content[OF assms(1,2), of k] memcpy_eq[of n "drop k (c @ replicate (PAGE_SIZE - length c mod PAGE_SIZE) 0 @ post)" page]
  by (simp add: memcpy_s_def)

section \<open>The types of the tables\<close>

definition memmgr_ok :: "'w memmgr \<Rightarrow> bool" where
  "memmgr_ok s \<longleftrightarrow> length (mm_processes s) = NUM_PROCESSES_MAX \<and> length (mm_servers s) = INTERFACE_ID_MAX + 1
     \<and> length (waiters s) = WAITERS_MAX \<and> length (fd_table s) = FD_TABLE_MAX \<and> (\<forall>a. length (page_mem s a) = PAGE_SIZE)"

text \<open>What no handler changes: the image, the process table and the channel of the server.\<close>

definition mm_stable :: "'w memmgr \<Rightarrow> 'w memmgr \<Rightarrow> bool" where
  "mm_stable s s' \<longleftrightarrow> memmgr_ok s' \<and> mm_image s' = mm_image s \<and> mm_processes s' = mm_processes s \<and> mm_server_ch s' = mm_server_ch s"

lemmas stable_defs = mm_stable_def memmgr_ok_def

lemma memcpy_loop_length: "memcpy_loop dst src i n = Inr d \<Longrightarrow> length d = length dst"
  by (induction n arbitrary: i dst) (auto simp: store_def split: if_splits)

lemma memcpy_s_length: "memcpy_s dst dl src n = Inr d \<Longrightarrow> length d = length dst"
  by (auto simp: memcpy_s_def memcpy_def dest: memcpy_loop_length)

lemma fill_segments_length: "fill_segments img f elf a is page = Inr p \<Longrightarrow> length p = length page"
  by (induction "is") (auto simp: Let_def split: if_splits dest: memcpy_s_length)

lemma send_requests_length: "send_requests S ch i ws w = Inr (r, ws', w') \<Longrightarrow> length ws' = length ws"
proof (induction ws arbitrary: w r ws' w')
  case (Cons x xs)
  then show ?case by (auto simp: rmap_def Let_def split: if_splits prod.splits)
qed simp

lemma pager_fill_stable: "memmgr_ok s \<Longrightarrow> returns (\<lambda>(e, m', s'). mm_stable s s') (mm_handle_pager_fill I m s)"
  by (auto simp: mm_handle_pager_fill_def Let_def stable_defs returns_def fill_segments_length split: option.splits if_splits)

lemma printchar_stable: "memmgr_ok s \<Longrightarrow> returns (\<lambda>(e, m', s'). mm_stable s s') (mm_handle_runtime_printchar I S m s)"
  by (auto simp: mm_handle_runtime_printchar_def with_world_def stable_defs split: prod.splits)

lemma alloc_stable: "memmgr_ok s \<Longrightarrow> returns (\<lambda>(e, m', s'). mm_stable s s') (handle_memory_alloc_pages I m s)"
  unfolding handle_memory_alloc_pages_def Let_def by (intro returns_rbind_eq) (auto simp: stable_defs)

lemma alloc_phy_stable: "memmgr_ok s \<Longrightarrow> returns (\<lambda>(e, m', s'). mm_stable s s') (handle_memory_alloc_phy_pages I m s)"
  unfolding handle_memory_alloc_phy_pages_def Let_def by (intro returns_rbind_eq) (auto simp: stable_defs)

lemma framebuffer_stable: "memmgr_ok s \<Longrightarrow> returns (\<lambda>(e, m', s'). mm_stable s s') (handle_memmgr_get_framebuffer I m s)"
  by (simp add: handle_memmgr_get_framebuffer_def Let_def stable_defs)

lemma publicize_stable: "memmgr_ok s \<Longrightarrow> returns (\<lambda>(e, m', s'). mm_stable s s') (handle_discovery_publicize I S m s)"
  by (auto simp: handle_discovery_publicize_def ch_transfer_def stable_defs returns_def Let_def split: prod.splits)

lemma connect_stable: "memmgr_ok s \<Longrightarrow> returns (\<lambda>(e, m', s'). mm_stable s s') (handle_discovery_connect I m s)"
  by (simp add: handle_discovery_connect_def stable_defs split: option.splits)

lemma connect_reply_stable: "memmgr_ok s \<Longrightarrow> returns (\<lambda>(e, m', s'). mm_stable s s') (handle_server_connect_reply I S m s)"
  by (simp add: handle_server_connect_reply_def Let_def stable_defs split: option.splits)

lemma open_stable: "memmgr_ok s \<Longrightarrow> returns (\<lambda>(e, m', s'). mm_stable s s') (handle_fs_open I m s)"
  by (auto simp: handle_fs_open_def stable_defs returns_def split: option.splits)

lemma read_stable: "memmgr_ok s \<Longrightarrow> returns (\<lambda>(e, m', s'). mm_stable s s') (handle_fs_read I m s)"
  by (auto simp: handle_fs_read_def stable_defs returns_def Let_def memcpy_s_length split: option.splits if_splits)

lemmas handlers_stable = pager_fill_stable printchar_stable alloc_stable alloc_phy_stable framebuffer_stable
  publicize_stable connect_stable connect_reply_stable open_stable read_stable

lemma interface_loop_stable: "memmgr_ok s \<Longrightarrow> returns (\<lambda>(r, s'). mm_stable s s') (interface_loop S is s)"
proof (induction "is" arbitrary: s)
  case (Cons i "is")
  show ?case
  proof (cases "load (mm_servers s) i")
    case (Inr ch)
    have "returns (\<lambda>(r, s'). mm_stable s s') (rmap (\<lambda>(r, s). (retry \<or> r, s)) (interface_loop S is (s\<lparr>waiters := ws, world := w\<rparr>)))"
      if "send_requests S ch (of_nat i) (waiters s) (world s) = Inr (retry, ws, w)" for retry ws w
    proof -
      have ok: "memmgr_ok (s\<lparr>waiters := ws, world := w\<rparr>)"
        using Cons.prems send_requests_length[OF that] by (simp add: memmgr_ok_def)
      then show ?thesis using Cons.IH[OF ok] by (auto simp: returns_def rmap_def stable_defs)
    qed
    then show ?thesis using Inr Cons.IH[OF Cons.prems] by (auto intro!: returns_rbind_eq)
  qed simp
qed (simp add: stable_defs)

lemma first_free_fd_bound: "first_free_fd k es = Some fd \<Longrightarrow> k \<le> fd \<and> fd < k + length es"
  by (induction k es rule: first_free_fd.induct) (auto split: if_splits)

lemma unat_min: "unat (min (a :: u64) b) = min (unat a) (unat b)"
  by (simp add: min_def word_le_nat_alt)

lemma unat_len: "n < 2 ^ 32 \<Longrightarrow> unat (of_nat n :: u64) = n"
  by (simp add: unat_of_nat)

lemma unat_remaining:
  assumes "n < 2 ^ 32" "off < (of_nat n :: u64)"
  shows "unat off < n" "unat (of_nat n - off :: u64) = n - unat off"
proof -
  show "unat off < n" using assms unat_len[OF assms(1)] by (simp add: word_less_nat_alt)
  have "unat (of_nat n - off :: u64) = unat (of_nat n :: u64) - unat off"
    using assms(2) by (intro unat_sub) (simp add: less_imp_le)
  then show "unat (of_nat n - off :: u64) = n - unat off" by (simp add: unat_len[OF assms(1)])
qed

text \<open>A read through an open file.\<close>

lemma fs_read_file:
  assumes ok: "memmgr_ok s" and h: "read_handle I m = int fd" "fd < FD_TABLE_MAX" "fd_table s ! fd = Some (length pre)"
    and img: "mm_image s = pre @ file_record name c @ post" "length name < 48" "length c < 2 ^ 32"
    and off: "read_offset I m < of_nat (length c)" "read_len I m \<le> of_nat PAGE_SIZE"
    and page: "alloc_pages (mm_zones s) 0 = Inr (a, zs)" "a \<noteq> 0"
  defines "n \<equiv> min (unat (read_len I m)) (length c - unat (read_offset I m))"
  shows "handle_fs_read I m s = Inr (err_code OK, m\<lparr>header := FS_READ_REPLY_MSG I, payload_page := PAGE_PAYLOAD a 0\<rparr>,
    s\<lparr>mm_zones := zs, page_mem := (page_mem s)(a := take n (drop (unat (read_offset I m)) c) @ drop n (page_mem s a))\<rparr>)"
proof -
  note r = unat_remaining[OF img(3) off(1)]
  have n: "unat (min (read_len I m) (of_nat (length c) - read_offset I m)) = n"
    by (simp add: unat_min r(2) n_def)
  have len: "unat (read_len I m) \<le> 4096" using off(2) by (simp add: word_le_nat_alt PAGE_SIZE_def)
  have cp: "memcpy_s (page_mem s a) PAGE_SIZE (drop (length pre + 64 + unat (read_offset I m)) (mm_image s)) n =
      Inr (take n (drop (unat (read_offset I m)) c) @ drop n (page_mem s a))"
    unfolding PAGE_SIZE_def using ok r(1) len by (intro copy_from_file[OF img(1,2)]) (auto simp: n_def memmgr_ok_def PAGE_SIZE_def)
  have l: "load (fd_table s) fd = Inr (Some (length pre))" using h(2,3) ok by (simp add: memmgr_ok_def load_def)
  have fl: "file_len (mm_image s) (length pre) = Inr (length c)" by (rule read_record(2)[OF img])
  show ?thesis using h(1,2) off page
    by (simp add: handle_fs_read_def Let_def l fl cp n del: of_nat_diff)
qed

text \<open>The first segment that covers an address is the one that fills its page.\<close>

definition covers :: "elf64_phdr \<Rightarrow> addr \<Rightarrow> bool" where
  "covers phdr a \<longleftrightarrow> p_vaddr phdr \<le> a \<and> a < p_vaddr phdr + p_memsz phdr"

definition first_covering :: "u8 list \<Rightarrow> nat \<Rightarrow> elf_file \<Rightarrow> addr \<Rightarrow> elf64_phdr \<Rightarrow> bool" where
  "first_covering img file elf a phdr \<longleftrightarrow>
     (\<exists>i < num_phdrs elf. read_phdr (drop (file + 64) img) elf i = Inr phdr \<and> covers phdr a
        \<and> (\<forall>j < i. \<exists>q. read_phdr (drop (file + 64) img) elf j = Inr q \<and> \<not> covers q a))"

lemma fill_segments_skip:
  "\<forall>j \<in> set js. \<exists>q. read_phdr (drop (file + 64) img) elf j = Inr q \<and> \<not> covers q a \<Longrightarrow>
   fill_segments img file elf a (js @ ks) page = fill_segments img file elf a ks page"
  by (induction js) (auto simp: covers_def)

lemma fill_segments_first:
  assumes "first_covering img file elf a phdr" "file_len img file = Inr len"
    "p_offset phdr + (a - p_vaddr phdr) < of_nat len"
  shows "fill_segments img file elf a [0..<num_phdrs elf] page =
    memcpy_s page 4096 (drop (file + 64 + unat (p_offset phdr + (a - p_vaddr phdr))) img)
      (unat (min (min (of_nat PAGE_SIZE) (of_nat len - (p_offset phdr + (a - p_vaddr phdr)))) (p_filesz phdr - (a - p_vaddr phdr))))"
proof -
  obtain i where i: "i < num_phdrs elf" "read_phdr (drop (file + 64) img) elf i = Inr phdr" "covers phdr a"
    "\<forall>j < i. \<exists>q. read_phdr (drop (file + 64) img) elf j = Inr q \<and> \<not> covers q a"
    using assms(1) by (auto simp: first_covering_def)
  have split: "[0..<num_phdrs elf] = [0..<i] @ i # [Suc i..<num_phdrs elf]"
    using i(1) by (metis le0 less_imp_le upt_conv_Cons upt_add_eq_append le_add_diff_inverse)
  have "fill_segments img file elf a [0..<num_phdrs elf] page = fill_segments img file elf a (i # [Suc i..<num_phdrs elf]) page"
    unfolding split using i(4) by (intro fill_segments_skip) simp
  moreover have "\<not> of_nat len \<le> p_offset phdr + (a - p_vaddr phdr)" using assms(3) by simp
  ultimately show ?thesis using i(2,3) assms(2) by (simp add: covers_def Let_def)
qed

text \<open>The page that is filled, when the segment is read at an offset inside of the file.\<close>

lemma pager_fill_page:
  assumes ok: "memmgr_ok s" and proc: "get_process_by_pid s (fill_pid I m) = Some proc" "mm_file proc = length pre"
    and img: "mm_image s = pre @ file_record name c @ post" "length name < 48" "length c < 2 ^ 32"
    and seg: "first_covering (mm_image s) (length pre) (mm_elf proc) (fill_addr I m) phdr"
    and page: "alloc_pages (mm_zones s) 0 = Inr (a, zs)" "a \<noteq> 0"
    and off: "off = fill_addr I m - p_vaddr phdr" "unat (p_offset phdr) + unat off < length c"
  defines "n \<equiv> min (min 4096 (length c - (unat (p_offset phdr) + unat off))) (unat (p_filesz phdr - off))"
  shows "mm_handle_pager_fill I m s =
    Inr (err_code OK, m\<lparr>header := MM_PAGER_FILL_REPLY_MSG I, payload_page := PAGE_PAYLOAD a 0\<rparr>,
         s\<lparr>mm_zones := zs, page_mem := (page_mem s)(a := take n (drop (unat (p_offset phdr) + unat off) c) @ drop n (page_mem s a))\<rparr>)"
proof -
  have fo: "unat (p_offset phdr + off) = unat (p_offset phdr) + unat off"
    using off(2) img(3) by (intro unat_add_lem[THEN iffD1]) simp
  have lt: "p_offset phdr + off < of_nat (length c)" using off(2) fo unat_len[OF img(3)] by (simp add: word_less_nat_alt)
  note r = unat_remaining[OF img(3) lt]
  have n: "unat (min (min (of_nat PAGE_SIZE) (of_nat (length c) - (p_offset phdr + off))) (p_filesz phdr - off)) = n"
    unfolding unat_min r(2) n_def fo by (simp add: PAGE_SIZE_def)
  have cp: "memcpy_s (page_mem s a) 4096 (drop (length pre + 64 + (unat (p_offset phdr) + unat off)) (mm_image s)) n =
      Inr (take n (drop (unat (p_offset phdr) + unat off) c) @ drop n (page_mem s a))"
    using ok off(2) by (intro copy_from_file[OF img(1,2)]) (auto simp: n_def memmgr_ok_def PAGE_SIZE_def)
  have fs: "fill_segments (mm_image s) (length pre) (mm_elf proc) (fill_addr I m) [0..<num_phdrs (mm_elf proc)] (page_mem s a) =
      Inr (take n (drop (unat (p_offset phdr) + unat off) c) @ drop n (page_mem s a))"
    using fill_segments_first[OF seg read_record(2)[OF img], of "page_mem s a"] lt n cp fo unfolding off(1)[symmetric] by simp
  have pr: "get_process_by_pid (s\<lparr>mm_zones := zs\<rparr>) (fill_pid I m) = Some proc"
    using proc(1) by (simp add: get_process_by_pid_def)
  show ?thesis using page pr proc(2) fs by (simp add: mm_handle_pager_fill_def Let_def)
qed

section \<open>Connection requests\<close>

text \<open>The deferred work changes a waiter only by sending its request.\<close>

definition waiter_step :: "waiter \<Rightarrow> waiter \<Rightarrow> bool" where
  "waiter_step x y \<longleftrightarrow> reply_to y = reply_to x \<and> wt_interface y = wt_interface x \<and> (sent_request x \<longrightarrow> y = x)"

lemma waiter_step_trans: "waiter_step x y \<Longrightarrow> waiter_step y z \<Longrightarrow> waiter_step x z"
  by (auto simp: waiter_step_def)

lemma send_requests_steps:
  "send_requests S ch i ws w = Inr (r, ws', w') \<Longrightarrow>
   list_all2 waiter_step ws ws' \<and> (\<not> r \<longrightarrow> (\<forall>x \<in> set ws'. reply_to x \<noteq> 0 \<and> wt_interface x = i \<longrightarrow> sent_request x))"
proof (induction ws arbitrary: w r ws' w')
  case (Cons x xs)
  show ?case
  proof (cases "reply_to x \<noteq> 0 \<and> wt_interface x = i \<and> \<not> sent_request x")
    case True
    obtain e w1 where e: "async_send_server_connect S ch i w = (e, w1)" by force
    show ?thesis
    proof (cases "e = err_code ERR_WOULD_BLOCK")
      case would: True
      then show ?thesis using True e Cons.prems Cons.IH by (auto simp: rmap_def waiter_step_def)
    next
      case False
      then show ?thesis using True e Cons.prems Cons.IH by (auto simp: rmap_def waiter_step_def)
    qed
  next
    case False
    then show ?thesis using Cons.prems Cons.IH by (auto simp: rmap_def waiter_step_def)
  qed
qed simp

lemma send_requests_quiet:
  "\<forall>x \<in> set ws. reply_to x \<noteq> 0 \<and> wt_interface x = i \<longrightarrow> sent_request x \<Longrightarrow> send_requests S ch i ws w = Inr (False, ws, w)"
  by (induction ws) auto

lemma list_all2_waiters:
  assumes "list_all2 waiter_step xs ys" "y \<in> set ys"
  obtains x where "x \<in> set xs" "waiter_step x y"
  using assms by (metis list_all2_conv_all_nth in_set_conv_nth)

lemma interface_loop_sends:
  "interface_loop S is s = Inr (r, s') \<Longrightarrow> mm_servers s' = mm_servers s \<and> list_all2 waiter_step (waiters s) (waiters s')
   \<and> (\<not> r \<longrightarrow> (\<forall>x \<in> set (waiters s'). reply_to x \<noteq> 0 \<and> (\<exists>i \<in> set is. wt_interface x = of_nat i \<and> mm_servers s ! i \<noteq> 0) \<longrightarrow> sent_request x))"
proof (induction "is" arbitrary: s r)
  case Nil
  then show ?case by (auto simp: waiter_step_def intro: list_all2_refl)
next
  case (Cons i "is")
  then have i: "i < length (mm_servers s)" by (auto simp: load_def split: if_splits)
  show ?case
  proof (cases "mm_servers s ! i = 0")
    case True
    then show ?thesis using Cons i by fastforce
  next
    case False
    then obtain retry ws w where snd: "send_requests S (mm_servers s ! i) (of_nat i) (waiters s) (world s) = Inr (retry, ws, w)"
      and rest: "rmap (\<lambda>(r, s). (retry \<or> r, s)) (interface_loop S is (s\<lparr>waiters := ws, world := w\<rparr>)) = Inr (r, s')"
      using Cons.prems i by (simp del: rmap_simps) blast
    obtain r1 where loop: "interface_loop S is (s\<lparr>waiters := ws, world := w\<rparr>) = Inr (r1, s')" and r: "r = (retry \<or> r1)"
    proof (cases "interface_loop S is (s\<lparr>waiters := ws, world := w\<rparr>)")
      case (Inr x)
      obtain r1 s1 where x: "x = (r1, s1)" by (cases x)
      have "s1 = s'" "r = (retry \<or> r1)" using rest unfolding Inr x by simp_all
      with Inr x that show thesis by blast
    qed (use rest in simp)
    note a = send_requests_steps[OF snd]
    have b: "mm_servers s' = mm_servers s" "list_all2 waiter_step ws (waiters s')"
      "\<not> r1 \<Longrightarrow> x \<in> set (waiters s') \<Longrightarrow> reply_to x \<noteq> 0 \<Longrightarrow> j \<in> set is \<Longrightarrow> wt_interface x = of_nat j \<Longrightarrow>
        mm_servers s ! j \<noteq> 0 \<Longrightarrow> sent_request x" for x j
      using Cons.IH[OF loop] by auto
    have "list_all2 waiter_step (waiters s) (waiters s')"
      using list_all2_trans[OF waiter_step_trans conjunct1[OF a] b(2)] by simp
    moreover have "sent_request x" if x: "\<not> r" "x \<in> set (waiters s')" "reply_to x \<noteq> 0" "wt_interface x = of_nat i" for x
    proof -
      obtain y where y: "y \<in> set ws" "waiter_step y x" using list_all2_waiters[OF b(2) x(2)] by blast
      then have "sent_request y" using a r x by (auto simp: waiter_step_def)
      with y show ?thesis by (auto simp: waiter_step_def)
    qed
    ultimately show ?thesis using b(1) b(3) r by auto
  qed
qed

lemma interface_loop_quiet:
  "\<forall>i \<in> set is. i < length (mm_servers s) \<Longrightarrow>
   \<forall>x \<in> set (waiters s). reply_to x \<noteq> 0 \<and> (\<exists>i \<in> set is. wt_interface x = of_nat i \<and> mm_servers s ! i \<noteq> 0) \<longrightarrow> sent_request x \<Longrightarrow>
   interface_loop S is s = Inr (False, s)"
proof (induction "is")
  case (Cons i "is")
  then have "mm_servers s ! i \<noteq> 0 \<longrightarrow> send_requests S (mm_servers s ! i) (of_nat i) (waiters s) (world s) = Inr (False, waiters s, world s)"
    by (auto intro!: send_requests_quiet)
  then show ?case using Cons by auto
qed simp

section \<open>A sample instance\<close>

text \<open>Message identifiers and accessors in the way of the generated code, and stubs that always succeed.\<close>

definition mm_idl :: memmgr_idl where
  "mm_idl = \<lparr>MEMMGR_GET_FRAMEBUFFER_MSG = 0x0d010000, MEMORY_ALLOC_PAGES_MSG = 0x0b010000,
     MEMORY_ALLOC_PHY_PAGES_MSG = 0x0b020000, MM_PAGER_FILL_MSG = 0x0c010000, MM_RUNTIME_EXIT_MSG = 0x01010000,
     MM_RUNTIME_PRINTCHAR_MSG = 0x01020000, DISCOVERY_PUBLICIZE_MSG = 0x0e011000, DISCOVERY_CONNECT_MSG = 0x0e020000,
     MM_SERVER_CONNECT_REPLY_MSG = 0x0a811000, FS_OPEN_MSG = 0x10010000, FS_READ_MSG = 0x10030000,
     MM_PAGER_FILL_REPLY_MSG = 0x0c810800, RUNTIME_PRINTCHAR_REPLY_MSG = 0x01820000,
     MEMORY_ALLOC_PAGES_REPLY_MSG = 0x0b810800, MEMORY_ALLOC_PHY_PAGES_REPLY_MSG = 0x0b820800,
     MEMMGR_GET_FRAMEBUFFER_REPLY_MSG = 0x0d810800, DISCOVERY_PUBLICIZE_REPLY_MSG = 0x0e810000,
     FS_OPEN_REPLY_MSG = 0x10810000, FS_READ_REPLY_MSG = 0x10830800,
     fill_pid = \<lambda>m. uint (payload_data m ! 0), fill_addr = \<lambda>m. of_nat (le_value (take 8 (drop 8 (payload_data m)))),
     mm_printchar_ch = \<lambda>m. payload_data m ! 0, alloc_order = \<lambda>m. ucast (payload_data m ! 0),
     phy_map_at = \<lambda>m. of_nat (le_value (take 8 (payload_data m))), phy_order = \<lambda>m. ucast (payload_data m ! 8),
     set_phy_paddr = \<lambda>p m. m, set_framebuffer = \<lambda>w h b m. m, publicize_interface = \<lambda>m. payload_data m ! 0,
     publicize_ch = payload_channel, connect_interface = \<lambda>m. payload_data m ! 0, connect_reply_ch = payload_channel,
     open_path = payload_data, set_open_handle = \<lambda>h m. m, read_handle = \<lambda>m. uint (payload_data m ! 0),
     read_offset = \<lambda>m. ucast (payload_data m ! 1), read_len = \<lambda>m. ucast (payload_data m ! 2)\<rparr>"

definition mm_stubs :: "unit memmgr_stubs" where
  "mm_stubs = \<lparr>mm_os = echo_os (empty_message 480), call_process_create = \<lambda>_ _ w. ((0, 7, 3), w),
     call_server_connect = \<lambda>_ _ w. ((0, 4), w), call_process_send_channel = \<lambda>_ _ _ w. (0, w),
     call_process_add_pager = \<lambda>_ _ _ _ _ _ w. (0, w), call_thread_spawn = \<lambda>_ _ _ _ _ _ w. (0, w),
     call_runtime_printchar = \<lambda>_ _ w. (0, w), send_discovery_connect_reply = \<lambda>_ _ w. w,
     async_send_server_connect = \<lambda>_ _ w. (0, w)\<rparr>"

definition mm_sample :: "u8 list \<Rightarrow> zone list \<Rightarrow> unit memmgr" where
  "mm_sample img zs = \<lparr>ipc_buffer = empty_message 4040, tib_page_base = 0, world = (), mm_zones = zs,
     page_mem = \<lambda>_. replicate PAGE_SIZE 0, mm_image = img,
     framebuffer = \<lparr>fb_available = False, fb_paddr = 0, fb_width = 0, fb_height = 0, fb_bpp = 0\<rparr>,
     mm_processes = replicate NUM_PROCESSES_MAX \<lparr>mm_pid = 0, mm_file = 0, mm_elf = \<lparr>entry = 0, num_phdrs = 0, phdrs = 0\<rparr>\<rparr>,
     mm_servers = (replicate (INTERFACE_ID_MAX + 1) 0)[5 := 9],
     waiters = \<lparr>wt_interface = 5, reply_to = 6, wt_server_ch = 0, sent_request = False\<rparr> #
       replicate 31 \<lparr>wt_interface = 0, reply_to = 0, wt_server_ch = 0, sent_request = False\<rparr>,
     fd_table = replicate FD_TABLE_MAX None, mm_server_ch = 2\<rparr>"

lemma mm_sample_ok: "memmgr_ok (mm_sample img zs)"
  by (simp add: memmgr_ok_def mm_sample_def WAITERS_MAX_def)

lemma sends_succeed:
  assumes "\<And>ch i w. fst (async_send_server_connect S ch i w) = 0"
  shows "\<exists>ws' w'. send_requests S ch i ws w = Inr (False, ws', w')"
proof (induction ws arbitrary: w)
  case (Cons x xs)
  obtain w1 where "async_send_server_connect S ch i w = (0, w1)" using assms[of ch i w] by (metis prod.collapse)
  then show ?case using Cons.IH[of w1] Cons.IH[of w] by (auto simp: error_value_def)
qed simp

lemma deferred_succeeds:
  assumes "\<And>ch i w. fst (async_send_server_connect S ch i w) = 0"
  shows "\<forall>i \<in> set is. i < length (mm_servers s) \<Longrightarrow> \<exists>s'. interface_loop S is s = Inr (False, s')"
proof (induction "is" arbitrary: s)
  case (Cons i "is")
  obtain ws w where "send_requests S (mm_servers s ! i) (of_nat i) (waiters s) (world s) = Inr (False, ws, w)"
    using sends_succeed[OF assms] by blast
  then show ?case using Cons.IH[of s] Cons.IH[of "s\<lparr>waiters := ws, world := w\<rparr>"] Cons.prems by auto
qed simp

text \<open>A zone with one free page, and a file that starts with a program header.\<close>

definition one_page :: zone where
  "one_page = \<lparr>zone_id = 0, free_lists = [0] # replicate 12 [], pages = [\<lparr>pg_in_use = False, pg_order = 0\<rparr>], num_pages = 1,
     base_addr = 0x5000\<rparr>"

lemma one_page_alloc: "\<exists>zs. alloc_pages [one_page] 0 = Inr (0x5000, zs)"
  by (simp add: alloc_pages_def one_page_def numeral_2_eq_2 alloc_from_zone_def get_list_def put_list_def set_page_def
      load_def store_def page_to_paddr_def)

definition phdr_bytes :: "nat \<Rightarrow> nat \<Rightarrow> nat \<Rightarrow> nat \<Rightarrow> u8 list" where
  "phdr_bytes off va filesz memsz =
     le_bytes 8 0 @ le_bytes 8 off @ le_bytes 8 va @ le_bytes 8 0 @ le_bytes 8 filesz @ le_bytes 8 memsz @ le_bytes 8 0"

lemma read_phdr_bytes:
  assumes "off < 2 ^ 64" "va < 2 ^ 64" "filesz < 2 ^ 64" "memsz < 2 ^ 64"
  shows "read_phdr (phdr_bytes off va filesz memsz @ rest) \<lparr>entry = e, num_phdrs = n, phdrs = 0\<rparr> 0 =
    Inr \<lparr>p_offset = of_nat off, p_vaddr = of_nat va, p_filesz = of_nat filesz, p_memsz = of_nat memsz\<rparr>"
proof -
  have p: "peek_le (xs @ le_bytes 8 v @ ys) (length xs) 8 = Inr v" if "v < 2 ^ 64" for xs ys v
    using peek_append[of "length xs" xs 8 "le_bytes 8 v" ys] le_value_bytes[of v 8] that by (simp add: peek_le_def)
  let ?z = "le_bytes 8 0"
  have "peek_le (phdr_bytes off va filesz memsz @ rest) 8 8 = Inr off"
    using p[OF assms(1), of ?z] by (simp add: phdr_bytes_def)
  moreover have "peek_le (phdr_bytes off va filesz memsz @ rest) 16 8 = Inr va"
    using p[OF assms(2), of "?z @ le_bytes 8 off"] by (simp add: phdr_bytes_def)
  moreover have "peek_le (phdr_bytes off va filesz memsz @ rest) 32 8 = Inr filesz"
    using p[OF assms(3), of "?z @ le_bytes 8 off @ le_bytes 8 va @ ?z"] by (simp add: phdr_bytes_def)
  moreover have "peek_le (phdr_bytes off va filesz memsz @ rest) 40 8 = Inr memsz"
    using p[OF assms(4), of "?z @ le_bytes 8 off @ le_bytes 8 va @ ?z @ le_bytes 8 filesz"] by (simp add: phdr_bytes_def)
  ultimately show ?thesis by (simp add: read_phdr_def Let_def sizeof_phdr_def)
qed

text \<open>A process with one segment of four bytes in the file and two pages in memory.\<close>

definition elf_content :: "u8 list" where "elf_content = phdr_bytes 56 0x1000000 4 0x2000 @ [1, 2, 3, 4] @ [9, 9] @ replicate 0x1000 8"

definition elf_sample :: "unit memmgr" where
  "elf_sample = (mm_sample (file_record [0x61] elf_content) [one_page])\<lparr>mm_processes :=
     \<lparr>mm_pid = 7, mm_file = 0, mm_elf = \<lparr>entry = 0, num_phdrs = 1, phdrs = 0\<rparr>\<rparr> #
     replicate 127 \<lparr>mm_pid = 0, mm_file = 0, mm_elf = \<lparr>entry = 0, num_phdrs = 0, phdrs = 0\<rparr>\<rparr>\<rparr>"

definition fill_idl :: "addr \<Rightarrow> memmgr_idl" where
  "fill_idl a = mm_idl\<lparr>fill_pid := \<lambda>_. 7, fill_addr := \<lambda>_. a\<rparr>"

lemma elf_sample_ok:
  "memmgr_ok elf_sample" "get_process_by_pid elf_sample 7 = Some \<lparr>mm_pid = 7, mm_file = 0, mm_elf = \<lparr>entry = 0, num_phdrs = 1, phdrs = 0\<rparr>\<rparr>"
  "mm_image elf_sample = [] @ file_record [0x61] elf_content @ []" "length elf_content < 2 ^ 32"
  by (simp_all add: elf_sample_def memmgr_ok_def get_process_by_pid_def mm_sample_def NUM_PROCESSES_MAX_def WAITERS_MAX_def
      elf_content_def phdr_bytes_def)

lemma elf_sample_segment:
  assumes "0x1000000 \<le> a" "a < 0x1002000"
  shows "first_covering (mm_image elf_sample) (length []) (mm_elf \<lparr>mm_pid = 7, mm_file = 0, mm_elf = \<lparr>entry = 0, num_phdrs = 1, phdrs = 0\<rparr>\<rparr>) a
    \<lparr>p_offset = 56, p_vaddr = 0x1000000, p_filesz = 4, p_memsz = 0x2000\<rparr>"
proof -
  have "drop (length [] + 64 + 0) (mm_image elf_sample) = elf_content @ replicate (PAGE_SIZE - length elf_content mod PAGE_SIZE) 0"
    using record_content[OF elf_sample_ok(3), of 0] by simp
  then show ?thesis using assms read_phdr_bytes[of 56 "0x1000000" 4 "0x2000"]
    by (simp add: first_covering_def covers_def elf_content_def)
qed

section \<open>Properties\<close>





text \<open>
  C31: the memory manager serves the files of the image. On an image that mkinitfs wrote,
  fs.open finds exactly the names of the image (and fails with ERR_NOT_FOUND for any
  other), and a read through the handle returns a page that starts with the bytes of the
  file at the offset, cut to the length of the request and the end of the file.
\<close>

theorem fs_serves_image:
  assumes img: "make_image sn sb fl files = Inr (mm_image s)"
    and names: "\<forall>(n, c) \<in> set ((sn, drop 192 sb) # selected fl files). 0 \<notin> set n"
    and ok: "memmgr_ok s" and fd: "first_free_fd 0 (fd_table s) = Some fd" and path: "cstr (open_path I m) p"
  shows "case map_of ((sn, drop 192 sb) # selected fl files) p of
      None \<Rightarrow> handle_fs_open I m s = Inr (err_code ERR_NOT_FOUND, m, s)
    | Some c \<Rightarrow> \<exists>s1. handle_fs_open I m s = Inr (err_code OK, set_open_handle I (int fd) (m\<lparr>header := FS_OPEN_REPLY_MSG I\<rparr>), s1)
        \<and> (\<forall>m2 a zs. read_handle I m2 = int fd \<and> read_offset I m2 < of_nat (length c) \<and> read_len I m2 \<le> of_nat PAGE_SIZE
             \<and> alloc_pages (mm_zones s) 0 = Inr (a, zs) \<and> a \<noteq> 0 \<longrightarrow>
           (\<exists>m3 s2. handle_fs_read I m2 s1 = Inr (err_code OK, m3, s2) \<and> payload_page m3 = PAGE_PAYLOAD a 0
             \<and> (let n = min (unat (read_len I m2)) (length c - unat (read_offset I m2)) in
                page_mem s2 a = take n (drop (unat (read_offset I m2)) c) @ drop n (page_mem s a))))"
proof -
  let ?all = "(sn, drop 192 sb) # selected fl files"
  note sh = make_image_shape[OF img]
  obtain pre where pre: "length pre = 128" "mm_image s = pre @ concat (map (\<lambda>(name, c). file_record name c) ?all) @ []"
    using sh(1) by auto
  have bounds: "\<forall>(name, c) \<in> set ?all. length name < 48 \<and> length c < 2 ^ 32 \<and> 0 \<notin> set name"
    using make_image_layout(3)[OF img] names by auto
  note ff = find_file_ok[OF sh(3) path pre(2) bounds, of 0 "Suc (length ?all)", folded pre(1)]
  show ?thesis
  proof (cases "map_of ?all p")
    case None
    then show ?thesis using ff fd sh(3) pre(1) by (simp add: handle_fs_open_def initfs_opendir_def del: find_file.simps map_of.simps)
  next
    case (Some c)
    then obtain pre' post' where f: "mm_image s = pre' @ file_record p c @ post'" "length c < 2 ^ 32"
      "find_file (Suc (length ?all)) (mm_image s) (open_path I m) \<lparr>dir_index = 0, dir_next = 128\<rparr> = Inr (Some (length pre'))"
      using ff pre(1) by (auto simp del: find_file.simps map_of.simps)
    have p48: "length p < 48" using map_of_SomeD[OF Some] bounds by auto
    define s1 where "s1 = s\<lparr>fd_table := (fd_table s)[fd := Some (length pre')]\<rparr>"
    have op: "handle_fs_open I m s = Inr (err_code OK, set_open_handle I (int fd) (m\<lparr>header := FS_OPEN_REPLY_MSG I\<rparr>), s1)"
      using fd f(3) sh(3) by (simp add: handle_fs_open_def initfs_opendir_def s1_def del: find_file.simps)
    have ok1: "memmgr_ok s1" using ok by (simp add: memmgr_ok_def s1_def)
    have fdb: "fd < FD_TABLE_MAX" using first_free_fd_bound[OF fd] ok by (simp add: memmgr_ok_def)
    have tab: "fd_table s1 ! fd = Some (length pre')" using fdb ok by (simp add: s1_def memmgr_ok_def)
    have rest: "mm_image s1 = pre' @ file_record p c @ post'" "mm_zones s1 = mm_zones s" "page_mem s1 = page_mem s"
      using f(1) by (simp_all add: s1_def)
    have "\<exists>m3 s2. handle_fs_read I m2 s1 = Inr (err_code OK, m3, s2) \<and> payload_page m3 = PAGE_PAYLOAD a 0
        \<and> (let n = min (unat (read_len I m2)) (length c - unat (read_offset I m2)) in
           page_mem s2 a = take n (drop (unat (read_offset I m2)) c) @ drop n (page_mem s a))"
      if r: "read_handle I m2 = int fd" "read_offset I m2 < of_nat (length c)" "read_len I m2 \<le> of_nat PAGE_SIZE"
        "alloc_pages (mm_zones s) 0 = Inr (a, zs)" "a \<noteq> 0" for m2 a zs
      using fs_read_file[OF ok1 r(1) fdb tab rest(1) p48 f(2) r(2,3)] r(4,5) rest(2,3) by (simp add: Let_def)
    with op Some show ?thesis by (auto simp del: map_of.simps)
  qed
qed

theorem fs_serves_image_witness:
  "\<exists>img s1. make_image [0x61] (replicate 192 7) None [([0x62], [1, 2])] = Inr img
     \<and> handle_fs_open mm_idl ((empty_message 480)\<lparr>payload_data := [0x62, 0]\<rparr>) (mm_sample img []) =
         Inr (err_code OK, ((empty_message 480)\<lparr>payload_data := [0x62, 0], header := FS_OPEN_REPLY_MSG mm_idl\<rparr>), s1)"
proof -
  obtain img where img: "make_image [0x61] (replicate 192 7) None [([0x62], [1, 2])] = Inr img" using sample_image by blast
  let ?m = "(empty_message 480)\<lparr>payload_data := [0x62, 0]\<rparr>"
  have im: "make_image [0x61] (replicate 192 7) None [([0x62], [1, 2])] = Inr (mm_image (mm_sample img []))"
    using img by (simp add: mm_sample_def)
  have names: "\<forall>(n, c) \<in> set (([0x61], drop 192 (replicate 192 7)) # selected None [([0x62], [1, 2])]). 0 \<notin> set n"
    by (simp add: selected_def)
  have fd: "first_free_fd 0 (fd_table (mm_sample img [])) = Some 0" by (simp add: mm_sample_def FD_TABLE_MAX_def numeral_eq_Suc)
  have path: "cstr (open_path mm_idl ?m) [0x62]" by (simp add: mm_idl_def cstr_def)
  have "map_of (([0x61], drop 192 (replicate 192 7)) # selected None [([0x62], [1, 2])]) [0x62] = Some [1, 2 :: u8]"
    by (simp add: selected_def)
  with fs_serves_image[OF im names mm_sample_ok fd path] obtain s1 where
    "handle_fs_open mm_idl ?m (mm_sample img []) = Inr (err_code OK, set_open_handle mm_idl (int 0) (?m\<lparr>header := FS_OPEN_REPLY_MSG mm_idl\<rparr>), s1)"
    by auto
  with img show ?thesis by (auto simp: mm_idl_def)
qed

text \<open>
  C33: page faults load the executable. When the first segment that covers the faulting
  address lies in the file and the address is in the part that the file backs, the
  handler replies with a fresh page that holds the bytes of the segment from that address
  on, up to the end of the page or of the segment.
\<close>

theorem pager_fill_loads_segment:
  assumes ok: "memmgr_ok s" and proc: "get_process_by_pid s (fill_pid I m) = Some proc" "mm_file proc = length pre"
    and img: "mm_image s = pre @ file_record name c @ post" "length name < 48" "length c < 2 ^ 32"
    and seg: "first_covering (mm_image s) (length pre) (mm_elf proc) (fill_addr I m) phdr"
    and inside: "unat (p_offset phdr) + unat (p_filesz phdr) \<le> length c" "fill_addr I m - p_vaddr phdr < p_filesz phdr"
    and page: "alloc_pages (mm_zones s) 0 = Inr (a, zs)" "a \<noteq> 0"
  shows "\<exists>m' s'. mm_handle_pager_fill I m s = Inr (err_code OK, m', s') \<and> header m' = MM_PAGER_FILL_REPLY_MSG I
    \<and> payload_page m' = PAGE_PAYLOAD a 0
    \<and> (let segment = take (unat (p_filesz phdr)) (drop (unat (p_offset phdr)) c);
           off = unat (fill_addr I m - p_vaddr phdr);
           n = min 4096 (length segment - off) in
       page_mem s' a = take n (drop off segment) @ drop n (page_mem s a) \<and> (\<forall>b. b \<noteq> a \<longrightarrow> page_mem s' b = page_mem s b))"
proof -
  let ?off = "fill_addr I m - p_vaddr phdr"
  have o: "unat ?off < unat (p_filesz phdr)" using inside(2) by (simp add: word_less_nat_alt)
  have lt: "unat (p_offset phdr) + unat ?off < length c" using inside(1) o by simp
  have sub: "unat (p_filesz phdr - ?off) = unat (p_filesz phdr) - unat ?off"
    using inside(2) by (intro unat_sub) (simp add: less_imp_le)
  let ?n = "min (min 4096 (length c - (unat (p_offset phdr) + unat ?off))) (unat (p_filesz phdr - ?off))"
  have n: "?n = min 4096 (unat (p_filesz phdr) - unat ?off)" using inside(1) o sub by simp
  have mn: "min (length c - unat (p_offset phdr)) (unat (p_filesz phdr)) = unat (p_filesz phdr)" using inside(1) by simp
  have "take ?n (drop (unat (p_offset phdr) + unat ?off) c) =
      take ?n (drop (unat ?off) (take (unat (p_filesz phdr)) (drop (unat (p_offset phdr)) c)))"
    unfolding n by (simp add: drop_take min_def add.commute)
  then show ?thesis
    using pager_fill_page[OF ok proc img seg page refl lt] unfolding n by (auto simp: Let_def mn)
qed

theorem pager_fill_loads_segment_witness:
  "\<exists>m' s'. mm_handle_pager_fill (fill_idl 0x1000000) (empty_message 480) elf_sample = Inr (err_code OK, m', s')
     \<and> take 4 (page_mem s' 0x5000) = [1, 2, 3, 4]"
proof -
  let ?I = "fill_idl 0x1000000" and ?m = "empty_message 480"
  obtain zs where al: "alloc_pages (mm_zones elf_sample) 0 = Inr (0x5000, zs)"
    using one_page_alloc by (auto simp: elf_sample_def mm_sample_def)
  have proc: "get_process_by_pid elf_sample (fill_pid ?I ?m) = Some \<lparr>mm_pid = 7, mm_file = 0, mm_elf = \<lparr>entry = 0, num_phdrs = 1, phdrs = 0\<rparr>\<rparr>"
    using elf_sample_ok(2) by (simp add: fill_idl_def)
  have fa: "fill_addr ?I ?m = 0x1000000" by (simp add: fill_idl_def)
  have lc: "length elf_content = 4158" by (simp add: elf_content_def phdr_bytes_def)
  have sg: "take 4 (drop 56 elf_content) = [1, 2, 3, 4]" by (simp add: elf_content_def phdr_bytes_def)
  have seg: "first_covering (mm_image elf_sample) (length []) (mm_elf \<lparr>mm_pid = 7, mm_file = 0, mm_elf = \<lparr>entry = 0, num_phdrs = 1, phdrs = 0\<rparr>\<rparr>)
      (fill_addr ?I ?m) \<lparr>p_offset = 56, p_vaddr = 0x1000000, p_filesz = 4, p_memsz = 0x2000\<rparr>"
    unfolding fa by (rule elf_sample_segment) simp_all
  have "\<exists>m' s'. mm_handle_pager_fill ?I ?m elf_sample = Inr (err_code OK, m', s') \<and> header m' = MM_PAGER_FILL_REPLY_MSG ?I
    \<and> payload_page m' = PAGE_PAYLOAD 0x5000 0
    \<and> (let segment = take 4 (drop 56 elf_content); off = 0; n = min 4096 (length segment - off) in
       page_mem s' 0x5000 = take n (drop off segment) @ drop n (page_mem elf_sample 0x5000)
       \<and> (\<forall>b. b \<noteq> 0x5000 \<longrightarrow> page_mem s' b = page_mem elf_sample b))"
    using pager_fill_loads_segment[OF elf_sample_ok(1) proc _ elf_sample_ok(3) _ elf_sample_ok(4) seg _ _ al] lc fa by simp
  then show ?thesis unfolding sg by (auto simp: Let_def)
qed

text \<open>
  C40: pages behind the file part of a segment are not zero. When the faulting address is
  in the part of a segment that the file does not back, the subtraction that should
  limit the copy wraps around, and the page is filled with the bytes that follow the
  segment in the file.
\<close>

theorem pager_fill_copies_beyond_segment:
  assumes ok: "memmgr_ok s" and proc: "get_process_by_pid s (fill_pid I m) = Some proc" "mm_file proc = length pre"
    and img: "mm_image s = pre @ file_record name c @ post" "length name < 48" "length c < 2 ^ 32"
    and seg: "first_covering (mm_image s) (length pre) (mm_elf proc) (fill_addr I m) phdr"
    and off: "off = fill_addr I m - p_vaddr phdr" "p_filesz phdr < off" "off < 2 ^ 32" "unat (p_offset phdr) + unat off < length c"
    and page: "alloc_pages (mm_zones s) 0 = Inr (a, zs)" "a \<noteq> 0"
  shows "\<exists>m' s'. mm_handle_pager_fill I m s = Inr (err_code OK, m', s')
    \<and> (let n = min 4096 (length c - (unat (p_offset phdr) + unat off)) in
       0 < n \<and> take n (page_mem s' a) = take n (drop (unat (p_offset phdr) + unat off) c))"
proof -
  have o: "unat off < 2 ^ 32" "unat (p_filesz phdr) < unat off" using off(2,3) by (simp_all add: word_less_nat_alt)
  have "unat (p_filesz phdr - off) = 2 ^ 64 + unat (p_filesz phdr) - unat off"
    using off(2) unat_sub_if'[of "p_filesz phdr" off] by (simp add: word_le_nat_alt word_less_nat_alt)
  then have "4096 \<le> unat (p_filesz phdr - off)" using o by simp
  then have n: "min (min 4096 (length c - (unat (p_offset phdr) + unat off))) (unat (p_filesz phdr - off)) =
      min 4096 (length c - (unat (p_offset phdr) + unat off))" by simp
  show ?thesis using pager_fill_page[OF ok proc img seg page off(1) off(4)] off(4) unfolding n by (auto simp: Let_def)
qed

theorem pager_fill_copies_beyond_segment_witness:
  "\<exists>m' s'. mm_handle_pager_fill (fill_idl 0x1000006) (empty_message 480) elf_sample = Inr (err_code OK, m', s')
     \<and> take 4096 (page_mem s' 0x5000) = replicate 4096 8"
proof -
  let ?I = "fill_idl 0x1000006" and ?m = "empty_message 480"
  obtain zs where al: "alloc_pages (mm_zones elf_sample) 0 = Inr (0x5000, zs)"
    using one_page_alloc by (auto simp: elf_sample_def mm_sample_def)
  have proc: "get_process_by_pid elf_sample (fill_pid ?I ?m) = Some \<lparr>mm_pid = 7, mm_file = 0, mm_elf = \<lparr>entry = 0, num_phdrs = 1, phdrs = 0\<rparr>\<rparr>"
    using elf_sample_ok(2) by (simp add: fill_idl_def)
  have fa: "fill_addr ?I ?m = 0x1000006" by (simp add: fill_idl_def)
  have lc: "length elf_content = 4158" by (simp add: elf_content_def phdr_bytes_def)
  have sg: "drop 62 elf_content = replicate 4096 8" by (simp add: elf_content_def phdr_bytes_def)
  have seg: "first_covering (mm_image elf_sample) (length []) (mm_elf \<lparr>mm_pid = 7, mm_file = 0, mm_elf = \<lparr>entry = 0, num_phdrs = 1, phdrs = 0\<rparr>\<rparr>)
      (fill_addr ?I ?m) \<lparr>p_offset = 56, p_vaddr = 0x1000000, p_filesz = 4, p_memsz = 0x2000\<rparr>"
    unfolding fa by (rule elf_sample_segment) simp_all
  have "\<exists>m' s'. mm_handle_pager_fill ?I ?m elf_sample = Inr (err_code OK, m', s')
    \<and> (let n = min 4096 (length elf_content - (unat (56 :: u64) + unat (6 :: u64))) in
       0 < n \<and> take n (page_mem s' 0x5000) = take n (drop (unat (56 :: u64) + unat (6 :: u64)) elf_content))"
    using pager_fill_copies_beyond_segment[OF elf_sample_ok(1) proc _ elf_sample_ok(3) _ elf_sample_ok(4) seg, of 6, OF _ _ _ _ _ _ al] lc fa
    by simp
  then show ?thesis by (simp add: lc sg Let_def)
qed

end
