(* ===== verification/Pci.thy ===== *)
theory Pci
  imports Libresea
begin

text \<open>
  The PCI server servers/pci/main.c: access to the configuration space through the
  address and data ports, the search for a device, and the message handlers. The ports
  are a parameter; what the server relies on is the PCI configuration mechanism, stated
  as \<open>config_mechanism\<close>.
\<close>

section \<open>Configuration space\<close>

definition PCI_IOPORT_ADDR :: addr where "PCI_IOPORT_ADDR = 0x0cf8"
definition PCI_IOPORT_SIZE :: u64 where "PCI_IOPORT_SIZE = 8"
definition IOPORT_OFFSET_ADDR :: u64 where "IOPORT_OFFSET_ADDR = 0"
definition IOPORT_OFFSET_DATA :: u64 where "IOPORT_OFFSET_DATA = 4"
definition PCI_ANY :: u16 where "PCI_ANY = 0xffff"
definition PCI_CONFIG_VENDOR_ID :: u16 where "PCI_CONFIG_VENDOR_ID = 0x00"
definition PCI_CONFIG_DEVICE_ID :: u16 where "PCI_CONFIG_DEVICE_ID = 0x02"
definition PCI_CONFIG_SUBVENDOR_ID :: u16 where "PCI_CONFIG_SUBVENDOR_ID = 0x2c"
definition PCI_CONFIG_SUBDEVICE_ID :: u16 where "PCI_CONFIG_SUBDEVICE_ID = 0x2e"

text \<open>The address of a register: an offset beyond 0xff runs into the device number.\<close>

definition config_addr :: "u8 \<Rightarrow> u8 \<Rightarrow> u16 \<Rightarrow> u32" where
  "config_addr bus dev offset = push_bit 31 1 OR push_bit 16 (ucast bus) OR push_bit 11 (ucast dev) OR ucast offset"

definition read_config32 :: "'w ioports \<Rightarrow> io_handle \<Rightarrow> u8 \<Rightarrow> u8 \<Rightarrow> u16 \<Rightarrow> 'w \<Rightarrow> (u32 \<times> 'w) res" where
  "read_config32 P h bus dev offset w =
     rbind (require Assertion (offset AND 0x3 = 0)) (\<lambda>_.
     rbind (io_write32 P h IOPORT_OFFSET_ADDR (config_addr bus dev offset) w) (\<lambda>w.
     io_read32 P h IOPORT_OFFSET_DATA w))"

definition read_config16 :: "'w ioports \<Rightarrow> io_handle \<Rightarrow> u8 \<Rightarrow> u8 \<Rightarrow> u16 \<Rightarrow> 'w \<Rightarrow> (u16 \<times> 'w) res" where
  "read_config16 P h bus dev offset w =
     rmap (\<lambda>(value, w). (ucast (drop_bit (unat (offset AND 0x3) * 8) value AND 0xffff), w))
       (read_config32 P h bus dev (offset AND 0xfc) w)"

definition write_config32 :: "'w ioports \<Rightarrow> io_handle \<Rightarrow> u8 \<Rightarrow> u8 \<Rightarrow> u16 \<Rightarrow> u32 \<Rightarrow> 'w \<Rightarrow> 'w res" where
  "write_config32 P h bus dev offset data w =
     rbind (require Assertion (offset AND 0x3 = 0)) (\<lambda>_.
     rbind (io_write32 P h IOPORT_OFFSET_ADDR (config_addr bus dev offset) w) (\<lambda>w.
     io_write32 P h IOPORT_OFFSET_DATA data w))"

definition write_config8 :: "'w ioports \<Rightarrow> io_handle \<Rightarrow> u8 \<Rightarrow> u8 \<Rightarrow> u16 \<Rightarrow> u8 \<Rightarrow> 'w \<Rightarrow> 'w res" where
  "write_config8 P h bus dev offset data w =
     (let aligned_offset = offset AND 0xfc in
      rbind (read_config32 P h bus dev aligned_offset w) (\<lambda>(value, w).
      let byte_off = unat (offset AND 0x3) * 8;
          new_value = push_bit byte_off (ucast data) OR (value AND NOT (push_bit byte_off 0xff)) in
      write_config32 P h bus dev aligned_offset new_value w))"

section \<open>Looking for a device\<close>

record pci_device =
  dev_vendor :: u16
  dev_device :: u16
  dev_subvendor :: u16
  dev_subdevice :: u16
  dev_bus :: u8
  dev_slot :: u8

text \<open>The two loops run over the pairs of bus and slot numbers.\<close>

fun look_loop ::
  "'w ioports \<Rightarrow> io_handle \<Rightarrow> u16 \<Rightarrow> u16 \<Rightarrow> (u8 \<times> u8) list \<Rightarrow> 'w \<Rightarrow> (pci_device option \<times> 'w) res" where
  "look_loop P h vendor device [] w = Inr (None, w)"
| "look_loop P h vendor device ((i, j) # slots) w =
     rbind (read_config16 P h i j PCI_CONFIG_VENDOR_ID w) (\<lambda>(vendor_id, w).
     if vendor_id = 0xffff then look_loop P h vendor device slots w
     else if vendor \<noteq> PCI_ANY \<and> vendor_id \<noteq> vendor then look_loop P h vendor device slots w
     else
       rbind (read_config16 P h i j PCI_CONFIG_DEVICE_ID w) (\<lambda>(device_id, w).
       if device \<noteq> PCI_ANY \<and> device_id \<noteq> device then look_loop P h vendor device slots w
       else
         rbind (read_config16 P h i j PCI_CONFIG_SUBVENDOR_ID w) (\<lambda>(subvendor, w).
         rbind (read_config16 P h i j PCI_CONFIG_SUBDEVICE_ID w) (\<lambda>(subdevice, w).
         Inr (Some \<lparr>dev_vendor = vendor_id, dev_device = device_id, dev_subvendor = subvendor,
                   dev_subdevice = subdevice, dev_bus = i, dev_slot = j\<rparr>, w)))))"

definition all_slots :: "(u8 \<times> u8) list" where
  "all_slots = concat (map (\<lambda>i. map (\<lambda>j. (of_nat i, of_nat j)) [0..<32]) [0..<256])"

definition look_for_device ::
  "'w ioports \<Rightarrow> io_handle \<Rightarrow> u16 \<Rightarrow> u16 \<Rightarrow> 'w \<Rightarrow> ((int \<times> pci_device option) \<times> 'w) res" where
  "look_for_device P h vendor device w =
     rmap (\<lambda>(d, w). ((if d = None then err_code ERR_NOT_FOUND else err_code OK, d), w))
       (look_loop P h vendor device all_slots w)"

section \<open>Handlers\<close>

record pci_idl =
  PCI_SERVER_CONNECT_MSG :: u32
  PCI_WAIT_FOR_DEVICE_MSG :: u32
  PCI_READ_CONFIG16_MSG :: u32
  PCI_READ_CONFIG32_MSG :: u32
  PCI_WRITE_CONFIG8_MSG :: u32
  PCI_WRITE_CONFIG32_MSG :: u32
  PCI_SERVER_CONNECT_REPLY_MSG :: u32
  PCI_WAIT_FOR_DEVICE_REPLY_MSG :: u32
  PCI_READ_CONFIG16_REPLY_MSG :: u32
  PCI_READ_CONFIG32_REPLY_MSG :: u32
  PCI_WRITE_CONFIG8_REPLY_MSG :: u32
  PCI_WRITE_CONFIG32_REPLY_MSG :: u32
  wait_vendor :: "message \<Rightarrow> u16"
  wait_device :: "message \<Rightarrow> u16"
  set_wait_reply :: "u8 \<Rightarrow> u8 \<Rightarrow> message \<Rightarrow> message"
  cfg_bus :: "message \<Rightarrow> u8"
  cfg_slot :: "message \<Rightarrow> u8"
  cfg_offset :: "message \<Rightarrow> u16"
  cfg_data8 :: "message \<Rightarrow> u8"
  cfg_data32 :: "message \<Rightarrow> u32"
  set_data16 :: "u16 \<Rightarrow> message \<Rightarrow> message"
  set_data32 :: "u32 \<Rightarrow> message \<Rightarrow> message"

record 'w pci = "'w user" +
  pci_io_handle :: io_handle
  pci_server_ch :: int

text \<open>The reply has the bus and the slot only; its other two fields keep what the request had there.\<close>

definition handle_pci_wait_for_device ::
  "pci_idl \<Rightarrow> 'w ioports \<Rightarrow> message \<Rightarrow> 'w pci \<Rightarrow> (int \<times> message \<times> 'w pci) res" where
  "handle_pci_wait_for_device I P m s =
     rbind (look_for_device P (pci_io_handle s) (wait_vendor I m) (wait_device I m) (world s)) (\<lambda>((err, d), w).
     let s = s\<lparr>world := w\<rparr> in
     case d of
       None \<Rightarrow> Inr (err_code ERR_NOT_FOUND, m, s)
     | Some d \<Rightarrow>
         Inr (err_code OK, set_wait_reply I (dev_bus d) (dev_slot d) (m\<lparr>header := PCI_WAIT_FOR_DEVICE_REPLY_MSG I\<rparr>), s))"

definition handle_pci_read_config16 ::
  "pci_idl \<Rightarrow> 'w ioports \<Rightarrow> message \<Rightarrow> 'w pci \<Rightarrow> (int \<times> message \<times> 'w pci) res" where
  "handle_pci_read_config16 I P m s =
     rbind (read_config16 P (pci_io_handle s) (cfg_bus I m) (cfg_slot I m) (cfg_offset I m) (world s)) (\<lambda>(data, w).
     Inr (err_code OK, set_data16 I data (m\<lparr>header := PCI_READ_CONFIG16_REPLY_MSG I\<rparr>), s\<lparr>world := w\<rparr>))"

definition handle_pci_read_config32 ::
  "pci_idl \<Rightarrow> 'w ioports \<Rightarrow> message \<Rightarrow> 'w pci \<Rightarrow> (int \<times> message \<times> 'w pci) res" where
  "handle_pci_read_config32 I P m s =
     rbind (read_config32 P (pci_io_handle s) (cfg_bus I m) (cfg_slot I m) (cfg_offset I m) (world s)) (\<lambda>(data, w).
     Inr (err_code OK, set_data32 I data (m\<lparr>header := PCI_READ_CONFIG32_REPLY_MSG I\<rparr>), s\<lparr>world := w\<rparr>))"

definition handle_pci_write_config8 ::
  "pci_idl \<Rightarrow> 'w ioports \<Rightarrow> message \<Rightarrow> 'w pci \<Rightarrow> (int \<times> message \<times> 'w pci) res" where
  "handle_pci_write_config8 I P m s =
     rbind (write_config8 P (pci_io_handle s) (cfg_bus I m) (cfg_slot I m) (cfg_offset I m) (cfg_data8 I m) (world s)) (\<lambda>w.
     Inr (err_code OK, m\<lparr>header := PCI_WRITE_CONFIG8_REPLY_MSG I\<rparr>, s\<lparr>world := w\<rparr>))"

definition handle_pci_write_config32 ::
  "pci_idl \<Rightarrow> 'w ioports \<Rightarrow> message \<Rightarrow> 'w pci \<Rightarrow> (int \<times> message \<times> 'w pci) res" where
  "handle_pci_write_config32 I P m s =
     rbind (write_config32 P (pci_io_handle s) (cfg_bus I m) (cfg_slot I m) (cfg_offset I m) (cfg_data32 I m) (world s)) (\<lambda>w.
     Inr (err_code OK, m\<lparr>header := PCI_WRITE_CONFIG32_REPLY_MSG I\<rparr>, s\<lparr>world := w\<rparr>))"

text \<open>The result of the transfer is not looked at.\<close>

definition pci_handle_server_connect ::
  "pci_idl \<Rightarrow> 'w os \<Rightarrow> message \<Rightarrow> 'w pci \<Rightarrow> (int \<times> message \<times> 'w pci) res" where
  "pci_handle_server_connect I S m s =
     (case ch_open S s of
        ((err, None), s) \<Rightarrow> Inr (err, m, s)
      | ((_, Some new_ch), s) \<Rightarrow>
          let (_, s) = ch_transfer S new_ch (pci_server_ch s) s in
          Inr (err_code OK, m\<lparr>header := PCI_SERVER_CONNECT_REPLY_MSG I, payload_channel := new_ch\<rparr>, s))"

definition pci_process_message ::
  "pci_idl \<Rightarrow> 'w os \<Rightarrow> 'w ioports \<Rightarrow> message \<Rightarrow> 'w pci \<Rightarrow> (int \<times> message \<times> 'w pci) res" where
  "pci_process_message I S P m s =
     (if header m = PCI_SERVER_CONNECT_MSG I then pci_handle_server_connect I S m s
      else if header m = PCI_WAIT_FOR_DEVICE_MSG I then handle_pci_wait_for_device I P m s
      else if header m = PCI_READ_CONFIG16_MSG I then handle_pci_read_config16 I P m s
      else if header m = PCI_READ_CONFIG32_MSG I then handle_pci_read_config32 I P m s
      else if header m = PCI_WRITE_CONFIG8_MSG I then handle_pci_write_config8 I P m s
      else if header m = PCI_WRITE_CONFIG32_MSG I then handle_pci_write_config32 I P m s
      else Inr (err_code ERR_UNEXPECTED_MESSAGE, m, s))"

text \<open>The start of the server up to its main loop; interface 40 is the PCI interface.\<close>

definition pci_start ::
  "'w os \<Rightarrow> (int \<Rightarrow> 'w \<Rightarrow> int \<times> 'w) \<Rightarrow> (int \<Rightarrow> u8 \<Rightarrow> int \<Rightarrow> 'w pci \<Rightarrow> int \<times> 'w pci) \<Rightarrow> 'w pci \<Rightarrow> 'w pci res" where
  "pci_start S call_io_allow_iomapped_io call_discovery_publicize s =
     (case ch_open S s of
        ((_, None), _) \<Rightarrow> Inl Panic
      | ((_, Some ch), s) \<Rightarrow>
          let s = s\<lparr>pci_server_ch := ch\<rparr> in
          rbind (io_open call_io_allow_iomapped_io 2 IO_SPACE_IOPORT PCI_IOPORT_ADDR PCI_IOPORT_SIZE (world s)) (\<lambda>((_, h), w).
          case h of
            None \<Rightarrow> Inl Panic
          | Some h \<Rightarrow>
              let s = s\<lparr>world := w, pci_io_handle := h\<rparr>;
                  (err, s) = server_register S call_discovery_publicize 1 (pci_server_ch s) 40 s in
              rbind (require Panic (err = err_code OK)) (\<lambda>_. Inr s)))"

section \<open>The configuration mechanism\<close>

text \<open>
  The address port latches the address of a register, and the data port reads and writes
  the register at the latched address; the registers are storage.
\<close>

definition config_mechanism :: "'w ioports \<Rightarrow> ('w \<Rightarrow> u32) \<Rightarrow> ('w \<Rightarrow> u32 \<Rightarrow> u32) \<Rightarrow> bool" where
  "config_mechanism P latch cfg \<longleftrightarrow> (\<forall>w a v.
     latch (out32 P 0xcf8 a w) = a \<and> cfg (out32 P 0xcf8 a w) = cfg w
     \<and> fst (in32 P 0xcfc w) = cfg w (latch w) \<and> cfg (snd (in32 P 0xcfc w)) = cfg w
     \<and> cfg (out32 P 0xcfc v w) = (cfg w)(latch w := v))"

definition pci_handle :: io_handle where
  "pci_handle = \<lparr>io_type = IO_SPACE_IOPORT, io_addr = PCI_IOPORT_ADDR, io_size = PCI_IOPORT_SIZE\<rparr>"

lemma pci_ports:
  "io_write32 P pci_handle IOPORT_OFFSET_ADDR v w = Inr (out32 P 0xcf8 v w)"
  "io_write32 P pci_handle IOPORT_OFFSET_DATA v w = Inr (out32 P 0xcfc v w)"
  "io_read32 P pci_handle IOPORT_OFFSET_DATA w = Inr (in32 P 0xcfc w)"
  by (simp_all add: io_write32_def io_read32_def io_port_def pci_handle_def PCI_IOPORT_ADDR_def
      IOPORT_OFFSET_ADDR_def IOPORT_OFFSET_DATA_def)

lemma read_config32_value:
  assumes "config_mechanism P latch cfg" "offset AND 0x3 = 0"
  shows "\<exists>w'. read_config32 P pci_handle bus dev offset w = Inr (cfg w (config_addr bus dev offset), w') \<and> cfg w' = cfg w"
proof -
  let ?w = "out32 P 0xcf8 (config_addr bus dev offset) w"
  have r: "read_config32 P pci_handle bus dev offset w = Inr (in32 P 0xcfc ?w)"
    using assms(2) by (simp add: read_config32_def pci_ports)
  have "fst (in32 P 0xcfc ?w) = cfg w (config_addr bus dev offset)" "cfg (snd (in32 P 0xcfc ?w)) = cfg w"
    using assms(1) by (simp_all add: config_mechanism_def)
  then show ?thesis using r by (metis prod.collapse)
qed

lemma aligned: "(offset AND 0xfc) AND (0x3 :: u16) = 0"
  by (simp add: and.assoc)

lemma read_config16_value:
  assumes "config_mechanism P latch cfg"
  shows "\<exists>w'. read_config16 P pci_handle bus dev offset w =
    Inr (ucast (drop_bit (unat (offset AND 0x3) * 8) (cfg w (config_addr bus dev (offset AND 0xfc))) AND 0xffff), w') \<and> cfg w' = cfg w"
  using read_config32_value[OF assms aligned, of bus dev offset w] by (auto simp: read_config16_def)

section \<open>Properties\<close>

text \<open>The bytes of a register.\<close>

definition reg_byte :: "u32 \<Rightarrow> nat \<Rightarrow> u8" where "reg_byte v i = ucast (drop_bit (8 * i) v)"

lemma byte_insert:
  assumes "i < 4" "k < 4"
  shows "reg_byte (push_bit (8 * k) (ucast (data :: u8)) OR (v AND NOT (push_bit (8 * k) 0xff))) i = (if i = k then data else reg_byte v i)"
proof -
  have m: "(0xff :: u32) = mask 8" by (simp add: mask_eq_exp_minus_1)
  show ?thesis
    unfolding m reg_byte_def using assms by (intro bit_word_eqI) (auto simp: bit_simps dest: bit_imp_le_length)
qed


text \<open>A host bridge: the latched address and the registers.\<close>

definition host_ports :: "(u32 \<times> (u32 \<Rightarrow> u32)) ioports" where
  "host_ports = \<lparr>in8 = \<lambda>_ w. (0, w), in16 = \<lambda>_ w. (0, w), in32 = \<lambda>_ w. (snd w (fst w), w), out8 = \<lambda>_ _ w. w, out16 = \<lambda>_ _ w. w,
     out32 = \<lambda>p v w. if p = 0xcf8 then (v, snd w) else (fst w, (snd w)(fst w := v))\<rparr>"

lemma host_mechanism: "config_mechanism host_ports fst snd"
  by (simp add: config_mechanism_def host_ports_def)


text \<open>The half word at an offset, and what the search looks for.\<close>

definition config16 :: "(u32 \<Rightarrow> u32) \<Rightarrow> u8 \<Rightarrow> u8 \<Rightarrow> u16 \<Rightarrow> u16" where
  "config16 cfg b d offset = ucast (drop_bit (unat (offset AND 0x3) * 8) (cfg (config_addr b d (offset AND 0xfc))) AND 0xffff)"

definition pci_match :: "(u32 \<Rightarrow> u32) \<Rightarrow> u16 \<Rightarrow> u16 \<Rightarrow> u8 \<times> u8 \<Rightarrow> bool" where
  "pci_match cfg vendor device slot \<longleftrightarrow>
     (let v = config16 cfg (fst slot) (snd slot) PCI_CONFIG_VENDOR_ID; d = config16 cfg (fst slot) (snd slot) PCI_CONFIG_DEVICE_ID in
      v \<noteq> 0xffff \<and> (vendor = PCI_ANY \<or> v = vendor) \<and> (device = PCI_ANY \<or> d = device))"

definition device_at :: "(u32 \<Rightarrow> u32) \<Rightarrow> u8 \<times> u8 \<Rightarrow> pci_device" where
  "device_at cfg slot =
     (let r = config16 cfg (fst slot) (snd slot) in
      \<lparr>dev_vendor = r PCI_CONFIG_VENDOR_ID, dev_device = r PCI_CONFIG_DEVICE_ID, dev_subvendor = r PCI_CONFIG_SUBVENDOR_ID,
       dev_subdevice = r PCI_CONFIG_SUBDEVICE_ID, dev_bus = fst slot, dev_slot = snd slot\<rparr>)"

lemma look_loop_finds:
  assumes "config_mechanism P latch cfg"
  shows "\<exists>w'. look_loop P pci_handle vendor device slots w =
    Inr (map_option (device_at (cfg w)) (find (pci_match (cfg w) vendor device) slots), w') \<and> cfg w' = cfg w"
proof (induction slots arbitrary: w)
  case (Cons slot slots)
  obtain i j where slot: "slot = (i, j)" by (cases slot)
  have rd: "\<exists>w'. read_config16 P pci_handle i j off w = Inr (config16 (cfg w) i j off, w') \<and> cfg w' = cfg w" for off w
    using read_config16_value[OF assms] by (simp add: config16_def)
  obtain w1 where w1: "read_config16 P pci_handle i j PCI_CONFIG_VENDOR_ID w = Inr (config16 (cfg w) i j PCI_CONFIG_VENDOR_ID, w1)" "cfg w1 = cfg w"
    using rd by blast
  obtain w2 where w2: "read_config16 P pci_handle i j PCI_CONFIG_DEVICE_ID w1 = Inr (config16 (cfg w) i j PCI_CONFIG_DEVICE_ID, w2)" "cfg w2 = cfg w"
    using rd[of PCI_CONFIG_DEVICE_ID w1] w1(2) by auto
  obtain w3 where w3: "read_config16 P pci_handle i j PCI_CONFIG_SUBVENDOR_ID w2 = Inr (config16 (cfg w) i j PCI_CONFIG_SUBVENDOR_ID, w3)" "cfg w3 = cfg w"
    using rd[of PCI_CONFIG_SUBVENDOR_ID w2] w2(2) by auto
  obtain w4 where w4: "read_config16 P pci_handle i j PCI_CONFIG_SUBDEVICE_ID w3 = Inr (config16 (cfg w) i j PCI_CONFIG_SUBDEVICE_ID, w4)" "cfg w4 = cfg w"
    using rd[of PCI_CONFIG_SUBDEVICE_ID w3] w3(2) by auto
  show ?case
  proof (cases "pci_match (cfg w) vendor device slot")
    case True
    then show ?thesis using w1 w2 w3 w4 slot by (auto simp: pci_match_def device_at_def Let_def)
  next
    case False
    then show ?thesis using w1 w2 slot Cons.IH[of w1] Cons.IH[of w2] by (auto simp: pci_match_def Let_def)
  qed
qed simp

text \<open>
  C36: the search for a device. look_for_device returns the first slot, in the order of
  bus and slot numbers, that holds a device with the vendor and device ids asked for
  (PCI_ANY stands for any id), with the four ids of that device, and ERR_NOT_FOUND only
  if no slot of any bus holds one. It leaves the configuration space alone.
\<close>

theorem look_for_device_finds_first:
  assumes "config_mechanism P latch cfg"
  shows "\<exists>w'. look_for_device P pci_handle vendor device w =
      Inr ((case find (pci_match (cfg w) vendor device) all_slots of
              None \<Rightarrow> (err_code ERR_NOT_FOUND, None)
            | Some slot \<Rightarrow> (err_code OK, Some (device_at (cfg w) slot))), w')
    \<and> cfg w' = cfg w"
  using look_loop_finds[OF assms, of vendor device all_slots w]
  by (auto simp: look_for_device_def split: option.splits)

theorem look_for_device_finds_first_witness:
  "\<exists>w'. look_for_device host_ports pci_handle PCI_ANY PCI_ANY (0, \<lambda>_. 0x10001af4) = Inr ((err_code OK, Some (device_at (\<lambda>_. 0x10001af4) (0, 0))), w')"
proof -
  have u: "[0..<256] = 0 # [Suc 0..<256]" "[0..<32] = 0 # [Suc 0..<32]" by (rule upt_conv_Cons, simp)+
  have z: "(of_nat 0 :: u8) = 0" by simp
  obtain rest where sl: "all_slots = (0, 0) # rest"
    unfolding all_slots_def u list.map concat.simps append.simps z by blast
  have "pci_match (\<lambda>_. 0x10001af4) PCI_ANY PCI_ANY (0, 0)"
    by (simp add: pci_match_def config16_def PCI_CONFIG_VENDOR_ID_def PCI_CONFIG_DEVICE_ID_def Let_def PCI_ANY_def)
  then have "find (pci_match (\<lambda>_. 0x10001af4) PCI_ANY PCI_ANY) all_slots = Some (0, 0)" unfolding sl by simp
  then show ?thesis using look_for_device_finds_first[OF host_mechanism, of PCI_ANY PCI_ANY "(0, \<lambda>_. 0x10001af4)"] by auto
qed

end
