(* ===== verification/Ps2.thy ===== *)
theory Ps2
  imports Libresea
begin

text \<open>
  The PS/2 driver: servers/ps2/keymap.c and servers/ps2/main.c. Scan codes become key
  codes, three bytes of the mouse become an event, and both go to the listeners. The
  ports, the generated stubs and message identifiers are parameters.
\<close>

section \<open>Key codes\<close>

definition KEY_RELEASE :: u8 where "KEY_RELEASE = 0x80"
definition KEY_ENTER :: u8 where "KEY_ENTER = 0x00"
definition KEY_BACKSPACE :: u8 where "KEY_BACKSPACE = 0x01"
definition KEY_CTRL_LEFT :: u8 where "KEY_CTRL_LEFT = 0x02"
definition KEY_ALT_LEFT :: u8 where "KEY_ALT_LEFT = 0x04"
definition KEY_SHIFT_LEFT :: u8 where "KEY_SHIFT_LEFT = 0x06"
definition KEY_SHIFT_RIGHT :: u8 where "KEY_SHIFT_RIGHT = 0x07"
definition KEY_CAPS_LOCK :: u8 where "KEY_CAPS_LOCK = 0x0b"
definition KEY_ESC :: u8 where "KEY_ESC = 0x10"

text \<open>The function key \<open>n\<close>: KEY_F1 is 0x11.\<close>

definition KEY_F :: "nat \<Rightarrow> u8" where "KEY_F n = 0x10 + of_nat n"

definition codes :: "string \<Rightarrow> u8 list" where "codes s = map of_char s"

text \<open>The entries 0x27, 0x60, 0x5c, 0x22 and 0x7e are the quote, back quote, backslash, double quote and tilde.\<close>

definition us_key_map :: "u8 list" where
  "us_key_map =
     [0, KEY_ESC] @ codes ''1234567890-='' @ [KEY_BACKSPACE, 9] @ codes ''qwertyuiop[]'' @ [KEY_ENTER, KEY_CTRL_LEFT] @
     codes ''asdfghjkl;'' @ [0x27, 0x60, KEY_SHIFT_LEFT, 0x5c] @ codes ''zxcvbnm,./'' @ [KEY_SHIFT_RIGHT, 0, KEY_ALT_LEFT] @
     codes '' '' @ [KEY_CAPS_LOCK] @ map KEY_F [1..<11] @ replicate 18 0 @ [KEY_F 11, KEY_F 12] @ replicate 39 0"

definition us_shifted_key_map :: "u8 list" where
  "us_shifted_key_map =
     [0, KEY_ESC] @ codes ''!@#$%^&*()_+'' @ [KEY_BACKSPACE, 9] @ codes ''QWERTYUIOP{}'' @ [KEY_ENTER, KEY_CTRL_LEFT] @
     codes ''ASDFGHJKL:'' @ [0x22, 0x7e, KEY_SHIFT_LEFT, 0x7c] @ codes ''ZXCVBNM<>?'' @ [KEY_SHIFT_RIGHT, 0, KEY_ALT_LEFT] @
     codes '' '' @ [KEY_CAPS_LOCK] @ map KEY_F [1..<11] @ replicate 18 0 @ [KEY_F 11, KEY_F 12] @ replicate 39 0"

definition scan_code2key_code :: "u8 \<Rightarrow> bool \<Rightarrow> u8 res" where
  "scan_code2key_code scan_code shift =
     (let key_map = if shift then us_shifted_key_map else us_key_map;
          released = scan_code \<ge> 0x80 in
      rmap (\<lambda>k. k OR (if released then KEY_RELEASE else 0)) (load key_map (unat (scan_code AND 0x7f))))"

section \<open>State\<close>

definition IOPORT_ADDR :: addr where "IOPORT_ADDR = 0x60"
definition IOPORT_SIZE :: u64 where "IOPORT_SIZE = 5"
definition PS2_OFFSET_DATA :: u64 where "PS2_OFFSET_DATA = 0"
definition PS2_OFFSET_STATUS :: u64 where "PS2_OFFSET_STATUS = 4"
definition KEYBOARD_IRQ :: int where "KEYBOARD_IRQ = 1"
definition MOUSE_IRQ :: int where "MOUSE_IRQ = 12"
definition KBD_STATUS_OUTBUF_FULL :: u8 where "KBD_STATUS_OUTBUF_FULL = push_bit 0 1"
definition KBD_STATUS_AUX_OUTPUT_FULL :: u8 where "KBD_STATUS_AUX_OUTPUT_FULL = push_bit 5 1"
definition MOUSE_BYTE1_LEFT_BUTTON :: u8 where "MOUSE_BYTE1_LEFT_BUTTON = push_bit 0 1"
definition MOUSE_BYTE1_RIGHT_BUTTON :: u8 where "MOUSE_BYTE1_RIGHT_BUTTON = push_bit 1 1"
definition MOUSE_BYTE1_ALWAYS_1 :: u8 where "MOUSE_BYTE1_ALWAYS_1 = push_bit 3 1"
definition MOUSE_BYTE1_X_SIGNED :: u8 where "MOUSE_BYTE1_X_SIGNED = push_bit 4 1"
definition MOUSE_BYTE1_Y_SIGNED :: u8 where "MOUSE_BYTE1_Y_SIGNED = push_bit 5 1"
definition MOUSE_BYTE1_X_OVERFLOW :: u8 where "MOUSE_BYTE1_X_OVERFLOW = push_bit 6 1"
definition MOUSE_BYTE1_Y_OVERFLOW :: u8 where "MOUSE_BYTE1_Y_OVERFLOW = push_bit 7 1"

text \<open>The modifiers; only the shift keys are ever changed or read, except in traces.\<close>

record modifiers_state =
  ctrl_left :: bool
  ctrl_right :: bool
  alt_left :: bool
  alt_right :: bool
  shift_left :: bool
  shift_right :: bool
  super_left :: bool
  super_right :: bool
  fn_key :: bool
  caps_lock :: bool

record 'w ps2 = "'w user" +
  ps2_server_ch :: int
  kbd_irq_ch :: int
  mouse_irq_ch :: int
  keyboard_listener_ch :: int
  mouse_listener_ch :: int
  ps2_io_handle :: io_handle
  modifiers :: modifiers_state
  mouse_byte_pos :: nat
  mouse_data :: "u8 list"

text \<open>
  The generated stubs for the listeners, whose results the driver ignores: they change
  the message buffer of the thread and the rest of the system. Then the identifiers of the
  messages.
\<close>

record 'w ps2_stubs =
  call_keyboard_driver_keyinput_event :: "int \<Rightarrow> u8 \<Rightarrow> message \<times> 'w \<Rightarrow> message \<times> 'w"
  send_mouse_driver_mouse_event :: "int \<Rightarrow> bool \<Rightarrow> bool \<Rightarrow> int \<Rightarrow> int \<Rightarrow> message \<times> 'w \<Rightarrow> message \<times> 'w"

record ps2_idl =
  PS2_SERVER_CONNECT_MSG :: u32
  KEYBOARD_DRIVER_LISTEN_MSG :: u32
  MOUSE_DRIVER_LISTEN_MSG :: u32
  PS2_SERVER_CONNECT_REPLY_MSG :: u32
  KEYBOARD_DRIVER_LISTEN_REPLY_MSG :: u32
  MOUSE_DRIVER_LISTEN_REPLY_MSG :: u32

section \<open>Input\<close>

definition ps2_read :: "'w ioports \<Rightarrow> u64 \<Rightarrow> 'w ps2 \<Rightarrow> (u8 \<times> 'w ps2) res" where
  "ps2_read P offset s = rmap (\<lambda>(v, w). (v, s\<lparr>world := w\<rparr>)) (io_read8 P (ps2_io_handle s) offset (world s))"

definition ps2_write :: "'w ioports \<Rightarrow> u64 \<Rightarrow> u8 \<Rightarrow> 'w ps2 \<Rightarrow> 'w ps2 res" where
  "ps2_write P offset v s = rmap (\<lambda>w. s\<lparr>world := w\<rparr>) (io_write8 P (ps2_io_handle s) offset v (world s))"

definition run_stub :: "(message \<times> 'w \<Rightarrow> message \<times> 'w) \<Rightarrow> 'w ps2 \<Rightarrow> 'w ps2" where
  "run_stub f s = (let (b, w) = f (ipc_buffer s, world s) in s\<lparr>ipc_buffer := b, world := w\<rparr>)"

definition read_keyboard_input :: "'w ps2_stubs \<Rightarrow> 'w ioports \<Rightarrow> 'w ps2 \<Rightarrow> 'w ps2 res" where
  "read_keyboard_input S P s =
     rbind (ps2_read P PS2_OFFSET_DATA s) (\<lambda>(scan_code, s).
     let shift = shift_left (modifiers s) \<or> shift_right (modifiers s) in
     rbind (scan_code2key_code scan_code shift) (\<lambda>key_code.
     let k = key_code AND NOT KEY_RELEASE;
         s = (if k = KEY_SHIFT_LEFT then s\<lparr>modifiers := (modifiers s)\<lparr>shift_left := key_code AND KEY_RELEASE = 0\<rparr>\<rparr>
              else if k = KEY_SHIFT_RIGHT then s\<lparr>modifiers := (modifiers s)\<lparr>shift_right := key_code AND KEY_RELEASE = 0\<rparr>\<rparr>
              else s) in
     Inr (if keyboard_listener_ch s \<noteq> 0
          then run_stub (call_keyboard_driver_keyinput_event S (keyboard_listener_ch s) key_code) s else s)))"

definition read_status_reg :: "'w ioports \<Rightarrow> 'w ps2 \<Rightarrow> (u8 \<times> 'w ps2) res" where
  "read_status_reg P s = ps2_read P PS2_OFFSET_STATUS s"

definition read_data_reg :: "'w ioports \<Rightarrow> 'w ps2 \<Rightarrow> (u8 \<times> 'w ps2) res" where
  "read_data_reg P s = ps2_read P PS2_OFFSET_DATA s"

text \<open>The last branch is the code's UNREACHABLE, undefined behaviour.\<close>

definition read_mouse_input :: "'w ps2_stubs \<Rightarrow> 'w ioports \<Rightarrow> 'w ps2 \<Rightarrow> 'w ps2 res" where
  "read_mouse_input S P s =
     (if mouse_byte_pos s = 0 then
        rbind (read_data_reg P s) (\<lambda>(d, s).
        rbind (store (mouse_data s) 0 d) (\<lambda>data.
        let s = s\<lparr>mouse_data := data\<rparr> in
        if d AND MOUSE_BYTE1_X_OVERFLOW \<noteq> 0 \<or> d AND MOUSE_BYTE1_Y_OVERFLOW \<noteq> 0 \<or> d AND MOUSE_BYTE1_ALWAYS_1 = 0
        then Inr s
        else Inr (s\<lparr>mouse_byte_pos := 1\<rparr>)))
      else if mouse_byte_pos s = 1 then
        rbind (read_data_reg P s) (\<lambda>(d, s).
        rbind (store (mouse_data s) 1 d) (\<lambda>data. Inr (s\<lparr>mouse_data := data, mouse_byte_pos := 2\<rparr>)))
      else if mouse_byte_pos s = 2 then
        rbind (read_data_reg P s) (\<lambda>(d, s).
        rbind (store (mouse_data s) 2 d) (\<lambda>data.
        let s = s\<lparr>mouse_data := data\<rparr>;
            left_pressed = (data ! 0 AND MOUSE_BYTE1_LEFT_BUTTON \<noteq> 0);
            right_pressed = (data ! 0 AND MOUSE_BYTE1_RIGHT_BUTTON \<noteq> 0);
            x = (if data ! 0 AND MOUSE_BYTE1_X_SIGNED \<noteq> 0 then sint (data ! 1) else uint (data ! 1));
            y = (if data ! 0 AND MOUSE_BYTE1_Y_SIGNED \<noteq> 0 then sint (data ! 2) else uint (data ! 2));
            s = (if mouse_listener_ch s \<noteq> 0
                 then run_stub (send_mouse_driver_mouse_event S (mouse_listener_ch s) left_pressed right_pressed x y) s
                 else s) in
        Inr (s\<lparr>mouse_byte_pos := 0\<rparr>)))
      else Inl Fault)"

section \<open>The device\<close>

text \<open>The waiting loops poll the controller; the fuel bounds the number of polls.\<close>

fun wait_kbd :: "nat \<Rightarrow> 'w ioports \<Rightarrow> 'w ps2 \<Rightarrow> 'w ps2 res" where
  "wait_kbd 0 P s = Inl NoFuel"
| "wait_kbd (Suc n) P s = rbind (read_status_reg P s) (\<lambda>(v, s). if v AND 0x02 \<noteq> 0 then wait_kbd n P s else Inr s)"

fun wait_kbd_ack :: "nat \<Rightarrow> 'w ioports \<Rightarrow> 'w ps2 \<Rightarrow> 'w ps2 res" where
  "wait_kbd_ack 0 P s = Inl NoFuel"
| "wait_kbd_ack (Suc n) P s = rbind (read_data_reg P s) (\<lambda>(v, s). if v \<noteq> 0xfa then wait_kbd_ack n P s else Inr s)"

fun flush_output :: "nat \<Rightarrow> 'w ioports \<Rightarrow> 'w ps2 \<Rightarrow> 'w ps2 res" where
  "flush_output 0 P s = Inl NoFuel"
| "flush_output (Suc n) P s =
     rbind (read_status_reg P s) (\<lambda>(v, s).
     if v AND KBD_STATUS_OUTBUF_FULL \<noteq> 0 then rbind (read_data_reg P s) (\<lambda>(_, s). flush_output n P s) else Inr s)"

text \<open>Waiting, then writing a command or data byte.\<close>

definition ps2_command :: "nat \<Rightarrow> 'w ioports \<Rightarrow> u64 \<Rightarrow> u8 \<Rightarrow> 'w ps2 \<Rightarrow> 'w ps2 res" where
  "ps2_command n P offset v s = rbind (wait_kbd n P s) (ps2_write P offset v)"

definition init_device ::
  "nat \<Rightarrow> (int \<Rightarrow> 'w \<Rightarrow> int \<times> 'w) \<Rightarrow> 'w ioports \<Rightarrow> 'w ps2 \<Rightarrow> (int \<times> 'w ps2) res" where
  "init_device n call_io_allow_iomapped_io P s =
     rbind (io_open call_io_allow_iomapped_io 2 IO_SPACE_IOPORT IOPORT_ADDR IOPORT_SIZE (world s)) (\<lambda>((err, h), w).
     let s = s\<lparr>world := w\<rparr> in
     case h of
       None \<Rightarrow> Inr (err, s)
     | Some h \<Rightarrow>
         let s = s\<lparr>ps2_io_handle := h\<rparr> in
         rbind (ps2_command n P PS2_OFFSET_STATUS 0xa8 s) (\<lambda>s.
         rbind (flush_output n P s) (\<lambda>s.
         rbind (ps2_command n P PS2_OFFSET_STATUS 0x20 s) (\<lambda>s.
         rbind (wait_kbd n P s) (\<lambda>s.
         rbind (read_data_reg P s) (\<lambda>(compaq_status, s).
         rbind (ps2_command n P PS2_OFFSET_STATUS 0x60 s) (\<lambda>s.
         rbind (ps2_command n P PS2_OFFSET_DATA (compaq_status OR 2) s) (\<lambda>s.
         rbind (ps2_command n P PS2_OFFSET_STATUS 0xd4 s) (\<lambda>s.
         rbind (ps2_command n P PS2_OFFSET_DATA 0xf6 s) (\<lambda>s.
         rbind (wait_kbd_ack n P s) (\<lambda>s.
         rbind (ps2_command n P PS2_OFFSET_STATUS 0xd4 s) (\<lambda>s.
         rbind (ps2_command n P PS2_OFFSET_DATA 0xf4 s) (\<lambda>s.
         rbind (wait_kbd_ack n P s) (\<lambda>s. Inr (err_code OK, s)))))))))))))))"

section \<open>Handlers\<close>

fun input_loop :: "nat \<Rightarrow> 'w ps2_stubs \<Rightarrow> 'w ioports \<Rightarrow> 'w ps2 \<Rightarrow> 'w ps2 res" where
  "input_loop 0 S P s = Inl NoFuel"
| "input_loop (Suc n) S P s =
     rbind (read_status_reg P s) (\<lambda>(v, s).
     if v AND KBD_STATUS_OUTBUF_FULL \<noteq> 0 then
       rbind (read_status_reg P s) (\<lambda>(v, s).
       rbind (if v AND KBD_STATUS_AUX_OUTPUT_FULL \<noteq> 0 then read_mouse_input S P s else read_keyboard_input S P s)
         (input_loop n S P))
     else Inr s)"

definition handle_notification :: "nat \<Rightarrow> 'w ps2_stubs \<Rightarrow> 'w ioports \<Rightarrow> u32 \<Rightarrow> 'w ps2 \<Rightarrow> (int \<times> 'w ps2) res" where
  "handle_notification n S P nt s =
     rmap (Pair (err_code DONT_REPLY)) (if nt AND NOTIFY_INTERRUPT \<noteq> 0 then input_loop n S P s else Inr s)"

definition ps2_handle_server_connect :: "ps2_idl \<Rightarrow> 'w os \<Rightarrow> message \<Rightarrow> 'w ps2 \<Rightarrow> (int \<times> message \<times> 'w ps2) res" where
  "ps2_handle_server_connect I S m s =
     (case ch_open S s of
        ((err, None), s) \<Rightarrow> Inr (err, m, s)
      | ((_, Some new_ch), s) \<Rightarrow>
          let (_, s) = ch_transfer S new_ch (ps2_server_ch s) s in
          Inr (err_code OK, m\<lparr>header := PS2_SERVER_CONNECT_REPLY_MSG I, payload_channel := new_ch\<rparr>, s))"

definition handle_keyboard_listen :: "ps2_idl \<Rightarrow> message \<Rightarrow> 'w ps2 \<Rightarrow> (int \<times> message \<times> 'w ps2) res" where
  "handle_keyboard_listen I m s =
     Inr (err_code OK, m\<lparr>header := KEYBOARD_DRIVER_LISTEN_REPLY_MSG I\<rparr>, s\<lparr>keyboard_listener_ch := payload_channel m\<rparr>)"

definition handle_mouse_listen :: "ps2_idl \<Rightarrow> message \<Rightarrow> 'w ps2 \<Rightarrow> (int \<times> message \<times> 'w ps2) res" where
  "handle_mouse_listen I m s =
     Inr (err_code OK, m\<lparr>header := MOUSE_DRIVER_LISTEN_REPLY_MSG I\<rparr>, s\<lparr>mouse_listener_ch := payload_channel m\<rparr>)"

definition ps2_process_message ::
  "nat \<Rightarrow> ps2_idl \<Rightarrow> 'w os \<Rightarrow> 'w ps2_stubs \<Rightarrow> 'w ioports \<Rightarrow> message \<Rightarrow> 'w ps2 \<Rightarrow> (int \<times> message \<times> 'w ps2) res" where
  "ps2_process_message n I S T P m s =
     rbind (if notification m \<noteq> 0 then rmap snd (handle_notification n T P (notification m) s) else Inr s) (\<lambda>s.
     if header m = PS2_SERVER_CONNECT_MSG I then ps2_handle_server_connect I S m s
     else if header m = KEYBOARD_DRIVER_LISTEN_MSG I then handle_keyboard_listen I m s
     else if header m = MOUSE_DRIVER_LISTEN_MSG I then handle_mouse_listen I m s
     else if header m = NOTIFICATION_MSG then Inr (err_code DONT_REPLY, m, s)
     else Inr (err_code ERR_UNEXPECTED_MESSAGE, m, s))"

text \<open>The start of the driver up to its main loop; 30 and 31 are its two interfaces.\<close>

definition ps2_start ::
  "nat \<Rightarrow> 'w os \<Rightarrow> (int \<Rightarrow> 'w \<Rightarrow> int \<times> 'w) \<Rightarrow> (int \<Rightarrow> int \<Rightarrow> u8 \<Rightarrow> 'w ps2 \<Rightarrow> int \<times> 'w ps2) \<Rightarrow>
   (int \<Rightarrow> u8 \<Rightarrow> int \<Rightarrow> 'w ps2 \<Rightarrow> int \<times> 'w ps2) \<Rightarrow> 'w ioports \<Rightarrow> 'w ps2 \<Rightarrow> 'w ps2 res" where
  "ps2_start n S call_io_allow_iomapped_io call_io_listen_irq call_discovery_publicize P s =
     rbind (init_device n call_io_allow_iomapped_io P s) (\<lambda>(err, s).
     rbind (require Panic (err = err_code OK)) (\<lambda>_.
     case ch_open S s of
       ((_, None), _) \<Rightarrow> Inl Panic
     | ((_, Some ch), s) \<Rightarrow>
         let s = s\<lparr>ps2_server_ch := ch\<rparr> in
         case io_listen_interrupt S call_io_listen_irq 2 ch KEYBOARD_IRQ s of
           ((_, None), _) \<Rightarrow> Inl Panic
         | ((_, Some kbd), s) \<Rightarrow>
             (case io_listen_interrupt S call_io_listen_irq 2 ch MOUSE_IRQ (s\<lparr>kbd_irq_ch := kbd\<rparr>) of
                ((_, None), _) \<Rightarrow> Inl Panic
              | ((_, Some mouse), s) \<Rightarrow>
                  let (err1, s) = server_register S call_discovery_publicize 1 ch 30 (s\<lparr>mouse_irq_ch := mouse\<rparr>) in
                  rbind (require Panic (err1 = err_code OK)) (\<lambda>_.
                  let (err2, s) = server_register S call_discovery_publicize 1 ch 31 s in
                  rbind (require Panic (err2 = err_code OK)) (\<lambda>_. Inr s)))))"

section \<open>Properties\<close>

lemma key_maps_length: "length us_key_map = 128" "length us_shifted_key_map = 128"
  by (simp_all add: us_key_map_def us_shifted_key_map_def codes_def)

lemma scan_index: "unat (scan AND (0x7f :: u8)) < 128"
proof -
  have m: "(0x7f :: u8) = mask 7" by (simp add: mask_eq_exp_minus_1)
  have "unat (take_bit 7 scan) = take_bit 7 (unat scan)" by (rule unsigned_take_bit_eq)
  then show ?thesis unfolding m take_bit_eq_mask[symmetric] using take_bit_nat_less_exp[of 7 "unat scan"] by simp
qed

text \<open>Every scan code has a key code.\<close>

lemma scan_codes_translate:
  "scan_code2key_code scan shift =
     Inr ((if shift then us_shifted_key_map else us_key_map) ! unat (scan AND 0x7f) OR (if scan \<ge> 0x80 then KEY_RELEASE else 0))"
  using scan_index[of scan] by (simp add: scan_code2key_code_def key_maps_length Let_def)

section \<open>Mouse packets\<close>

text \<open>The bytes a mouse sends for an event, and the bytes that cannot begin one.\<close>

definition mouse_packet :: "bool \<Rightarrow> bool \<Rightarrow> int \<Rightarrow> int \<Rightarrow> u8 list" where
  "mouse_packet l r x y =
     [(if l then 1 else 0) OR (if r then 2 else 0) OR 8 OR (if x < 0 then 0x10 else 0) OR (if y < 0 then 0x20 else 0),
      word_of_int x, word_of_int y]"

definition mouse_noise :: "u8 \<Rightarrow> bool" where
  "mouse_noise b \<longleftrightarrow> b AND 0x40 \<noteq> 0 \<or> b AND 0x80 \<noteq> 0 \<or> b AND 8 = 0"

text \<open>The data port gives the bytes one after the other.\<close>

fun supplies :: "'w ioports \<Rightarrow> u8 list \<Rightarrow> 'w \<Rightarrow> 'w \<Rightarrow> bool" where
  "supplies P [] w w' = (w = w')"
| "supplies P (b # bs) w w' = (fst (in8 P 0x60 w) = b \<and> supplies P bs (snd (in8 P 0x60 w)) w')"

lemma supplies_Cons: "supplies P (b # bs) w w' \<Longrightarrow> \<exists>v. in8 P 0x60 w = (b, v) \<and> supplies P bs v w'"
  by (cases "in8 P 0x60 w") simp

fun mouse_inputs :: "nat \<Rightarrow> 'w ps2_stubs \<Rightarrow> 'w ioports \<Rightarrow> 'w ps2 \<Rightarrow> 'w ps2 res" where
  "mouse_inputs 0 S P s = Inr s"
| "mouse_inputs (Suc n) S P s = rbind (read_mouse_input S P s) (mouse_inputs n S P)"

definition at_ps2_ports :: "'w ps2 \<Rightarrow> bool" where
  "at_ps2_ports s \<longleftrightarrow> io_type (ps2_io_handle s) = IO_SPACE_IOPORT \<and> io_addr (ps2_io_handle s) = IOPORT_ADDR \<and>
     length (mouse_data s) = 3"

lemmas mouse_flags =
  MOUSE_BYTE1_LEFT_BUTTON_def MOUSE_BYTE1_RIGHT_BUTTON_def MOUSE_BYTE1_ALWAYS_1_def MOUSE_BYTE1_X_SIGNED_def
  MOUSE_BYTE1_Y_SIGNED_def MOUSE_BYTE1_X_OVERFLOW_def MOUSE_BYTE1_Y_OVERFLOW_def

lemma read_data: 
  "at_ps2_ports s \<Longrightarrow> in8 P 0x60 (world s) = (b, w) \<Longrightarrow> read_data_reg P s = Inr (b, s\<lparr>world := w\<rparr>)"
  by (simp add: read_data_reg_def ps2_read_def io_read8_def io_port_def require_def at_ps2_ports_def
      IOPORT_ADDR_def PS2_OFFSET_DATA_def)

lemma signed_byte: "- 128 \<le> x \<Longrightarrow> x < 0 \<Longrightarrow> sint (word_of_int x :: u8) = x"
  by (simp add: signed_of_int signed_take_bit_int_eq_self)

lemma unsigned_byte: "0 \<le> x \<Longrightarrow> x \<le> 255 \<Longrightarrow> uint (word_of_int x :: u8) = x"
  by (simp add: unsigned_of_int take_bit_int_eq_self)

lemma noise_step:
  assumes "at_ps2_ports s" "mouse_byte_pos s = 0" "mouse_noise b" "in8 P 0x60 (world s) = (b, w)"
  shows "read_mouse_input S P s = Inr (s\<lparr>world := w, mouse_data := (mouse_data s)[0 := b]\<rparr>)"
  using assms read_data[OF assms(1,4)]
  by (simp add: read_mouse_input_def mouse_noise_def mouse_flags at_ps2_ports_def Let_def)

lemma first_byte:
  assumes "at_ps2_ports s" "mouse_byte_pos s = 0" "\<not> mouse_noise b" "in8 P 0x60 (world s) = (b, w)"
  shows "read_mouse_input S P s = Inr (s\<lparr>world := w, mouse_data := (mouse_data s)[0 := b], mouse_byte_pos := 1\<rparr>)"
  using assms read_data[OF assms(1,4)]
  by (simp add: read_mouse_input_def mouse_noise_def mouse_flags at_ps2_ports_def Let_def)

lemma second_byte:
  assumes "at_ps2_ports s" "mouse_byte_pos s = 1" "in8 P 0x60 (world s) = (b, w)"
  shows "read_mouse_input S P s = Inr (s\<lparr>world := w, mouse_data := (mouse_data s)[1 := b], mouse_byte_pos := 2\<rparr>)"
  using assms read_data[OF assms(1,3)] by (simp add: read_mouse_input_def at_ps2_ports_def Let_def)

text \<open>The event that three bytes stand for.\<close>

definition mouse_event_of :: "'w ps2_stubs \<Rightarrow> int \<Rightarrow> u8 \<Rightarrow> u8 \<Rightarrow> u8 \<Rightarrow> message \<times> 'w \<Rightarrow> message \<times> 'w" where
  "mouse_event_of S ch a b c =
     send_mouse_driver_mouse_event S ch (a AND 1 \<noteq> 0) (a AND 2 \<noteq> 0)
       (if a AND 0x10 \<noteq> 0 then sint b else uint b) (if a AND 0x20 \<noteq> 0 then sint c else uint c)"

lemma third_byte:
  assumes "at_ps2_ports s" "mouse_byte_pos s = 2" "in8 P 0x60 (world s) = (c, w)" "mouse_data s = [a, b, d]"
  shows "read_mouse_input S P s =
    Inr (let s' = s\<lparr>world := w, mouse_data := [a, b, c]\<rparr> in
         (if mouse_listener_ch s = 0 then s' else run_stub (mouse_event_of S (mouse_listener_ch s) a b c) s')\<lparr>mouse_byte_pos := 0\<rparr>)"
  using assms read_data[OF assms(1,3)]
  by (simp add: read_mouse_input_def mouse_flags mouse_event_of_def Let_def cong: if_cong)

lemma packet_event:
  assumes "- 128 \<le> x" "x \<le> 255" "- 128 \<le> y" "y \<le> 255" "mouse_packet l r x y = [a, b, c]"
  shows "mouse_event_of S ch a b c = send_mouse_driver_mouse_event S ch l r x y" "\<not> mouse_noise a"
proof -
  have e: "b = word_of_int x" "c = word_of_int y"
    and a: "a = (if l then 1 else 0) OR (if r then 2 else 0) OR 8 OR (if x < 0 then 0x10 else 0) OR (if y < 0 then 0x20 else 0)"
    using assms(5) by (auto simp: mouse_packet_def)
  have bits: "(a AND 1 \<noteq> 0) = l" "(a AND 2 \<noteq> 0) = r" "(a AND 0x10 \<noteq> 0) = (x < 0)" "(a AND 0x20 \<noteq> 0) = (y < 0)"
    unfolding a by (cases l; cases r; cases "x < 0"; cases "y < 0"; simp)+
  have v: "(if x < 0 then sint b else uint b) = x" "(if y < 0 then sint c else uint c) = y"
    unfolding e using assms(1-4) signed_byte[of x] signed_byte[of y] unsigned_byte[of x] unsigned_byte[of y] by auto
  show "mouse_event_of S ch a b c = send_mouse_driver_mouse_event S ch l r x y"
    unfolding mouse_event_of_def bits v by (rule refl)
  show "\<not> mouse_noise a"
    unfolding a mouse_noise_def by (cases l; cases r; cases "x < 0"; cases "y < 0"; simp)
qed

lemma packet_decodes:
  assumes p: "at_ps2_ports s" and "mouse_byte_pos s = 0" "- 128 \<le> x" "x \<le> 255" "- 128 \<le> y" "y \<le> 255"
    and sup: "supplies P (mouse_packet l r x y) (world s) w"
  shows "mouse_inputs 3 S P s =
    Inr (let s' = s\<lparr>world := w, mouse_data := mouse_packet l r x y\<rparr> in
         if mouse_listener_ch s = 0 then s' else run_stub (send_mouse_driver_mouse_event S (mouse_listener_ch s) l r x y) s')"
proof -
  obtain a b c where abc: "mouse_packet l r x y = [a, b, c]" by (simp add: mouse_packet_def)
  obtain d0 d1 d2 where d: "mouse_data s = [d0, d1, d2]"
    using p by (auto simp: at_ps2_ports_def length_Suc_conv numeral_3_eq_3)
  obtain w1 w2 where i: "in8 P 0x60 (world s) = (a, w1)" "in8 P 0x60 w1 = (b, w2)" "in8 P 0x60 w2 = (c, w)"
    using sup unfolding abc by (auto dest!: supplies_Cons simp del: supplies.simps(2))
  note pe = packet_event[OF assms(3-6) abc]
  let ?s1 = "s\<lparr>world := w1, mouse_data := [a, d1, d2], mouse_byte_pos := 1\<rparr>"
  let ?s2 = "s\<lparr>world := w2, mouse_data := [a, b, d2], mouse_byte_pos := 2\<rparr>"
  have 1: "read_mouse_input S P s = Inr ?s1" using first_byte[OF p assms(2) pe(2) i(1), of S] d by simp
  have 2: "read_mouse_input S P ?s1 = Inr ?s2" using second_byte[of ?s1 P b w2 S] p i(2) by (simp add: at_ps2_ports_def)
  have 3: "read_mouse_input S P ?s2 =
    Inr (let s' = s\<lparr>world := w, mouse_data := [a, b, c]\<rparr> in
         if mouse_listener_ch s = 0 then s' else run_stub (send_mouse_driver_mouse_event S (mouse_listener_ch s) l r x y) s')"
    using third_byte[of ?s2 P c w a b d2 S] p i(3) assms(2)
    by (simp add: at_ps2_ports_def pe(1) Let_def run_stub_def split: prod.splits)
  show ?thesis using 1 2 3 by (simp add: numeral_3_eq_3 abc)
qed

lemma mouse_inputs_add: "mouse_inputs (m + n) S P s = rbind (mouse_inputs m S P s) (mouse_inputs n S P)"
proof (induction m arbitrary: s)
  case (Suc m)
  then show ?case by (cases "read_mouse_input S P s") simp_all
qed simp

lemma supplies_append: "supplies P (xs @ ys) w w' \<longleftrightarrow> (\<exists>v. supplies P xs w v \<and> supplies P ys v w')"
  by (induction xs arbitrary: w) simp_all

lemma noise_skipped:
  assumes "at_ps2_ports s" "mouse_byte_pos s = 0" "list_all mouse_noise noise" "supplies P noise (world s) w"
  shows "\<exists>data. length data = 3 \<and> mouse_inputs (length noise) S P s = Inr (s\<lparr>world := w, mouse_data := data\<rparr>)"
  using assms
proof (induction noise arbitrary: s)
  case Nil
  then show ?case by (intro exI[of _ "mouse_data s"]) (simp add: at_ps2_ports_def)
next
  case (Cons b noise)
  obtain v where v: "in8 P 0x60 (world s) = (b, v)" "supplies P noise v w" using supplies_Cons[OF Cons.prems(4)] by blast
  let ?s = "s\<lparr>world := v, mouse_data := (mouse_data s)[0 := b]\<rparr>"
  have "\<exists>data. length data = 3 \<and> mouse_inputs (length noise) S P ?s = Inr (?s\<lparr>world := w, mouse_data := data\<rparr>)"
    using Cons.prems v by (intro Cons.IH) (simp_all add: at_ps2_ports_def)
  then show ?case using noise_step[OF Cons.prems(1,2) _ v(1), of S] Cons.prems(3) by simp
qed

text \<open>
  C35: the driver reports what the mouse sent. From the state between two packets, and
  after any bytes that cannot begin a packet, the three bytes of a movement by x and y in
  the range from -128 to 255 make the driver send exactly one event to the listener, with
  the buttons and the movement that were encoded, and it is between two packets again.
\<close>

theorem mouse_packet_reported:
  assumes "at_ps2_ports s" "mouse_byte_pos s = 0" "mouse_listener_ch s \<noteq> 0" "list_all mouse_noise noise"
    "- 128 \<le> x" "x \<le> 255" "- 128 \<le> y" "y \<le> 255"
    "supplies P (noise @ mouse_packet l r x y) (world s) w"
  shows "mouse_inputs (length noise + 3) S P s =
    Inr (run_stub (send_mouse_driver_mouse_event S (mouse_listener_ch s) l r x y)
           (s\<lparr>world := w, mouse_data := mouse_packet l r x y\<rparr>))"
proof -
  obtain v where v: "supplies P noise (world s) v" "supplies P (mouse_packet l r x y) v w"
    using assms(9) by (auto simp: supplies_append)
  obtain data where d: "length data = 3" "mouse_inputs (length noise) S P s = Inr (s\<lparr>world := v, mouse_data := data\<rparr>)"
    using noise_skipped[OF assms(1,2,4) v(1), of S] by blast
  let ?s = "s\<lparr>world := v, mouse_data := data\<rparr>"
  have "at_ps2_ports ?s" using assms(1) d(1) by (simp add: at_ps2_ports_def)
  then show ?thesis
    using packet_decodes[of ?s x y P l r w S] assms(2,3,5-8) v(2) d(2) by (simp add: mouse_inputs_add Let_def)
qed

text \<open>A device that gives the bytes of a list, and stubs that log the mouse events.\<close>

definition list_ports :: "(u8 list \<times> (int \<times> bool \<times> bool \<times> int \<times> int) list) ioports" where
  "list_ports = \<lparr>in8 = \<lambda>_ (bs, es). (hd bs, (tl bs, es)), in16 = \<lambda>_ w. (0, w), in32 = \<lambda>_ w. (0, w),
     out8 = \<lambda>_ _ w. w, out16 = \<lambda>_ _ w. w, out32 = \<lambda>_ _ w. w\<rparr>"

definition log_stubs :: "(u8 list \<times> (int \<times> bool \<times> bool \<times> int \<times> int) list) ps2_stubs" where
  "log_stubs = \<lparr>call_keyboard_driver_keyinput_event = \<lambda>_ _ w. w,
     send_mouse_driver_mouse_event = \<lambda>ch l r x y (b, (bs, es)). (b, (bs, es @ [(ch, l, r, x, y)]))\<rparr>"

definition sample_ps2 :: "(u8 list \<times> (int \<times> bool \<times> bool \<times> int \<times> int) list) ps2" where
  "sample_ps2 = \<lparr>ipc_buffer = empty_message 480, tib_page_base = 0, world = ([0x40, 0x29, 0x7b, 0xfe], []),
     ps2_server_ch = 3, kbd_irq_ch = 4, mouse_irq_ch = 5, keyboard_listener_ch = 0, mouse_listener_ch = 7,
     ps2_io_handle = \<lparr>io_type = IO_SPACE_IOPORT, io_addr = IOPORT_ADDR, io_size = IOPORT_SIZE\<rparr>,
     modifiers = \<lparr>ctrl_left = False, ctrl_right = False, alt_left = False, alt_right = False, shift_left = False,
       shift_right = False, super_left = False, super_right = False, fn_key = False, caps_lock = False\<rparr>,
     mouse_byte_pos = 0, mouse_data = [0, 0, 0]\<rparr>"

theorem mouse_packet_reported_witness:
  "rmap (\<lambda>s. snd (world s)) (mouse_inputs 4 log_stubs list_ports sample_ps2) = Inr [(7, True, False, 123, - 2)]"
proof -
  have "mouse_inputs (length [0x40 :: u8] + 3) log_stubs list_ports sample_ps2 =
    Inr (run_stub (send_mouse_driver_mouse_event log_stubs (mouse_listener_ch sample_ps2) True False 123 (- 2))
           (sample_ps2\<lparr>world := ([], []), mouse_data := mouse_packet True False 123 (- 2)\<rparr>))"
    by (rule mouse_packet_reported)
      (simp_all add: at_ps2_ports_def sample_ps2_def mouse_noise_def mouse_packet_def list_ports_def)
  then show ?thesis by (simp add: run_stub_def log_stubs_def sample_ps2_def)
qed

end
