(* ===== verification/Spec2Isabelle.thy ===== *)
theory Spec2Isabelle
  imports KernelProps ListHead Machine Strings Hash Malloc Printf Fpu Screen Memmgr Pci Ps2
begin

text \<open>
  A verification of Resea, the microkernel operating system in
  src/resea-old-c-userland: its kernel, its user library, its memory manager and two of
  its drivers. File names below are relative to that directory.

  \<^bold>\<open>The program.\<close> The kernel (kernel/) has processes, threads, channels and timers, and
  passes messages: a thread sends into a channel, the message goes to the channel that it
  is linked with, and from there to the channel that this one transfers to, where a
  receiver waits. The kernel server (kernel/server.c) is a kernel thread that serves
  messages for process and thread management. User programs use libs/libresea. The first
  of them, servers/memmgr, launches the other servers from the initial file system, fills
  their pages on page faults, hands out memory and connects clients with servers. The
  drivers servers/pci and servers/ps2 are servers that access I/O ports.

  \<^bold>\<open>Conventions.\<close> C code that can stop abnormally returns \<open>'a res\<close>, that is \<open>kfail + 'a\<close>
  (theory Prelude): \<open>Panic\<close>, \<open>Assertion\<close>, \<open>Bug\<close> and \<open>Unimplemented\<close> are the macros of the
  code, \<open>Fault\<close> is an access through a bad pointer or index or other undefined behaviour,
  and \<open>NoFuel\<close> marks a bounded loop that was cut off. Machine integers are words where
  they can wrap around. A global or static variable is a field of the state record of its
  component. The code is the release build: assertions of debug builds, traces and
  sanitizers are left out, and so are the messages that the programs log.

  \<^bold>\<open>The kernel.\<close>
  \<^item> ListHead: the intrusive lists of libs/libcommon/include/list.h on a store of nodes. The
    locales \<open>node_queue\<close> and \<open>node_list\<close> are the contract of a queue, interpreted on the list
    operations; \<open>list_ops_refine\<close> is the refinement that lets the other theories use HOL
    lists for queues.
  \<^item> Arena: the pools of kernel/memory.c (locale \<open>object_pool\<close>). Table: the id tables of
    kernel/include/table.h (locale \<open>id_allocator\<close>). Message: headers and payloads of
    libs/libcommon/include/message.h. Paging: kernel/arch/x64/paging.c on a store of words.
  \<^item> Kernel: the control blocks as records in typed heaps, and the kernel state. Threads:
    kernel/thread.c. Channels: kernel/channel.c. IPC: kernel/ipc.c with the page fault
    handler of kernel/memory.c. Process: kernel/process.c. Timer: kernel/timer.c. Server:
    kernel/server.c. Machine: kernel/boot.c, kernel/arch/x64/interrupt.c and the step
    relation \<open>mstep\<close> of the whole kernel.
  \<^item> A thread that is switched away in the middle of a C function has a frame, which says
    what is left to do; a system call ends with \<open>Return\<close> or with \<open>Switched\<close>.
  \<^item> IPCSafety and Spec2Isabelle show that every system call keeps the invariant of the
    scheduler and of waiting threads. Fastpath shows what a send delivers, that the test of
    the fast path is exact and that the fast path does what the general path does.
    KernelProps has the scheduler, the end of channel destruction and the error paths of
    IPC. Scenario is the concrete state of the witnesses.
  \<^item> Fpu: the lazy FPU switch of kernel/arch/x64/thread.c, transparent for threads that are
    not destroyed. Screen: kernel/arch/x64/screen.c, a refinement of a log of rows.

  \<^bold>\<open>The user library.\<close> CString and Strings (string.c, math.c), Vector (vector.c, locale
  \<open>sequence\<close>), Hash (hash.c, a refinement of finite maps below the first rehash), Malloc
  (malloc.c, disjointness of blocks), Printf (printf.c and kernel/printk.c, termination
  and the reading back of numbers), and Libresea (syscall.c, libs/libserver/server.c,
  libs/libdriver/io.c), which connects the result of a handler with what the client sees.

  \<^bold>\<open>The servers.\<close> Buddy: servers/memmgr/alloc_pages.c, page blocks that never overlap.
  Initfs: tools/mkinitfs.py, servers/memmgr/initfs.c and libs/libelf/elf.c, the round trip
  of an image. Memmgr: the other files of servers/memmgr, on top of Buddy and Initfs: the
  types of its tables, the requests of the discovery service, and that page faults and
  reads give the bytes of the image. Pci: servers/pci, the search for a device and byte
  writes. Ps2: servers/ps2, the decoding of mouse packets.

  \<^bold>\<open>Parameters.\<close> The message numbers, accessors and stubs that tools/genstub.py generates
  are records of functions (\<open>idl\<close>, \<open>server_idl\<close>, \<open>memmgr_stubs\<close>, \<open>pci_idl\<close>, \<open>ps2_stubs\<close>
  and others). The kernel seen from a program is the record \<open>os\<close>, the devices are \<open>ioports\<close>;
  what the drivers rely on is a named hypothesis (\<open>config_mechanism\<close>, \<open>supplies\<close>). Memory
  from malloc has arbitrary contents, given by an argument.

  \<^bold>\<open>Fuel.\<close> The retry loop of the page allocator has fuel 2, since a successful split makes
  the second attempt succeed. The fuel of channel destruction and of formatting is shown
  to be enough by the theorems about them, and any positive fuel is enough for a hash
  table below its first rehash. The outer loop of \<open>link_page\<close> starts again with the full
  number of pages in every table, so that it ends in its second round (for at most 512
  pages) or never: the kernel model gives it the fuel 4, and \<open>NoFuel\<close> stands for not
  returning. The receive loop of a server and the polling loops of the PS/2 driver depend
  on other parties, so that their fuel is an argument.

  \<^bold>\<open>Error properties.\<close> Several properties state what the code does where that is not what it
  is meant to do: receivers that stay blocked, a pending notification that does not end a
  receive, a non-blocking call that blocks, the FPU owner that is destroyed, messages with
  oversized payloads, the rehash of a hash table, pages that are never merged, and pages
  behind the file part of a segment.

  \<^bold>\<open>Not modelled.\<close> The set-up of the processor (apic.c, mp.c, serial.c, setup.c and the
  assembly files of kernel/arch/x64), which writes device registers; kernel/debug.c and
  asan.c, which are diagnostics; servers/appmgr, which does for applications what memmgr
  does for servers; servers/gui and its font; libs/libvirtio and servers/virtio_blk, which
  share memory with a device; the test, benchmark and example programs; the generators in
  tools other than mkinitfs.py. The model has one processor: the code has variables per
  processor, but its comments mark the support of several processors as open. The other directories of src are separate programs.
\<close>

section \<open>The kernel\<close>

text \<open>
  C1: every system call keeps the scheduler and waiting-thread invariant: the run
  queue holds distinct live unblocked threads other than the current one, every
  unblocked thread is current or queued, and a thread waiting at a channel is live,
  blocked and waits at one place only. It does so for all arguments and on every
  path, including the IPC fast path and the blocking paths.
\<close>

theorem syscall_keeps_invariant:
  assumes "ipc_inv k" "running k" "current k \<noteq> idle_thread k"
    "syscall_handler I k arg0 arg1 n = Inr (out, k')"
  shows "ipc_inv k' \<and> running k'"
proof -
  have "good (current k) (idle_thread k) {} k" using assms(1,2) by (simp add: good_def unwaited_def)
  from returnsD[OF syscall_handler_ends[OF this assms(3)] assms(4)]
  show ?thesis by (simp add: settled_def good_def)
qed

theorem syscall_keeps_invariant_witness:
  "\<exists>k'. syscall_handler sc_idl sc_kernel 1 4 5 = Inr (Return (RErr OK), k') \<and> ipc_inv k' \<and> running k'"
  using sc_notify syscall_keeps_invariant[OF sc_inv sc_running] by blast

end
